(* ===== verification/Prelude.thy ===== *)
theory Prelude
  imports Main "HOL-Library.Word" "HOL-Library.Sublist"
begin

text \<open>
  The library under every component: the outcome of running a piece of C (a value and a
  state, a process exit, undefined behaviour, a deadlock, or a loop that never ends),
  commands over an explicit state with their sequencing, and two predicate transformers.
  \<open>wp\<close> asks that the command returns and that the result satisfies the postcondition;
  \<open>wlp\<close> asks it only of runs that return; \<open>wlx\<close> has a second postcondition for runs that end
  the process, and \<open>yields\<close> states invariants and types with it. \<open>preserves f m\<close> says that the part \<open>f\<close> of the
  state is the same after every returning run of \<open>m\<close>: the frame lemmas of the components
  are instances of it, found by the rules collected in \<open>frame\<close>.
\<close>

named_theorems frame \<open>introduction rules for frames\<close>
named_theorems wp_eqs \<open>equations that push wp and wlp through a command\<close>
named_theorems c_consts \<open>the values of the program's preprocessor constants\<close>

section \<open>Outcomes and commands\<close>

text \<open>The ways in which a C program can lose its meaning that the model tracks.\<close>

datatype fault =
    NullDeref
  | UseAfterFree
  | DoubleFree
  | OutOfBounds
  | Uninitialised
  | IntOverflow
  | BadFormat

datatype ('a, 's) outcome =
    Ret 'a 's
  | Exits int 's
  | Faults fault
  | Deadlocks
  | Diverges

type_synonym ('s, 'a) cmd = "'s \<Rightarrow> ('a, 's) outcome"

definition ret :: "'a \<Rightarrow> ('s, 'a) cmd" where
  "ret a s = Ret a s"

definition bindC :: "('s, 'a) cmd \<Rightarrow> ('a \<Rightarrow> ('s, 'b) cmd) \<Rightarrow> ('s, 'b) cmd" where
  "bindC m f s =
     (case m s of
        Ret a s' \<Rightarrow> f a s'
      | Exits n s' \<Rightarrow> Exits n s'
      | Faults x \<Rightarrow> Faults x
      | Deadlocks \<Rightarrow> Deadlocks
      | Diverges \<Rightarrow> Diverges)"

definition seqC :: "('s, 'a) cmd \<Rightarrow> ('s, 'b) cmd \<Rightarrow> ('s, 'b) cmd" where
  "seqC m n = bindC m (\<lambda>_. n)"

definition asks :: "('s \<Rightarrow> 'a) \<Rightarrow> ('s, 'a) cmd" where
  "asks f s = Ret (f s) s"

definition update :: "('s \<Rightarrow> 's) \<Rightarrow> ('s, unit) cmd" where
  "update f s = Ret () (f s)"

definition faultC :: "fault \<Rightarrow> ('s, 'a) cmd" where
  "faultC x s = Faults x"

definition exitC :: "int \<Rightarrow> ('s, 'a) cmd" where
  "exitC n s = Exits n s"

text \<open>Commands run one after another, as the body of a \<open>for\<close> loop over a list runs.\<close>

fun forC :: "'x list \<Rightarrow> ('x \<Rightarrow> ('s, 'a) cmd) \<Rightarrow> ('s, unit) cmd" where
  "forC [] f = ret ()"
| "forC (x # xs) f = seqC (f x) (forC xs f)"

lemma bindC_run [simp]:
  "m s = Ret a s' \<Longrightarrow> bindC m f s = f a s'"
  "m s = Faults x \<Longrightarrow> bindC m f s = Faults x"
  "m s = Exits n s' \<Longrightarrow> bindC m f s = Exits n s'"
  "m s = Deadlocks \<Longrightarrow> bindC m f s = Deadlocks"
  "m s = Diverges \<Longrightarrow> bindC m f s = Diverges"
  by (simp_all add: bindC_def)

lemma seqC_run [simp]:
  "m s = Ret a s' \<Longrightarrow> seqC m n s = n s'"
  "m s = Faults x \<Longrightarrow> seqC m n s = Faults x"
  "m s = Exits k s' \<Longrightarrow> seqC m n s = Exits k s'"
  "m s = Deadlocks \<Longrightarrow> seqC m n s = Deadlocks"
  "m s = Diverges \<Longrightarrow> seqC m n s = Diverges"
  by (simp_all add: seqC_def)

lemma bindC_assoc: "bindC (bindC m f) g = bindC m (\<lambda>a. bindC (f a) g)"
  by (rule ext) (simp add: bindC_def split: outcome.split)

lemma seqC_assoc: "seqC (seqC a b) c = seqC a (seqC b c)"
  by (simp add: seqC_def bindC_assoc)

lemma bindC_ret: "bindC (ret a) f = f a"
  by (rule ext) (simp add: bindC_def ret_def)

lemma bindC_fault: "bindC (faultC x) f = faultC x"
  by (rule ext) (simp add: bindC_def faultC_def)

lemma seqC_ret: "seqC (ret a) m = m"
  by (simp add: seqC_def bindC_ret)

lemma prim_run [simp]:
  "ret a s = Ret a s"
  "asks f s = Ret (f s) s"
  "update g s = Ret () (g s)"
  "faultC x s = Faults x"
  "exitC n s = Exits n s"
  by (simp_all add: ret_def asks_def update_def faultC_def exitC_def)

section \<open>Predicate transformers\<close>

definition wp :: "('s, 'a) cmd \<Rightarrow> ('a \<Rightarrow> 's \<Rightarrow> bool) \<Rightarrow> 's \<Rightarrow> bool" where
  "wp m Q s = (case m s of Ret a s' \<Rightarrow> Q a s' | _ \<Rightarrow> False)"

definition wlp :: "('s, 'a) cmd \<Rightarrow> ('a \<Rightarrow> 's \<Rightarrow> bool) \<Rightarrow> 's \<Rightarrow> bool" where
  "wlp m Q s = (case m s of Ret a s' \<Rightarrow> Q a s' | _ \<Rightarrow> True)"

lemma wp_iff: "wp m Q s \<longleftrightarrow> (\<exists>a s'. m s = Ret a s' \<and> Q a s')"
  by (cases "m s") (auto simp: wp_def)

lemma wlp_iff: "wlp m Q s \<longleftrightarrow> (\<forall>a s'. m s = Ret a s' \<longrightarrow> Q a s')"
  by (cases "m s") (auto simp: wlp_def)

lemma wp_bind [wp_eqs]: "wp (bindC m f) Q s = wp m (\<lambda>a. wp (f a) Q) s"
  by (simp add: wp_def bindC_def split: outcome.split)

lemma wlp_bind [wp_eqs]: "wlp (bindC m f) Q s = wlp m (\<lambda>a. wlp (f a) Q) s"
  by (simp add: wlp_def bindC_def split: outcome.split)

lemma wp_seq [wp_eqs]: "wp (seqC m n) Q s = wp m (\<lambda>_. wp n Q) s"
  by (simp add: seqC_def wp_bind)

lemma wlp_seq [wp_eqs]: "wlp (seqC m n) Q s = wlp m (\<lambda>_. wlp n Q) s"
  by (simp add: seqC_def wlp_bind)

lemma wp_prims [wp_eqs]:
  "wp (ret a) P = P a"
  "wp (Ret a) P = P a"
  "wp (asks f) Q s = Q (f s) s"
  "wp (update g) R s = R () (g s)"
  "wp (faultC x) S s = False"
  "wp (exitC n) T s = False"
  by (auto simp: wp_def fun_eq_iff)

lemma wlp_prims [wp_eqs]:
  "wlp (ret a) P = P a"
  "wlp (Ret a) P = P a"
  "wlp (asks f) Q s = Q (f s) s"
  "wlp (update g) R s = R () (g s)"
  "wlp (faultC x) S s = True"
  "wlp (exitC n) T s = True"
  by (auto simp: wlp_def fun_eq_iff)

lemma wp_mono: "wp m Q s \<Longrightarrow> (\<And>a s'. Q a s' \<Longrightarrow> R a s') \<Longrightarrow> wp m R s"
  by (auto simp: wp_iff)

lemma wlp_mono: "wlp m Q s \<Longrightarrow> (\<And>a s'. Q a s' \<Longrightarrow> R a s') \<Longrightarrow> wlp m R s"
  by (auto simp: wlp_iff)

lemma wp_conj_wlp: "wp m Q s \<Longrightarrow> wlp m R s \<Longrightarrow> wp m (\<lambda>a s'. Q a s' \<and> R a s') s"
  by (auto simp: wp_iff wlp_iff)

section \<open>Frames\<close>

text \<open>
  A relation between the state before and after a command. A reflexive and transitive one
  passes from the parts of a command to the whole; the locale proves that once, and each
  order used below (a field unchanged, the event history only growing, a flag never
  cleared) interprets it.
\<close>

definition keeps :: "('s \<Rightarrow> 's \<Rightarrow> bool) \<Rightarrow> ('s, 'a) cmd \<Rightarrow> bool" where
  "keeps R m \<longleftrightarrow> (\<forall>s a s'. m s = Ret a s' \<longrightarrow> R s s')"

lemma keepsI: "(\<And>s a s'. m s = Ret a s' \<Longrightarrow> R s s') \<Longrightarrow> keeps R m"
  by (simp add: keeps_def)

lemma keepsD: "keeps R m \<Longrightarrow> m s = Ret a s' \<Longrightarrow> R s s'"
  by (simp add: keeps_def)

lemma keeps_wlp: "keeps R m \<Longrightarrow> wlp m (\<lambda>_ s'. R s s') s"
  by (auto simp: keeps_def wlp_iff)

locale step_order =
  fixes R :: "'s \<Rightarrow> 's \<Rightarrow> bool"
  assumes refl: "R s s"
    and trans: "R s t \<Longrightarrow> R t u \<Longrightarrow> R s u"
begin

lemma bind:
  assumes "keeps R m" and "\<And>a. keeps R (g a)"
  shows "keeps R (bindC m g)"
proof (rule keepsI)
  fix s b u
  assume run: "bindC m g s = Ret b u"
  then obtain a t where "m s = Ret a t" and "g a t = Ret b u"
    by (cases "m s") auto
  with assms show "R s u" by (metis keepsD trans)
qed

lemma seq: "keeps R m \<Longrightarrow> keeps R n \<Longrightarrow> keeps R (seqC m n)"
  unfolding seqC_def by (rule bind)

lemma prims:
  "keeps R (ret a)"
  "keeps R (asks h)"
  "keeps R (faultC x)"
  "keeps R (exitC n)"
  by (simp_all add: keeps_def refl)

lemma upd: "(\<And>s. R s (g s)) \<Longrightarrow> keeps R (update g)"
  by (simp add: keeps_def)

lemma branch: "keeps R m \<Longrightarrow> keeps R n \<Longrightarrow> keeps R (if b then m else n)"
  by simp

lemma option:
  "keeps R m \<Longrightarrow> (\<And>x. keeps R (g x)) \<Longrightarrow>
     keeps R (case y of None \<Rightarrow> m | Some x \<Rightarrow> g x)"
  by (cases y) auto

lemma prod: "(\<And>x y. keeps R (g x y)) \<Longrightarrow> keeps R (case p of (x, y) \<Rightarrow> g x y)"
  by (cases p) auto

lemma letC: "(\<And>x. keeps R (g x)) \<Longrightarrow> keeps R (let x = e in g x)"
  by simp

lemma loop: "(\<And>x. keeps R (g x)) \<Longrightarrow> keeps R (forC xs g)"
  by (induction xs) (auto intro: prims seq)

lemmas rules = bind seq prims upd branch option prod letC loop

end

definition same_on :: "('s \<Rightarrow> 'f) \<Rightarrow> 's \<Rightarrow> 's \<Rightarrow> bool" where
  "same_on f s s' \<longleftrightarrow> f s' = f s"

abbreviation preserves :: "('s \<Rightarrow> 'f) \<Rightarrow> ('s, 'a) cmd \<Rightarrow> bool" where
  "preserves f \<equiv> keeps (same_on f)"

interpretation same: step_order "same_on f" for f :: "'s \<Rightarrow> 'f"
  by unfold_locales (simp_all add: same_on_def)

lemmas [frame] = same.rules

lemma preservesD: "preserves f m \<Longrightarrow> m s = Ret a s' \<Longrightarrow> f s' = f s"
  by (simp add: keeps_def same_on_def)

lemma preservesI: "(\<And>s a s'. m s = Ret a s' \<Longrightarrow> f s' = f s) \<Longrightarrow> preserves f m"
  by (simp add: keeps_def same_on_def)

lemma same_onI: "f s' = f s \<Longrightarrow> same_on f s s'"
  by (simp add: same_on_def)

lemma preserves_wlp: "preserves f m \<Longrightarrow> wlp m (\<lambda>_ s'. f s' = f s) s"
  by (auto simp: wlp_iff dest: preservesD)

section \<open>Invariants of commands that may end the process\<close>

text \<open>
  \<open>yields I T E m\<close>: from a state of \<open>I\<close>, the command returns a value of \<open>T\<close> in a state of \<open>I\<close>,
  and if it ends the process it does so with a status and in a state of \<open>E\<close>. With nothing
  asked of the value it is \<open>guards I E m\<close>.
\<close>

definition wlx ::
  "('s, 'a) cmd \<Rightarrow> ('a \<Rightarrow> 's \<Rightarrow> bool) \<Rightarrow> (int \<Rightarrow> 's \<Rightarrow> bool) \<Rightarrow> 's \<Rightarrow> bool" where
  "wlx m Q E s = (case m s of Ret a s' \<Rightarrow> Q a s' | Exits n s' \<Rightarrow> E n s' | _ \<Rightarrow> True)"

definition yields ::
  "('s \<Rightarrow> bool) \<Rightarrow> ('a \<Rightarrow> bool) \<Rightarrow> (int \<Rightarrow> 's \<Rightarrow> bool) \<Rightarrow> ('s, 'a) cmd \<Rightarrow> bool" where
  "yields I T E m \<longleftrightarrow> (\<forall>s. I s \<longrightarrow> wlx m (\<lambda>a s'. T a \<and> I s') E s)"

abbreviation anything :: "'a \<Rightarrow> bool" where
  "anything \<equiv> \<lambda>_. True"

abbreviation guards :: "('s \<Rightarrow> bool) \<Rightarrow> (int \<Rightarrow> 's \<Rightarrow> bool) \<Rightarrow> ('s, 'a) cmd \<Rightarrow> bool" where
  "guards I E \<equiv> yields I anything E"

lemma wlx_eqs:
  "wlx (bindC m f) Q E s = wlx m (\<lambda>a. wlx (f a) Q E) E s"
  "wlx (seqC m n) Q E s = wlx m (\<lambda>_. wlx n Q E) E s"
  "wlx (ret b) Q E s = Q b s"
  "wlx (asks h) R E s = R (h s) s"
  "wlx (update g) T E s = T () (g s)"
  "wlx (faultC x) Q E s = True"
  by (simp_all add: wlx_def bindC_def seqC_def split: outcome.split)

lemma wlx_mono:
  "wlx m Q E s \<Longrightarrow> (\<And>a t. Q a t \<Longrightarrow> R a t) \<Longrightarrow> (\<And>n t. E n t \<Longrightarrow> F n t) \<Longrightarrow> wlx m R F s"
  by (auto simp: wlx_def split: outcome.splits)

lemma yieldsI:
  assumes "\<And>s a s'. I s \<Longrightarrow> m s = Ret a s' \<Longrightarrow> T a \<and> I s'"
    and "\<And>s n s'. I s \<Longrightarrow> m s = Exits n s' \<Longrightarrow> E n s'"
  shows "yields I T E m"
  using assms by (auto simp: yields_def wlx_def split: outcome.split)

lemma yieldsD:
  assumes "yields I T E m" and "I s"
  shows "m s = Ret a s' \<Longrightarrow> T a \<and> I s'" "m s = Exits n s' \<Longrightarrow> E n s'"
  using assms by (auto simp: yields_def wlx_def split: outcome.splits)

lemma guards_iff: "guards I E m \<longleftrightarrow> (\<forall>s. I s \<longrightarrow> wlx m (\<lambda>_. I) E s)"
  by (simp add: yields_def)

lemma guardsI:
  assumes "\<And>s a s'. I s \<Longrightarrow> m s = Ret a s' \<Longrightarrow> I s'"
    and "\<And>s n s'. I s \<Longrightarrow> m s = Exits n s' \<Longrightarrow> E n s'"
  shows "guards I E m"
  using assms by (auto intro: yieldsI)

lemma guardsD:
  assumes "guards I E m" and "I s"
  shows "m s = Ret a s' \<Longrightarrow> I s'" "m s = Exits n s' \<Longrightarrow> E n s'"
  using yieldsD [OF assms] by auto

text \<open>What is known of the value of the first command may be used for the second.\<close>

lemma yields_bind_post:
  assumes "yields I T E m" and "\<And>s a s'. m s = Ret a s' \<Longrightarrow> T a \<Longrightarrow> yields I U E (f a)"
  shows "yields I U E (bindC m f)"
proof (rule yieldsI)
  fix s b t
  assume "I s" and run: "bindC m f s = Ret b t"
  then obtain a u where "m s = Ret a u" and "f a u = Ret b t" by (cases "m s") auto
  with \<open>I s\<close> show "U b \<and> I t" using yieldsD(1) [OF assms(1)] yieldsD(1) [OF assms(2)] by blast
next
  fix s n t
  assume "I s" and run: "bindC m f s = Exits n t"
  show "E n t"
  proof (cases "m s")
    case (Ret a u)
    with run have "f a u = Exits n t" by simp
    then show ?thesis
      using yieldsD(1) [OF assms(1) \<open>I s\<close> Ret] yieldsD(2) [OF assms(2) [OF Ret]] by blast
  qed (use run yieldsD(2) [OF assms(1) \<open>I s\<close>] in auto)
qed

lemma yields_bind:
  "yields I T E m \<Longrightarrow> (\<And>a. T a \<Longrightarrow> yields I U E (f a)) \<Longrightarrow> yields I U E (bindC m f)"
  by (rule yields_bind_post)

lemma yields_seq: "yields I T E m \<Longrightarrow> yields I U E n \<Longrightarrow> yields I U E (seqC m n)"
  unfolding seqC_def by (rule yields_bind)

lemma yields_weaken: "yields I T E m \<Longrightarrow> (\<And>a. T a \<Longrightarrow> U a) \<Longrightarrow> yields I U E m"
  unfolding yields_def by (blast intro: wlx_mono)

lemma yields_prims:
  "T a \<Longrightarrow> yields I T E (ret a)"
  "yields I T E (faultC x)"
  "(\<And>s. I s \<Longrightarrow> I (g s)) \<Longrightarrow> yields I anything E (update g)"
  by (simp_all add: yields_def wlx_eqs)

lemma yields_branches:
  "(b \<Longrightarrow> yields I T E m) \<Longrightarrow> (\<not> b \<Longrightarrow> yields I T E n) \<Longrightarrow> yields I T E (if b then m else n)"
  "(y = None \<Longrightarrow> yields I T E m) \<Longrightarrow> (\<And>x. y = Some x \<Longrightarrow> yields I T E (g x)) \<Longrightarrow>
     yields I T E (case y of None \<Rightarrow> m | Some x \<Rightarrow> g x)"
  "(\<And>x z. p = (x, z) \<Longrightarrow> yields I T E (h x z)) \<Longrightarrow> yields I T E (case p of (x, z) \<Rightarrow> h x z)"
  "yields I T E (k e) \<Longrightarrow> yields I T E (let x = e in k x)"
  by (auto split: option.split prod.split)

lemmas yields_rules = yields_bind yields_seq yields_prims yields_branches

lemma guards_bind_post:
  "guards I E m \<Longrightarrow> (\<And>s a s'. m s = Ret a s' \<Longrightarrow> guards I E (f a)) \<Longrightarrow> guards I E (bindC m f)"
  by (rule yields_bind_post)

lemma guards_prims:
  "guards I E (ret a)" "guards I E (asks h)" "guards I E (faultC x)"
  "(\<And>s. I s \<Longrightarrow> I (g s)) \<Longrightarrow> guards I E (update g)"
  by (simp_all add: yields_def wlx_eqs)

lemma guards_branches:
  "guards I E m \<Longrightarrow> guards I E n \<Longrightarrow> guards I E (if b then m else n)"
  "guards I E m \<Longrightarrow> (\<And>x. guards I E (g x)) \<Longrightarrow> guards I E (case y of None \<Rightarrow> m | Some x \<Rightarrow> g x)"
  "(\<And>x z. guards I E (h x z)) \<Longrightarrow> guards I E (case p of (x, z) \<Rightarrow> h x z)"
  "(\<And>x. guards I E (g x)) \<Longrightarrow> guards I E (let x = e in g x)"
  by (auto split: option.split prod.split)

lemma guards_bind:
  "guards I E m \<Longrightarrow> (\<And>a. guards I E (f a)) \<Longrightarrow> guards I E (bindC m f)"
  by (rule yields_bind)

lemma guards_seq: "guards I E m \<Longrightarrow> guards I E n \<Longrightarrow> guards I E (seqC m n)"
  by (rule yields_seq)

lemmas guards_rules = guards_bind guards_seq guards_prims guards_branches

text \<open>A loop that carries a value from one round to the next.\<close>

fun foldC :: "('x \<Rightarrow> 'a \<Rightarrow> ('s, 'a) cmd) \<Rightarrow> 'x list \<Rightarrow> 'a \<Rightarrow> ('s, 'a) cmd" where
  "foldC f [] a = ret a"
| "foldC f (x # xs) a = bindC (f x a) (foldC f xs)"

lemma foldC_append: "foldC f (xs @ ys) a = bindC (foldC f xs a) (foldC f ys)"
proof (induction xs arbitrary: a)
  case Nil
  show ?case by (rule ext) (simp add: bindC_def ret_def)
next
  case (Cons x xs)
  then have "foldC f (xs @ ys) = (\<lambda>b. bindC (foldC f xs b) (foldC f ys))"
    by (rule ext)
  then show ?case by (simp add: bindC_assoc)
qed

lemma keeps_foldC:
  assumes "step_order R" and "\<And>x a. keeps R (f x a)"
  shows "keeps R (foldC f xs a)"
  using assms(2)
  by (induction xs arbitrary: a)
    (simp_all add: step_order.prims(1) [OF assms(1)] step_order.bind [OF assms(1)])

lemmas preserves_foldC [frame] = keeps_foldC [OF same.step_order_axioms]

end
