(* ===== verification/CString.thy ===== *)
theory CString
  imports Prelude
begin

text \<open>
  The part of the C standard library's string functions that the program calls, over
  \<open>string\<close> (a list of bytes). A C string is a byte list without the terminator; where the
  source handles a whole buffer, \<open>cstr\<close> reads the string it holds. Here are
  \<open>strstr\<close>, \<open>strtok\<close> (the tokens, and what the call leaves in the buffer), \<open>fgets\<close>,
  \<open>strncpy\<close>, \<open>snprintf\<close>'s truncation, decimal printing and \<open>atoi\<close>, with the laws the
  components use: offsets that \<open>strstr\<close> returns are real occurrences, tokens are
  non-empty and free of separators, reading a file by \<open>fgets\<close> loses nothing, and
  \<open>atoi\<close> inverts decimal printing.
\<close>

definition nul :: char where
  "nul = CHR 0x00"

definition newline :: char where
  "newline = CHR 0x0A"

definition carriage_return :: char where
  "carriage_return = CHR 0x0D"

definition INT_MAX :: int where
  "INT_MAX = 2147483647"

definition INT_MIN :: int where
  "INT_MIN = - 2147483648"

definition LONG_MAX :: int where
  "LONG_MAX = 9223372036854775807"

definition LONG_MIN :: int where
  "LONG_MIN = - 9223372036854775808"

lemmas c_limits [c_consts] = INT_MAX_def INT_MIN_def LONG_MAX_def LONG_MIN_def

section \<open>Buffers and strings\<close>

text \<open>The C string that a buffer holds: the bytes before the first terminator.\<close>

definition cstr :: "string \<Rightarrow> string" where
  "cstr buf = takeWhile (\<lambda>c. c \<noteq> nul) buf"

definition is_cstr :: "string \<Rightarrow> bool" where
  "is_cstr s = (nul \<notin> set s)"

lemma cstr_id [simp]: "is_cstr s \<Longrightarrow> cstr s = s"
  unfolding cstr_def is_cstr_def by (subst takeWhile_eq_all_conv) blast

lemma is_cstr_cstr [simp]: "is_cstr (cstr s)"
  by (auto simp: cstr_def is_cstr_def dest: set_takeWhileD)

lemma is_cstr_simps [simp]:
  "is_cstr []"
  "is_cstr (c # s) \<longleftrightarrow> c \<noteq> nul \<and> is_cstr s"
  "is_cstr (s @ t) \<longleftrightarrow> is_cstr s \<and> is_cstr t"
  by (auto simp: is_cstr_def)

lemma is_cstr_take [simp]: "is_cstr s \<Longrightarrow> is_cstr (take n s)"
  by (auto simp: is_cstr_def dest: in_set_takeD)

lemma is_cstr_drop [simp]: "is_cstr s \<Longrightarrow> is_cstr (drop n s)"
  by (auto simp: is_cstr_def dest: in_set_dropD)

lemma length_cstr_le: "length (cstr s) \<le> length s"
  by (simp add: cstr_def length_takeWhile_le)

lemma cstr_append_nul [simp]: "is_cstr s \<Longrightarrow> cstr (s @ nul # t) = s"
  by (induction s) (auto simp: cstr_def)

text \<open>What \<open>snprintf(buf, n, ...)\<close> leaves as the string of \<open>buf\<close>, for \<open>n > 0\<close>.\<close>

definition snprintf_str :: "nat \<Rightarrow> string \<Rightarrow> string" where
  "snprintf_str n s = take (n - 1) s"

lemma snprintf_str_length: "0 < n \<Longrightarrow> length (snprintf_str n s) < n"
  by (simp add: snprintf_str_def)

lemma snprintf_str_fits: "length s < n \<Longrightarrow> snprintf_str n s = s"
  by (simp add: snprintf_str_def)

text \<open>
  \<open>strncpy(dst, src, n)\<close> on a buffer: at most \<open>n\<close> bytes of the string, padded with
  terminators to \<open>n\<close>, and no terminator when the string is longer.
\<close>

definition strncpy :: "string \<Rightarrow> string \<Rightarrow> nat \<Rightarrow> string" where
  "strncpy dst src n =
     (let s = take n (cstr src)
      in s @ replicate (n - length s) nul @ drop n dst)"

lemma length_strncpy: "n \<le> length dst \<Longrightarrow> length (strncpy dst src n) = length dst"
  by (simp add: strncpy_def Let_def)

lemma cstr_strncpy_fresh:
  assumes "is_cstr src" and "n \<le> length src" and "n < m"
  shows "cstr (strncpy (replicate m nul) src n) = take n src"
proof -
  have "strncpy (replicate m nul) src n = take n src @ replicate (m - n) nul"
    using assms by (simp add: strncpy_def Let_def)
  also have "\<dots> = take n src @ nul # replicate (m - n - 1) nul"
    using \<open>n < m\<close> by (cases "m - n") auto
  finally show ?thesis using assms by simp
qed

section \<open>strstr\<close>

text \<open>The offset of the first occurrence; the empty string occurs at once.\<close>

fun strstr :: "string \<Rightarrow> string \<Rightarrow> nat option" where
  "strstr [] pat = (if pat = [] then Some 0 else None)"
| "strstr (c # cs) pat =
     (if prefix pat (c # cs) then Some 0 else map_option Suc (strstr cs pat))"

lemma strstr_Some: "strstr s pat = Some i \<Longrightarrow> i \<le> length s \<and> prefix pat (drop i s)"
  by (induction s arbitrary: i) (auto split: if_splits)

lemma strstr_None_iff: "strstr s pat = None \<longleftrightarrow> \<not> sublist pat s"
proof (induction s)
  case Nil
  then show ?case by simp
next
  case (Cons c cs)
  then show ?case by (simp add: sublist_Cons_right)
qed

lemma strstr_prefix: "prefix pat s \<Longrightarrow> strstr s pat = Some 0"
  by (cases s) auto

lemma strstr_bound: "strstr s pat = Some i \<Longrightarrow> i + length pat \<le> length s"
  by (induction s arbitrary: i) (auto split: if_splits dest: prefix_length_le)

section \<open>strtok\<close>

text \<open>
  The tokens that repeated calls of \<open>strtok\<close> on one string return, and the bytes that the
  calls leave in its place: the byte after each token becomes a terminator, other separators
  stay.
\<close>

lemma dropWhile_tail_less [termination_simp]:
  "dropWhile P xs = y # ys \<Longrightarrow> length ys < Suc (length xs)"
  using length_dropWhile_le [of P xs] by simp

lemma length_dropWhile_less_Suc [termination_simp]: "length (dropWhile P xs) < Suc (length xs)"
  by (simp add: length_dropWhile_le le_imp_less_Suc)

fun strtok_tokens :: "string \<Rightarrow> string \<Rightarrow> string list" where
  "strtok_tokens seps [] = []"
| "strtok_tokens seps (c # cs) =
     (if c \<in> set seps then strtok_tokens seps cs
      else (c # takeWhile (\<lambda>x. x \<notin> set seps) cs)
             # strtok_tokens seps (dropWhile (\<lambda>x. x \<notin> set seps) cs))"

fun strtok_wipe :: "string \<Rightarrow> string \<Rightarrow> string" where
  "strtok_wipe seps [] = []"
| "strtok_wipe seps (c # cs) =
     (if c \<in> set seps then c # strtok_wipe seps cs
      else c # takeWhile (\<lambda>x. x \<notin> set seps) cs @
           (case dropWhile (\<lambda>x. x \<notin> set seps) cs of
              [] \<Rightarrow> []
            | d # ds \<Rightarrow> nul # strtok_wipe seps ds))"

lemma length_strtok_wipe [simp]: "length (strtok_wipe seps s) = length s"
proof (induction seps s rule: strtok_wipe.induct)
  case (2 seps c cs)
  show ?case
  proof (cases "c \<in> set seps")
    case False
    have "length cs = length (takeWhile (\<lambda>x. x \<notin> set seps) cs) + length (dropWhile (\<lambda>x. x \<notin> set seps) cs)"
      by (metis length_append takeWhile_dropWhile_id)
    with 2(2) [OF False] False show ?thesis by (simp split: list.split)
  qed (use 2(1) in simp)
qed simp

lemma strtok_tokens_nonempty: "t \<in> set (strtok_tokens seps s) \<Longrightarrow> t \<noteq> []"
  by (induction seps s rule: strtok_tokens.induct) (auto split: if_splits)

lemma strtok_tokens_clean: "t \<in> set (strtok_tokens seps s) \<Longrightarrow> set t \<inter> set seps = {}"
  by (induction seps s rule: strtok_tokens.induct)
    (auto split: if_splits dest: set_takeWhileD)

lemma strtok_tokens_concat: "concat (strtok_tokens seps s) = filter (\<lambda>c. c \<notin> set seps) s"
proof (induction seps s rule: strtok_tokens.induct)
  case (1 seps)
  then show ?case by simp
next
  case (2 seps c cs)
  have "filter (\<lambda>c. c \<notin> set seps) cs =
      takeWhile (\<lambda>x. x \<notin> set seps) cs
        @ filter (\<lambda>c. c \<notin> set seps) (dropWhile (\<lambda>x. x \<notin> set seps) cs)"
    by (induction cs) auto
  with 2 show ?case by simp
qed

lemma strtok_tokens_Nil_iff: "strtok_tokens seps s = [] \<longleftrightarrow> set s \<subseteq> set seps"
  by (induction seps s rule: strtok_tokens.induct) auto

lemma strtok_tokens_sublist: "t \<in> set (strtok_tokens seps s) \<Longrightarrow> set t \<subseteq> set s"
proof -
  assume "t \<in> set (strtok_tokens seps s)"
  then have "set t \<subseteq> set (concat (strtok_tokens seps s))" by auto
  then show ?thesis by (auto simp: strtok_tokens_concat)
qed

section \<open>fgets\<close>

text \<open>
  One \<open>fgets(line, n, f)\<close>: at most \<open>n - 1\<close> bytes, stopping after a newline; NULL at the
  end of the file. \<open>fgets_all\<close> is the sequence of buffers that a loop over \<open>fgets\<close> sees.
\<close>

fun fgets_chunk :: "nat \<Rightarrow> string \<Rightarrow> string \<times> string" where
  "fgets_chunk 0 s = ([], s)"
| "fgets_chunk (Suc n) [] = ([], [])"
| "fgets_chunk (Suc n) (c # cs) =
     (if c = newline then ([c], cs)
      else case fgets_chunk n cs of (l, rest) \<Rightarrow> (c # l, rest))"

definition fgets :: "nat \<Rightarrow> string \<Rightarrow> (string \<times> string) option" where
  "fgets n f = (if f = [] then None else Some (fgets_chunk (n - 1) f))"

lemma fgets_chunk_append: "fgets_chunk n s = (l, rest) \<Longrightarrow> s = l @ rest"
  by (induction n s arbitrary: l rest rule: fgets_chunk.induct) (auto split: if_splits prod.splits)

lemma fgets_chunk_length: "fgets_chunk n s = (l, rest) \<Longrightarrow> length l \<le> n"
  by (induction n s arbitrary: l rest rule: fgets_chunk.induct) (auto split: if_splits prod.splits)

lemma fgets_chunk_nonempty: "fgets_chunk (Suc n) (c # s) = (l, rest) \<Longrightarrow> l \<noteq> []"
  by (auto split: if_splits prod.splits)

function fgets_all :: "nat \<Rightarrow> string \<Rightarrow> string list" where
  "fgets_all n f =
     (if n < 2 then []
      else case fgets n f of
             None \<Rightarrow> []
           | Some (line, rest) \<Rightarrow> line # fgets_all n rest)"
  by pat_completeness auto
termination
proof (relation "measure (\<lambda>(n, f). length f)", goal_cases)
  case 1
  show ?case by simp
next
  case (2 n f p line rest)
  then obtain c s k where f: "f = c # s" and n: "n = Suc (Suc k)"
    by (cases f; cases n; cases "n - 1") (auto simp: fgets_def)
  with 2 have chunk: "fgets_chunk (Suc k) (c # s) = (line, rest)" by (auto simp: fgets_def)
  from fgets_chunk_append [OF chunk] have "length f = length line + length rest"
    by (simp add: f)
  with fgets_chunk_nonempty [OF chunk] show ?case by simp
qed

declare fgets_all.simps [simp del]

lemma fgets_all_Nil [simp]: "fgets_all n [] = []"
  by (subst fgets_all.simps) (simp add: fgets_def)

lemma fgets_all_concat: "2 \<le> n \<Longrightarrow> concat (fgets_all n f) = f"
proof (induction n f rule: fgets_all.induct)
  case (1 n f)
  then show ?case
    by (subst fgets_all.simps)
      (auto simp: fgets_def split: prod.split dest: fgets_chunk_append)
qed

lemma fgets_all_line:
  "line \<in> set (fgets_all n f) \<Longrightarrow> line \<noteq> [] \<and> length line \<le> n - 1"
proof (induction n f rule: fgets_all.induct)
  case (1 n f)
  show ?case
  proof (cases "n < 2 \<or> f = []")
    case True
    then have "fgets_all n f = []" by (subst fgets_all.simps) (auto simp: fgets_def)
    with 1 show ?thesis by simp
  next
    case False
    then obtain c s k where f: "f = c # s" and n: "n = Suc (Suc k)"
      by (cases f; cases n; cases "n - 1") auto
    obtain l rest where chunk: "fgets_chunk (Suc k) (c # s) = (l, rest)" by fastforce
    then have "l \<noteq> [] \<and> length l \<le> Suc k"
      using fgets_chunk_nonempty fgets_chunk_length by blast
    moreover have "fgets_all n f = l # fgets_all n rest"
      using chunk f n by (subst fgets_all.simps) (simp add: fgets_def del: fgets_chunk.simps)
    with 1 have "line = l \<or> line \<in> set (fgets_all n rest)" by simp
    ultimately show ?thesis using 1 f n chunk
      by (auto simp: fgets_def simp del: fgets_chunk.simps)
  qed
qed

section \<open>Decimal numbers\<close>

definition digit_char :: "nat \<Rightarrow> char" where
  "digit_char d = char_of (48 + d)"

definition is_digit :: "char \<Rightarrow> bool" where
  "is_digit c = (48 \<le> (of_char c :: nat) \<and> (of_char c :: nat) \<le> 57)"

definition digit_val :: "char \<Rightarrow> nat" where
  "digit_val c = of_char c - 48"

lemma digit_char_val: "d < 10 \<Longrightarrow> digit_val (digit_char d) = d"
  by (simp add: digit_val_def digit_char_def of_char_of take_bit_nat_def)

lemma is_digit_char: "d < 10 \<Longrightarrow> is_digit (digit_char d)"
  by (simp add: is_digit_def digit_char_def of_char_of take_bit_nat_def)

fun dec :: "nat \<Rightarrow> string" where
  "dec n = (if n < 10 then [digit_char n] else dec (n div 10) @ [digit_char (n mod 10)])"

declare dec.simps [simp del]

definition dec_int :: "int \<Rightarrow> string" where
  "dec_int i = (if i < 0 then CHR ''-'' # dec (nat (- i)) else dec (nat i))"

definition digits_val :: "string \<Rightarrow> nat" where
  "digits_val ds = foldl (\<lambda>a c. 10 * a + digit_val c) 0 ds"

lemma dec_digits: "\<forall>c \<in> set (dec n). is_digit c"
proof (induction n rule: dec.induct)
  case (1 n)
  then show ?case by (subst dec.simps) (auto simp: is_digit_char)
qed

lemma dec_nonempty: "dec n \<noteq> []"
  by (subst dec.simps) simp

lemma digits_val_dec: "digits_val (dec n) = n"
proof (induction n rule: dec.induct)
  case (1 n)
  then show ?case by (subst dec.simps) (auto simp: digits_val_def digit_char_val)
qed

lemma length_dec_bound: "n < 10 ^ Suc k \<Longrightarrow> length (dec n) \<le> Suc k"
proof (induction k arbitrary: n)
  case 0
  then show ?case by (subst dec.simps) simp
next
  case (Suc k)
  show ?case
  proof (cases "n < 10")
    case False
    from Suc.prems have "n div 10 < 10 ^ Suc k" by (simp add: div_less_iff_less_mult)
    with Suc.IH False show ?thesis by (subst dec.simps) simp
  qed (subst dec.simps, simp)
qed

definition is_space :: "char \<Rightarrow> bool" where
  "is_space c = (c \<in> set [CHR '' '', CHR 0x09, CHR 0x0A, CHR 0x0B, CHR 0x0C, CHR 0x0D])"

text \<open>\<open>atoi\<close>: None where the value does not fit an \<open>int\<close>, which the standard leaves undefined.\<close>

definition atoi :: "string \<Rightarrow> int option" where
  "atoi s =
     (let s1 = dropWhile is_space s;
          neg = (s1 \<noteq> [] \<and> hd s1 = CHR ''-'');
          s2 = (if s1 \<noteq> [] \<and> hd s1 \<in> {CHR ''-'', CHR ''+''} then tl s1 else s1);
          v = int (digits_val (takeWhile is_digit s2));
          r = (if neg then - v else v)
      in if INT_MIN \<le> r \<and> r \<le> INT_MAX then Some r else None)"

lemma is_digit_not_special:
  assumes "is_digit c"
  shows "\<not> is_space c" "c \<noteq> CHR ''-''" "c \<noteq> CHR ''+''" "c \<noteq> nul" "c \<noteq> CHR '' ''"
    "c \<noteq> CHR '','' " "c \<noteq> CHR ''=''" "c \<noteq> CHR 0x22" "c \<noteq> CHR ''%''"
  using assms by (auto simp: is_digit_def is_space_def nul_def)

lemma dec_Cons: "\<exists>c s. dec n = c # s \<and> is_digit c"
  using dec_nonempty [of n] dec_digits [of n] by (cases "dec n") auto

lemma takeWhile_dec [simp]: "takeWhile is_digit (dec n) = dec n"
  using dec_digits [of n] by (auto simp: takeWhile_eq_all_conv)

lemma atoi_dec_int:
  assumes "INT_MIN \<le> i" and "i \<le> INT_MAX"
  shows "atoi (dec_int i) = Some i"
proof (cases "i < 0")
  case True
  have "\<not> is_space (CHR ''-'')" by (simp add: is_space_def)
  with True assms show ?thesis
    by (simp add: atoi_def dec_int_def digits_val_dec Let_def)
next
  case False
  obtain c s where cs: "dec (nat i) = c # s" "is_digit c" using dec_Cons by blast
  have tw: "takeWhile is_digit s = s"
    using dec_digits [of "nat i"] by (simp add: takeWhile_eq_all_conv cs)
  have dv: "digits_val (c # s) = nat i"
    using digits_val_dec [of "nat i"] by (simp add: cs)
  show ?thesis using False assms
    by (simp add: atoi_def dec_int_def Let_def is_digit_not_special cs tw dv)
qed

lemma is_cstr_dec [simp]: "is_cstr (dec n)"
  using dec_digits [of n] by (auto simp: is_cstr_def dest: is_digit_not_special)

lemma is_cstr_dec_int [simp]: "is_cstr (dec_int i)"
  by (simp add: dec_int_def nul_def)

section \<open>Text files of short lines\<close>

text \<open>A file whose lines are the given strings, each with its line end.\<close>

definition unlines :: "string list \<Rightarrow> string" where
  "unlines ls = concat (map (\<lambda>l. l @ [newline]) ls)"

lemma fgets_chunk_line:
  "newline \<notin> set l \<Longrightarrow> length l < n \<Longrightarrow> fgets_chunk n (l @ newline # rest) = (l @ [newline], rest)"
proof (induction l arbitrary: n)
  case Nil
  then show ?case by (cases n) auto
next
  case (Cons c l)
  then show ?case by (cases n) auto
qed

lemma fgets_all_lines:
  assumes "\<forall>l \<in> set ls. newline \<notin> set l \<and> length l + 1 < n"
  shows "fgets_all n (unlines ls @ rest) = map (\<lambda>l. l @ [newline]) ls @ fgets_all n rest"
  using assms
proof (induction ls)
  case Nil
  then show ?case by (simp add: unlines_def)
next
  case (Cons l ls)
  then have "newline \<notin> set l" and "length l < n - 1" by (simp, simp, linarith)
  then have "fgets n (unlines (l # ls) @ rest) = Some (l @ [newline], unlines ls @ rest)"
    by (simp add: fgets_def unlines_def fgets_chunk_line)
  then show ?case
    using Cons by (subst fgets_all.simps) simp
qed

end
