(* ===== verification/Printf.thy ===== *)
theory Printf
  imports CString
begin

text \<open>
  The formatting engine behind \<open>snprintf\<close>, \<open>vfprintf\<close> and \<open>vsnprintf\<close>, for the directives
  the program uses: \<open>%%\<close>, \<open>%d\<close>, \<open>%ld\<close>, \<open>%lu\<close>, \<open>%lld\<close>, \<open>%s\<close> and \<open>%n\<close>. A variadic integer
  argument is a 64-bit slot, as the LP64 calling conventions pass it, and \<open>%d\<close> reads the
  low 32 bits of its slot. \<open>None\<close> is a format whose behaviour is undefined (a directive
  without an argument, an argument of the wrong kind) or one whose directive is not among
  these. Formats without a percent sign print themselves.
\<close>

datatype arg =
    IntArg "64 word"
  | StrArg string
  | PtrArg

datatype directive = Percent | Conv_d | Conv_ld | Conv_lu | Conv_s | Conv_n

definition strip_prefix :: "string \<Rightarrow> string \<Rightarrow> string option" where
  "strip_prefix p s = (if prefix p s then Some (drop (length p) s) else None)"

text \<open>The directive that follows a percent sign, and the rest of the format.\<close>

fun first_match :: "(string \<times> directive) list \<Rightarrow> string \<Rightarrow> (directive \<times> string) option" where
  "first_match [] s = None"
| "first_match ((p, d) # ps) s =
     (case strip_prefix p s of
        Some rest \<Rightarrow> Some (d, rest)
      | None \<Rightarrow> first_match ps s)"

definition directive :: "string \<Rightarrow> (directive \<times> string) option" where
  "directive s =
     first_match
       [(''%'', Percent), (''d'', Conv_d), (''s'', Conv_s), (''n'', Conv_n),
        (''ld'', Conv_ld), (''lu'', Conv_lu), (''lld'', Conv_ld)] s"

lemma first_match_length:
  "first_match ps s = Some (d, rest) \<Longrightarrow> \<forall>(p, _) \<in> set ps. p \<noteq> [] \<Longrightarrow> length rest < length s"
proof (induction ps)
  case (Cons q ps)
  then show ?case
    by (cases q; cases "strip_prefix (fst q) s")
      (auto simp: strip_prefix_def prefix_def split: if_splits)
qed simp

lemma directive_length: "directive s = Some (d, rest) \<Longrightarrow> length rest < length s"
  unfolding directive_def by (erule first_match_length) simp

text \<open>What one directive prints for its argument.\<close>

fun render :: "directive \<Rightarrow> arg \<Rightarrow> string option" where
  "render Conv_d (IntArg w) = Some (dec_int (sint (ucast w :: 32 word)))"
| "render Conv_ld (IntArg w) = Some (dec_int (sint w))"
| "render Conv_lu (IntArg w) = Some (dec (unat w))"
| "render Conv_s (StrArg s) = Some s"
| "render Conv_n PtrArg = Some []"
| "render _ _ = None"

function format :: "string \<Rightarrow> arg list \<Rightarrow> string option" where
  "format [] args = Some []"
| "format (c # cs) args =
     (if c \<noteq> CHR ''%'' then map_option (Cons c) (format cs args)
      else case directive cs of
             None \<Rightarrow> None
           | Some (d, rest) \<Rightarrow>
               (if d = Percent then map_option (Cons CHR ''%'') (format rest args)
                else case args of
                       [] \<Rightarrow> None
                     | a # as \<Rightarrow>
                         (case render d a of
                            None \<Rightarrow> None
                          | Some out \<Rightarrow> map_option (append out) (format rest as))))"
  by pat_completeness auto
termination
  by (relation "measure (\<lambda>(f, args). length f)") (auto dest: directive_length)

definition plain :: "string \<Rightarrow> bool" where
  "plain f = (CHR ''%'' \<notin> set f)"

text \<open>A format without directives prints itself, whatever the arguments.\<close>

lemma format_plain: "plain f \<Longrightarrow> format f args = Some f"
  by (induction f) (auto simp: plain_def)

lemma format_plain_append:
  "plain f \<Longrightarrow> format (f @ g) args = map_option (append f) (format g args)"
  by (induction f; cases "format g args") (auto simp: plain_def)

lemma format_step:
  "format (CHR ''%'' # cs) args =
     (case directive cs of
        None \<Rightarrow> None
      | Some (d, rest) \<Rightarrow>
          (if d = Percent then map_option (Cons CHR ''%'') (format rest args)
           else case args of
                  [] \<Rightarrow> None
                | a # as \<Rightarrow>
                    (case render d a of
                       None \<Rightarrow> None
                     | Some out \<Rightarrow> map_option (append out) (format rest as))))"
  by simp

text \<open>Nothing a directive prints ends the string early, when its string arguments do not.\<close>

definition clean_arg :: "arg \<Rightarrow> bool" where
  "clean_arg a = (case a of StrArg s \<Rightarrow> is_cstr s | _ \<Rightarrow> True)"

lemma render_cstr: "render d a = Some out \<Longrightarrow> clean_arg a \<Longrightarrow> is_cstr out"
  by (induction d a rule: render.induct) (auto simp: clean_arg_def)

lemma first_match_cstr:
  "first_match ps s = Some (d, rest) \<Longrightarrow> is_cstr s \<Longrightarrow> is_cstr rest"
  by (induction ps) (auto simp: strip_prefix_def split: option.splits if_splits)

lemma directive_cstr: "directive s = Some (d, rest) \<Longrightarrow> is_cstr s \<Longrightarrow> is_cstr rest"
  unfolding directive_def by (rule first_match_cstr)

lemma format_cstr:
  "format f args = Some out \<Longrightarrow> is_cstr f \<Longrightarrow> \<forall>a \<in> set args. clean_arg a \<Longrightarrow> is_cstr out"
proof (induction f args arbitrary: out rule: format.induct)
  case (1 args)
  then show ?case by simp
next
  case (2 c cs args)
  show ?case
  proof (cases "c = CHR ''%''")
    case False
    with 2 show ?thesis by auto
  next
    case True
    with "2.prems"(1) obtain d rest where d: "directive cs = Some (d, rest)"
      by (auto split: option.splits)
    have rest: "is_cstr rest"
      using directive_cstr [OF d] "2.prems"(2) by simp
    show ?thesis
    proof (cases "d = Percent")
      case True
      then obtain out' where "format rest args = Some out'" and "out = CHR ''%'' # out'"
        using "2.prems"(1) d \<open>c = _\<close> by auto
      then show ?thesis
        using "2.IH"(2) [OF _ d] True rest "2.prems"(3) \<open>c = _\<close> by (auto simp: nul_def)
    next
      case False
      then obtain a as o1 o2 where args: "args = a # as" and o1: "render d a = Some o1"
        and o2: "format rest as = Some o2" and out: "out = o1 @ o2"
        using "2.prems"(1) d \<open>c = _\<close> by (auto split: list.splits option.splits)
      have "is_cstr o2"
        using "2.IH"(3) [OF _ d _ False args o1 o2] rest "2.prems"(3) \<open>c = _\<close> args by auto
      moreover have "is_cstr o1" using render_cstr [OF o1] "2.prems"(3) args by simp
      ultimately show ?thesis by (simp add: out)
    qed
  qed
qed

declare format.simps(2) [simp del]

end
