(* ===== verification/World.thy ===== *)
theory World
  imports Printf
begin

text \<open>
  The data types of \<open>src/daap_log.h\<close>, the process-wide state of the library (its global
  and file-static variables, the mutexes it holds, \<open>errno\<close>) together with the history of
  the calls it made to its environment, and the primitive commands of the model.

  The environment (kernel, allocator, clock, OpenSSL) is the parameter \<open>os\<close>: for every
  external call a function from the history of events to the call's result, so that a call
  may answer differently each time. \<open>query\<close> makes such a call and records it. OpenSSL
  objects are opaque pointers; the history keeps which pointer each call was given. An
  automatic integer that the source reads before it writes it has the value \<open>os_indet\<close>
  chooses: any value at all. \<open>os_debug\<close> tells a build of the type \<open>Debug\<close>, which defines
  \<open>DEBUG\<close> for the library, from a \<open>Release\<close> build.
\<close>

section \<open>Types of the interface\<close>

text \<open>\<open>daap_log.h\<close>: the transports and the kinds of message.\<close>

datatype transport = NONE | SYSLOG | TCP

datatype msgtype = MESSAGE | HEARTBEAT | JOB_START | JOB_END

text \<open>
  A \<open>char *\<close> that owns a heap string: null, a live allocation with the string it holds, or
  a pointer whose allocation has been freed.
\<close>

datatype strptr = SNull | SPtr string | SFreed

record tag_t =
  tag_name :: strptr
  tag_val :: strptr

record metric_t =
  metric_name :: strptr
  metric_value :: strptr
  metric_id :: int
  metric_hostname :: strptr
  job_id :: strptr
  cpu_id :: int
  num_tags :: int
  tag_array :: "tag_t list"

record daap_init_t =
  appname :: strptr
  hostname :: strptr
  cluster_name :: strptr
  mpi_rank :: int
  level :: int
  agg_val :: int
  alloc_size :: int
  transport_type :: transport
  start_time :: "64 word"

definition DAAP_SUCCESS :: int where "DAAP_SUCCESS = 0"
definition DAAP_ERROR :: int where "DAAP_ERROR = -1"
definition DAAP_ERROR_OUT_OF_MEMORY :: int where "DAAP_ERROR_OUT_OF_MEMORY = 1"
definition DAAP_ERROR_IN_ERRNO :: int where "DAAP_ERROR_IN_ERRNO = 2"
definition DAAP_AGG_OFF :: int where "DAAP_AGG_OFF = 0"
definition DAAP_MAX_MSG_LEN :: nat where "DAAP_MAX_MSG_LEN = 8096"
definition EPERM :: int where "EPERM = 1"
definition EINVAL :: int where "EINVAL = 22"
definition ENAMETOOLONG :: int where "ENAMETOOLONG = 36"
definition PRINT_MAX :: nat where "PRINT_MAX = 1024"
definition LOCAL_MAXHOSTNAMELEN :: nat where "LOCAL_MAXHOSTNAMELEN = 257"

lemmas codes [c_consts] =
  DAAP_SUCCESS_def DAAP_ERROR_def DAAP_ERROR_OUT_OF_MEMORY_def DAAP_ERROR_IN_ERRNO_def
  DAAP_AGG_OFF_def DAAP_MAX_MSG_LEN_def EPERM_def EINVAL_def ENAMETOOLONG_def
  PRINT_MAX_def LOCAL_MAXHOSTNAMELEN_def

section \<open>Events\<close>

text \<open>
  The mutexes. \<open>print_mutex\<close> is a static variable of a header, so every translation unit
  has its own.
\<close>

datatype unit_name = U_log | U_init | U_tcp | U_timestr | U_parser

datatype mutex = Init_mutex | Finalize_mutex | Write_mutex | Print_mutex unit_name

text \<open>
  An order of the mutexes, in which the first one that a call takes is its smallest
  (\<open>lowest_mutex\<close> in \<open>Session\<close>).
\<close>

fun unit_rank :: "unit_name \<Rightarrow> nat" where
  "unit_rank U_log = 0" | "unit_rank U_init = 1" | "unit_rank U_tcp = 2"
| "unit_rank U_timestr = 3" | "unit_rank U_parser = 4"

fun mutex_rank :: "mutex \<Rightarrow> nat" where
  "mutex_rank Init_mutex = 0" | "mutex_rank Finalize_mutex = 1" | "mutex_rank Write_mutex = 2"
| "mutex_rank (Print_mutex u) = 3 + unit_rank u"

lemma mutex_rank_inj: "mutex_rank m = mutex_rank n \<Longrightarrow> m = n"
  by (cases m rule: mutex_rank.cases; cases n rule: mutex_rank.cases;
      auto elim!: unit_rank.elims)

instantiation mutex :: linorder
begin

definition less_eq_mutex :: "mutex \<Rightarrow> mutex \<Rightarrow> bool" where
  "less_eq_mutex m n \<longleftrightarrow> mutex_rank m \<le> mutex_rank n"

definition less_mutex :: "mutex \<Rightarrow> mutex \<Rightarrow> bool" where
  "less_mutex m n \<longleftrightarrow> mutex_rank m < mutex_rank n"

instance
  by standard (auto simp: less_eq_mutex_def less_mutex_def intro: mutex_rank_inj)

end

lemmas mutex_order = less_eq_mutex_def less_mutex_def

text \<open>
  One constructor for each kind of call to the environment, with what the call returned.
  \<open>EvFree\<close> keeps the string that is freed, \<open>EvFreeBlock\<close> is \<open>free\<close> of any other block;
  \<open>EvFopen\<close> is an \<open>fopen\<close> that succeeded, \<open>EvCompile\<close> a \<open>pcre_compile\<close> that did.
\<close>

datatype event =
    EvAlloc nat bool
  | EvFree string
  | EvFreeBlock
  | EvFopen string
  | EvCompile
  | EvTime int
  | EvGettimeofday "int \<times> int"
  | EvGethostname nat "int \<times> int \<times> string"
  | EvFopenNull bool
  | EvFclose
  | EvStdout string
  | EvErrorOutput string string
  | EvDebugOutput string string
  | EvStderr string
  | EvPerror string
  | EvOpenlog string bool int
  | EvSyslog int string
  | EvAccess string int
  | EvSocket int
  | EvConnect int int
  | EvClose int
  | EvSslLibInit
  | EvCtxNew "nat option"
  | EvClearOptions "nat option" int
  | EvCtxSetup "nat option" string string
  | EvCtxFree "nat option"
  | EvSslNew "nat option" "nat option"
  | EvSetFd "nat option" int
  | EvSslConnect "nat option" int
  | EvErrClear
  | EvSslWrite "nat option" string int
  | EvErrPrint
  | EvSslShutdown nat
  | EvSslFree nat
  | EvSslCleanup

record os =
  os_getenv :: "string \<Rightarrow> string option"
  os_alloc :: "event list \<Rightarrow> bool"
  os_time :: "event list \<Rightarrow> int"
  os_gettimeofday :: "event list \<Rightarrow> int \<times> int"
  os_gethostname :: "event list \<Rightarrow> int \<times> int \<times> string"
  os_fopen_null :: "event list \<Rightarrow> bool"
  os_access :: "string \<Rightarrow> event list \<Rightarrow> int"
  os_socket :: "event list \<Rightarrow> int"
  os_connect :: "event list \<Rightarrow> int"
  os_ctx_new :: "event list \<Rightarrow> nat option"
  os_ssl_new :: "nat option \<Rightarrow> event list \<Rightarrow> nat option"
  os_ssl_connect :: "event list \<Rightarrow> int"
  os_ssl_write :: "string \<Rightarrow> event list \<Rightarrow> int"
  os_indet :: "event list \<Rightarrow> int"
  os_debug :: bool

section \<open>The process state\<close>

record world =
  daapInit_called :: bool
  daapRank_zero :: bool
  init_data :: daap_init_t
  daap_hostname :: string
  cSSL :: "nat option"
  sockfd :: int
  sslctx :: "nat option"
  errno :: int
  held :: "mutex set"
  trace :: "event list"

text \<open>Static storage before \<open>main\<close>: zero everywhere, and \<open>sockfd = -1\<close>.\<close>

definition init_data0 :: daap_init_t where
  "init_data0 =
     \<lparr>appname = SNull, hostname = SNull, cluster_name = SNull, mpi_rank = 0, level = 0,
      agg_val = 0, alloc_size = 0, transport_type = NONE, start_time = 0\<rparr>"

definition world0 :: world where
  "world0 =
     \<lparr>daapInit_called = False, daapRank_zero = False, init_data = init_data0,
      daap_hostname = [], cSSL = None, sockfd = -1, sslctx = None, errno = 0,
      held = {}, trace = []\<rparr>"

text \<open>An environment in which everything works, for the witnesses.\<close>

definition os_good :: os where
  "os_good =
     \<lparr>os_getenv = (\<lambda>_. None), os_alloc = (\<lambda>_. True), os_time = (\<lambda>_. 1600000000),
      os_gettimeofday = (\<lambda>_. (1600000000, 0)), os_gethostname = (\<lambda>_. (0, 0, ''nid00042'')),
      os_fopen_null = (\<lambda>_. True), os_access = (\<lambda>_ _. 0), os_socket = (\<lambda>_. 3),
      os_connect = (\<lambda>_. 0), os_ctx_new = (\<lambda>_. Some 1), os_ssl_new = (\<lambda>_ h. Some (length h)),
      os_ssl_connect = (\<lambda>_. 1), os_ssl_write = (\<lambda>d _. int (length d)), os_indet = (\<lambda>_. 77),
      os_debug = False\<rparr>"

section \<open>Primitive commands\<close>

definition emit :: "event \<Rightarrow> (world, unit) cmd" where
  "emit e = update (\<lambda>w. w\<lparr>trace := trace w @ [e]\<rparr>)"

definition query :: "(event list \<Rightarrow> 'r) \<Rightarrow> ('r \<Rightarrow> event) \<Rightarrow> (world, 'r) cmd" where
  "query f ev w = (let r = f (trace w) in Ret r (w\<lparr>trace := trace w @ [ev r]\<rparr>))"

text \<open>Locking a default mutex that the thread already holds never returns.\<close>

definition lock :: "mutex \<Rightarrow> (world, unit) cmd" where
  "lock m w = (if m \<in> held w then Deadlocks else Ret () (w\<lparr>held := insert m (held w)\<rparr>))"

definition unlock :: "mutex \<Rightarrow> (world, unit) cmd" where
  "unlock m = update (\<lambda>w. w\<lparr>held := held w - {m}\<rparr>)"

text \<open>Reading the string behind a pointer, and \<open>free\<close>.\<close>

definition deref :: "strptr \<Rightarrow> (world, string) cmd" where
  "deref p =
     (case p of
        SNull \<Rightarrow> faultC NullDeref
      | SFreed \<Rightarrow> faultC UseAfterFree
      | SPtr s \<Rightarrow> ret s)"

definition free_str :: "strptr \<Rightarrow> (world, unit) cmd" where
  "free_str p =
     (case p of
        SNull \<Rightarrow> ret ()
      | SFreed \<Rightarrow> faultC DoubleFree
      | SPtr s \<Rightarrow> emit (EvFree s))"

text \<open>\<open>malloc\<close>, \<open>calloc\<close>, \<open>realloc\<close> and \<open>strdup\<close> of \<open>n\<close> bytes: whether the call succeeded.\<close>

definition alloc :: "os \<Rightarrow> nat \<Rightarrow> (world, bool) cmd" where
  "alloc os n = query (os_alloc os) (EvAlloc n)"

definition set_errno :: "int \<Rightarrow> (world, unit) cmd" where
  "set_errno e = update (\<lambda>w. w\<lparr>errno := e\<rparr>)"

definition set_init_data :: "(daap_init_t \<Rightarrow> daap_init_t) \<Rightarrow> (world, unit) cmd" where
  "set_init_data f = update (\<lambda>w. w\<lparr>init_data := f (init_data w)\<rparr>)"

text \<open>\<open>free\<close> of a block that is no string: \<open>present\<close> says whether the pointer is not null.\<close>

definition free_block :: "bool \<Rightarrow> (world, unit) cmd" where
  "free_block present = (if present then emit EvFreeBlock else ret ())"

lemma world_prim_run [simp]:
  "emit e w = Ret () (w\<lparr>trace := trace w @ [e]\<rparr>)"
  "query f ev w = Ret (f (trace w)) (w\<lparr>trace := trace w @ [ev (f (trace w))]\<rparr>)"
  "alloc os n w =
     Ret (os_alloc os (trace w)) (w\<lparr>trace := trace w @ [EvAlloc n (os_alloc os (trace w))]\<rparr>)"
  "unlock m w = Ret () (w\<lparr>held := held w - {m}\<rparr>)"
  "set_errno i w = Ret () (w\<lparr>errno := i\<rparr>)"
  "set_init_data g w = Ret () (w\<lparr>init_data := g (init_data w)\<rparr>)"
  by (simp_all add: emit_def query_def alloc_def unlock_def set_errno_def set_init_data_def Let_def)

lemma lock_run [simp]:
  "m \<notin> held w \<Longrightarrow> lock m w = Ret () (w\<lparr>held := insert m (held w)\<rparr>)"
  "m \<in> held w \<Longrightarrow> lock m w = Deadlocks"
  by (simp_all add: lock_def)

lemma deref_run [simp]:
  "deref (SPtr s) = ret s"
  "deref SNull = faultC NullDeref"
  "deref SFreed = faultC UseAfterFree"
  by (simp_all add: deref_def)

lemma free_str_run [simp]:
  "free_str (SPtr s) = emit (EvFree s)"
  "free_str SNull = ret ()"
  "free_str SFreed = faultC DoubleFree"
  by (simp_all add: free_str_def)

lemma world_prim_wp [wp_eqs]:
  "wp (emit e) Q w = Q () (w\<lparr>trace := trace w @ [e]\<rparr>)"
  "wp (query f ev) R w = R (f (trace w)) (w\<lparr>trace := trace w @ [ev (f (trace w))]\<rparr>)"
  "wp (lock m) Q w = (m \<notin> held w \<and> Q () (w\<lparr>held := insert m (held w)\<rparr>))"
  "wp (unlock m) Q w = Q () (w\<lparr>held := held w - {m}\<rparr>)"
  "wp (set_errno n) Q w = Q () (w\<lparr>errno := n\<rparr>)"
  "wp (set_init_data g) Q w = Q () (w\<lparr>init_data := g (init_data w)\<rparr>)"
  by (simp_all add: wp_def lock_def split: outcome.split)

lemma world_prim_wlp [wp_eqs]:
  "wlp (emit e) Q w = Q () (w\<lparr>trace := trace w @ [e]\<rparr>)"
  "wlp (query f ev) R w = R (f (trace w)) (w\<lparr>trace := trace w @ [ev (f (trace w))]\<rparr>)"
  "wlp (lock m) Q w = (m \<notin> held w \<longrightarrow> Q () (w\<lparr>held := insert m (held w)\<rparr>))"
  "wlp (unlock m) Q w = Q () (w\<lparr>held := held w - {m}\<rparr>)"
  "wlp (set_errno n) Q w = Q () (w\<lparr>errno := n\<rparr>)"
  "wlp (set_init_data g) Q w = Q () (w\<lparr>init_data := g (init_data w)\<rparr>)"
  by (simp_all add: wlp_def lock_def split: outcome.split)

lemma world_prim_wlx:
  "wlx (emit e) Q E w = Q () (w\<lparr>trace := trace w @ [e]\<rparr>)"
  "wlx (query f ev) R E w = R (f (trace w)) (w\<lparr>trace := trace w @ [ev (f (trace w))]\<rparr>)"
  "wlx (lock m) Q E w = (m \<notin> held w \<longrightarrow> Q () (w\<lparr>held := insert m (held w)\<rparr>))"
  "wlx (unlock m) Q E w = Q () (w\<lparr>held := held w - {m}\<rparr>)"
  by (simp_all add: wlx_def lock_def split: outcome.split)

lemma alloc_wp:
  "wp (alloc os n) P w =
     P (os_alloc os (trace w)) (w\<lparr>trace := trace w @ [EvAlloc n (os_alloc os (trace w))]\<rparr>)"
  "wlp (alloc os n) P w =
     P (os_alloc os (trace w)) (w\<lparr>trace := trace w @ [EvAlloc n (os_alloc os (trace w))]\<rparr>)"
  by (simp_all add: wp_def wlp_def)

section \<open>Frames of the primitives\<close>

lemma frame_trace [frame]:
  assumes "\<And>w t. f (w\<lparr>trace := t\<rparr>) = f w"
  shows "preserves f (emit e)" "preserves f (query q ev)" "preserves f (alloc os n)"
  by (rule preservesI; auto simp: assms)+

lemma frame_held [frame]:
  assumes "\<And>w h. f (w\<lparr>held := h\<rparr>) = f w"
  shows "preserves f (lock m)" "preserves f (unlock m)"
  by (rule preservesI; auto simp: assms lock_def split: if_splits)+

lemma frame_errno [frame]:
  "(\<And>w h. f (w\<lparr>errno := h\<rparr>) = f w) \<Longrightarrow> preserves f (set_errno e)"
  by (rule preservesI) auto

lemma frame_init_data [frame]:
  "(\<And>w h. f (w\<lparr>init_data := h\<rparr>) = f w) \<Longrightarrow> preserves f (set_init_data g)"
  by (rule preservesI) auto

lemma frame_deref [frame]: "preserves f (deref p)"
  by (cases p) (auto intro: frame)

lemma frame_free [frame]:
  "(\<And>w t. f (w\<lparr>trace := t\<rparr>) = f w) \<Longrightarrow> preserves f (free_str p)"
  by (cases p) (auto intro: frame)

text \<open>
  A function of the history that does not see an event is kept by the call that records it.
\<close>

lemma quiet_events:
  "(\<And>h. g (h @ [e]) = g h) \<Longrightarrow> preserves (\<lambda>w. g (trace w)) (emit e)"
  "(\<And>h r. g (h @ [ev r]) = g h) \<Longrightarrow> preserves (\<lambda>w. g (trace w)) (query q ev)"
  "(\<And>h r. g (h @ [EvAlloc n r]) = g h) \<Longrightarrow> preserves (\<lambda>w. g (trace w)) (alloc os n)"
  by (rule preservesI; auto)+

lemma quiet_state:
  "preserves (\<lambda>w. g (trace w)) (lock m)" "preserves (\<lambda>w. g (trace w)) (unlock m)"
  "preserves (\<lambda>w. g (trace w)) (set_errno i)" "preserves (\<lambda>w. g (trace w)) (set_init_data u)"
  "preserves (\<lambda>w. g (trace w)) (deref p)"
  by (rule preservesI; auto simp: lock_def deref_def split: if_splits strptr.splits)+

lemmas quiet = same.rules quiet_events quiet_state

section \<open>The history only grows\<close>

definition grows :: "world \<Rightarrow> world \<Rightarrow> bool" where
  "grows w w' \<longleftrightarrow> prefix (trace w) (trace w')"

interpretation hist: step_order grows
  by unfold_locales (auto simp: grows_def)

lemma grows_prims:
  "keeps grows (emit e)" "keeps grows (query q ev)" "keeps grows (alloc os n)"
  "keeps grows (lock m)" "keeps grows (unlock m)" "keeps grows (set_errno i)"
  "keeps grows (set_init_data g)" "keeps grows (deref p)" "keeps grows (free_str p)"
  by (auto simp: keeps_def grows_def lock_def deref_def free_str_def
      split: if_splits strptr.splits)

lemmas grows_rules = hist.rules grows_prims

section \<open>Diagnostics\<close>

text \<open>
  \<open>deformat\<close> of \<open>daap_log_internal.h\<close>, and the output macros: one line on a stream under the
  translation unit's \<open>print_mutex\<close>, on the standard error stream by \<open>ERROR_OUTPUT\<close> and, in a debug
  build, on the standard output by \<open>DEBUG_OUTPUT\<close>. The event keeps the host name and the
  message of the line; \<open>file\<close> is the event of the stream.
\<close>

definition deformat :: "string \<Rightarrow> arg list \<Rightarrow> string option" where
  "deformat format_str args = map_option (snprintf_str (PRINT_MAX - 1)) (format format_str args)"

definition PRINT_OUTPUT ::
  "os \<Rightarrow> (string \<Rightarrow> string \<Rightarrow> event) \<Rightarrow> string \<Rightarrow> arg list \<Rightarrow> (world, unit) cmd" where
  "PRINT_OUTPUT os file format_str args =
     seqC (query (os_gettimeofday os) EvGettimeofday)
    (bindC (asks daap_hostname) (\<lambda>host.
     case deformat format_str args of
       None \<Rightarrow> faultC BadFormat
     | Some msg \<Rightarrow> emit (file host msg)))"

definition ERROR_OUTPUT :: "os \<Rightarrow> unit_name \<Rightarrow> string \<Rightarrow> arg list \<Rightarrow> (world, unit) cmd" where
  "ERROR_OUTPUT os u format_str args =
     seqC (lock (Print_mutex u))
    (seqC (PRINT_OUTPUT os EvErrorOutput format_str args)
    (unlock (Print_mutex u)))"

definition DEBUG_OUTPUT :: "os \<Rightarrow> unit_name \<Rightarrow> string \<Rightarrow> arg list \<Rightarrow> (world, unit) cmd" where
  "DEBUG_OUTPUT os u format_str args =
     (if os_debug os then
        seqC (lock (Print_mutex u))
       (seqC (PRINT_OUTPUT os EvDebugOutput format_str args)
       (unlock (Print_mutex u)))
      else ret ())"

lemmas output_defs = ERROR_OUTPUT_def DEBUG_OUTPUT_def PRINT_OUTPUT_def

lemma release_output [simp]: "\<not> os_debug os \<Longrightarrow> DEBUG_OUTPUT os u s as = ret ()"
  by (simp add: DEBUG_OUTPUT_def)

text \<open>What a diagnostic of a debug build adds to the history, when it is well formed.\<close>

definition debug_events :: "os \<Rightarrow> world \<Rightarrow> string \<Rightarrow> event list" where
  "debug_events os w out =
     (if os_debug os then
        [EvGettimeofday (os_gettimeofday os (trace w)),
         EvDebugOutput (daap_hostname w) (snprintf_str (PRINT_MAX - 1) out)]
      else [])"

lemma DEBUG_OUTPUT_run:
  assumes "format f as = Some out" and "os_debug os \<Longrightarrow> Print_mutex u \<notin> held w"
  shows "DEBUG_OUTPUT os u f as w = Ret () (w\<lparr>trace := trace w @ debug_events os w out\<rparr>)"
  using assms by (simp add: output_defs deformat_def debug_events_def)

lemma output_frame [frame]:
  assumes "\<And>w t. f (w\<lparr>trace := t\<rparr>) = f w" and "\<And>w h. f (w\<lparr>held := h\<rparr>) = f w"
  shows "preserves f (ERROR_OUTPUT os u s as)" "preserves f (DEBUG_OUTPUT os u s as)"
  unfolding output_defs by (intro frame assms)+

lemma output_held:
  "preserves held (ERROR_OUTPUT os u s as)" "preserves held (DEBUG_OUTPUT os u s as)"
  unfolding output_defs
  by (rule preservesI; auto simp: bindC_def seqC_def lock_def split: if_splits option.splits)+

lemma output_grows:
  "keeps grows (ERROR_OUTPUT os u s as)" "keeps grows (DEBUG_OUTPUT os u s as)"
  unfolding output_defs by (intro grows_rules)+

lemma deformat_length: "deformat f as = Some msg \<Longrightarrow> length msg < PRINT_MAX"
  by (auto simp: deformat_def PRINT_MAX_def snprintf_str_def)

end
