(* ===== verification/TimeStr.thy ===== *)
theory TimeStr
  imports World
begin

text \<open>
  \<open>src/daap_timestr.c\<close>: the millisecond clock, as an \<open>unsigned long\<close> (a 64-bit word) and
  as an allocated decimal string. The lemmas give the value in terms of the clock's
  seconds and microseconds, and show that the string variant never trips its assertions.
\<close>

definition millisec :: "int \<times> int \<Rightarrow> 64 word" where
  "millisec tv = word_of_int (fst tv) * 1000 + word_of_int (snd tv) div 1000"

definition getmillisectime :: "os \<Rightarrow> (world, 64 word) cmd" where
  "getmillisectime os =
     bindC (query (os_gettimeofday os) EvGettimeofday) (\<lambda>timestruct.
     ret (millisec timestruct))"

text \<open>A failed assertion aborts the process.\<close>

definition assertC :: "bool \<Rightarrow> (world, unit) cmd" where
  "assertC b = (if b then ret () else exitC 134)"

text \<open>The result is the return value and the pointer stored in \<open>time_str[0]\<close>.\<close>

definition getmillisectime_as_str :: "os \<Rightarrow> (world, int \<times> strptr) cmd" where
  "getmillisectime_as_str os =
     bindC (query (os_gettimeofday os) EvGettimeofday) (\<lambda>timestruct.
     let timestamp_millisec = millisec timestruct in
     case format ''%lu'' [IntArg timestamp_millisec] of
       None \<Rightarrow> faultC BadFormat
     | Some out \<Rightarrow>
         let len = length out in
         seqC (assertC (len > 0))
        (bindC (alloc os (len + 1)) (\<lambda>ok.
         if \<not> ok then faultC NullDeref
         else
           let buf = snprintf_str (len + 1) out in
           seqC (assertC (length buf = len))
          (seqC (assertC (length out = len))
          (seqC (DEBUG_OUTPUT os U_timestr (''time_str = %s'' @ [newline]) [StrArg buf])
          (ret (int len, SPtr buf)))))))"

section \<open>Properties\<close>

lemma getmillisectime_run:
  "getmillisectime os w =
     Ret (millisec (os_gettimeofday os (trace w)))
       (w\<lparr>trace := trace w @ [EvGettimeofday (os_gettimeofday os (trace w))]\<rparr>)"
  by (simp add: getmillisectime_def)

lemma getmillisectime_frame [frame]:
  "(\<And>w t. f (w\<lparr>trace := t\<rparr>) = f w) \<Longrightarrow> preserves f (getmillisectime os)"
  unfolding getmillisectime_def by (intro frame)

lemma getmillisectime_grows: "keeps grows (getmillisectime os)"
  unfolding getmillisectime_def by (intro grows_rules)

lemma uint_word_of_int_small: "0 \<le> x \<Longrightarrow> x < 2 ^ 64 \<Longrightarrow> uint (word_of_int x :: 64 word) = x"
  by (simp add: uint_word_of_int)

lemma millisec_value:
  assumes "0 \<le> s" and "s < 2 ^ 53" and "0 \<le> u" and "u < 1000000"
  shows "uint (millisec (s, u)) = s * 1000 + u div 1000"
proof -
  have s: "uint (word_of_int s * 1000 :: 64 word) = s * 1000"
    using assms by (simp add: uint_word_ariths uint_word_of_int_small)
  have u: "uint (word_of_int u div 1000 :: 64 word) = u div 1000"
    using assms by (simp add: uint_div_distrib uint_word_of_int_small)
  have "s * 1000 + u div 1000 < 2 ^ 64" using assms by (simp; linarith)
  with s u assms show ?thesis
    by (simp add: millisec_def uint_word_ariths)
qed

lemma millisec_signed:
  assumes "0 \<le> s" and "s < 2 ^ 53" and "0 \<le> u" and "u < 1000000"
  shows "sint (millisec (s, u)) = s * 1000 + u div 1000"
proof -
  have v: "uint (millisec (s, u)) = s * 1000 + u div 1000"
    using assms by (rule millisec_value)
  moreover have "0 \<le> s * 1000 + u div 1000" using assms by simp
  moreover have "s * 1000 + u div 1000 < 2 ^ 63" using assms by (simp; linarith)
  ultimately show ?thesis
    by (simp add: sint_uint signed_take_bit_int_eq_self_iff)
qed

lemma format_lu: "format ''%lu'' [IntArg n] = Some (dec (unat n))"
  by (simp add: format.simps directive_def strip_prefix_def)

lemma getmillisectime_as_str_run:
  assumes "os_alloc os (trace w @ [EvGettimeofday tv])" and "tv = os_gettimeofday os (trace w)"
    and "os_debug os \<Longrightarrow> Print_mutex U_timestr \<notin> held w"
  shows "wp (getmillisectime_as_str os)
           (\<lambda>(len, p) w'. p = SPtr (dec (unat (millisec tv))) \<and>
              len = int (length (dec (unat (millisec tv))))) w"
proof -
  have "format (''time_str = %s'' @ [newline]) [StrArg s] = Some (''time_str = '' @ s @ [newline])" for s
    by (simp add: format.simps directive_def strip_prefix_def newline_def)
  note debug = DEBUG_OUTPUT_run [OF this, of os U_timestr, simplified]
  show ?thesis
    using assms dec_nonempty
    by (simp add: getmillisectime_as_str_def format_lu assertC_def Let_def
        snprintf_str_def debug wp_def bindC_def seqC_def)
qed

text \<open>
  The clock of the library increases when time does, as long as the seconds fit: the
  property that makes the timestamps of two messages comparable.
\<close>
lemma millisec_mono:
  assumes "0 \<le> s" and "s < 2 ^ 53" and "0 \<le> u" and "u < 1000000"
    and "s' < 2 ^ 53" and "0 \<le> u'" and "u' < 1000000"
    and "s < s' \<or> s = s' \<and> u \<le> u'"
  shows "millisec (s, u) \<le> millisec (s', u')"
proof -
  have "s * 1000 + u div 1000 \<le> s' * 1000 + u' div 1000"
    using assms by (auto intro: zdiv_mono1; linarith)
  moreover have "0 \<le> s'" using assms by linarith
  ultimately show ?thesis using assms
    by (simp add: word_le_def millisec_value)
qed

lemma millisec_mono_witness: "millisec (1600000000, 999999) \<le> millisec (1600000001, 0)"
  by (rule millisec_mono) simp_all

lemma unat_digits: "length (dec (unat (x :: 64 word))) \<le> 20"
proof -
  have "unat x < 2 ^ 64" using unsigned_less [of x] by simp
  then have "unat x < 10 ^ Suc 19" by simp
  then have "length (dec (unat x)) \<le> Suc 19" by (rule length_dec_bound)
  then show ?thesis by simp
qed

text \<open>
  \<open>getmillisectime_as_str\<close> stores a string of at most 20 digits and returns its length;
  reading the digits back gives the time in milliseconds, and no assertion fails.
\<close>
lemma millisec_str_roundtrip:
  assumes "\<And>h. os_alloc os h" and "os_debug os \<Longrightarrow> Print_mutex U_timestr \<notin> held w"
  shows "wp (getmillisectime_as_str os)
           (\<lambda>(len, p) w'. \<exists>s. p = SPtr s \<and> len = int (length s) \<and> 0 < len \<and> len \<le> 20 \<and>
              (\<forall>c \<in> set s. is_digit c) \<and>
              digits_val s = unat (millisec (os_gettimeofday os (trace w)))) w"
  using getmillisectime_as_str_run [OF assms(1) refl assms(2)] dec_digits dec_nonempty digits_val_dec
    unat_digits [of "millisec (os_gettimeofday os (trace w))"]
  by (auto elim!: wp_mono)

lemma millisec_str_roundtrip_witness:
  "wp (getmillisectime_as_str os_good)
     (\<lambda>(len, p) w'. \<exists>s. p = SPtr s \<and> len = int (length s) \<and> 0 < len \<and> len \<le> 20 \<and>
        (\<forall>c \<in> set s. is_digit c) \<and> digits_val s = unat (millisec (1600000000, 0))) world0"
  using millisec_str_roundtrip [of os_good world0] by (simp add: os_good_def)

end
