(* ===== verification/Influx.thy ===== *)
theory Influx
  imports TimeStr
begin

text \<open>
  \<open>daapBuildInflux\<close> and \<open>daapBuildRawInflux\<close> of \<open>src/daap_log.c\<close>: the line that goes out on
  the wire. The specification side is \<open>influx_line\<close> (the line as a concatenation of its
  fields) and \<open>parse_influx\<close>, a reader for the escape-free fragment of the line protocol
  that the collector on the node speaks. The lemmas show that the builder produces the
  first 2047 bytes of \<open>influx_line\<close>, that a line that fits is read back to exactly the
  fields it was built from, and that a line that does not fit has lost its closing quote
  or its timestamp. The reader takes what it is given as one line: unlike the protocol it does not
  end a point at a line break, and a line break in a name or a message is not excluded.
\<close>

definition APP_KEY :: string where "APP_KEY = ''appname''"
definition HOST_KEY :: string where "HOST_KEY = ''hostname''"
definition CLUSTER_NAME_KEY :: string where "CLUSTER_NAME_KEY = ''cluster''"
definition MPI_RANK_KEY :: string where "MPI_RANK_KEY = ''mpirank''"
definition MSG_KEY :: string where "MSG_KEY = ''message''"

lemmas influx_keys =
  APP_KEY_def HOST_KEY_def CLUSTER_NAME_KEY_def MPI_RANK_KEY_def MSG_KEY_def

definition dquote :: char where
  "dquote = CHR 0x22"

definition influx_format :: string where
  "influx_format =
     ''daap,%s=%s,%s=%s,%s=%s,%s=%ld %s='' @ [dquote] @ ''%s'' @ [dquote] @ '' %lld''"

definition max_size :: nat where
  "max_size = 2048"

definition daapBuildInflux :: "os \<Rightarrow> int \<Rightarrow> string \<Rightarrow> (world, strptr) cmd" where
  "daapBuildInflux os timestamp message =
     bindC (alloc os max_size) (\<lambda>ok.
     let tstamp = timestamp * 1000000 in
     if \<not> (LONG_MIN \<le> tstamp \<and> tstamp \<le> LONG_MAX) then faultC IntOverflow
     else if \<not> ok then faultC NullDeref
     else
       bindC (asks init_data) (\<lambda>d.
       bindC (deref (appname d)) (\<lambda>app.
       bindC (deref (hostname d)) (\<lambda>host.
       bindC (deref (cluster_name d)) (\<lambda>cluster.
       case format influx_format
              [StrArg APP_KEY, StrArg app,
               StrArg HOST_KEY, StrArg host,
               StrArg CLUSTER_NAME_KEY, StrArg cluster,
               StrArg MPI_RANK_KEY, IntArg (word_of_int (mpi_rank d)),
               StrArg MSG_KEY, StrArg message,
               IntArg (word_of_int tstamp)] of
         None \<Rightarrow> faultC BadFormat
       | Some s \<Rightarrow> ret (SPtr (snprintf_str max_size s)))))))"

definition daapBuildRawInflux :: "os \<Rightarrow> string \<Rightarrow> (world, strptr) cmd" where
  "daapBuildRawInflux os message =
     bindC (alloc os max_size) (\<lambda>ok.
     if \<not> ok then faultC NullDeref
     else
       case format ''daap,%s'' [StrArg message] of
         None \<Rightarrow> faultC BadFormat
       | Some s \<Rightarrow> ret (SPtr (snprintf_str max_size s)))"

section \<open>The line as a concatenation\<close>

definition influx_head :: "string \<Rightarrow> string \<Rightarrow> string \<Rightarrow> int \<Rightarrow> string" where
  "influx_head app host cluster rank =
     ''daap,appname='' @ app @ '',hostname='' @ host @ '',cluster='' @ cluster
       @ '',mpirank='' @ dec_int rank"

definition influx_line :: "string \<Rightarrow> string \<Rightarrow> string \<Rightarrow> int \<Rightarrow> string \<Rightarrow> int \<Rightarrow> string" where
  "influx_line app host cluster rank message tstamp =
     influx_head app host cluster rank @ '' message='' @ dquote # message
       @ dquote # '' '' @ dec_int tstamp"

lemma sint_word_of_int_64:
  "LONG_MIN \<le> i \<Longrightarrow> i \<le> LONG_MAX \<Longrightarrow> sint (word_of_int i :: 64 word) = i"
  by (simp add: sint_sbintrunc' signed_take_bit_int_eq_self_iff c_consts)

lemma format_influx:
  assumes "LONG_MIN \<le> rank" "rank \<le> LONG_MAX" "LONG_MIN \<le> tstamp" "tstamp \<le> LONG_MAX"
  shows "format influx_format
           [StrArg APP_KEY, StrArg app, StrArg HOST_KEY, StrArg host,
            StrArg CLUSTER_NAME_KEY, StrArg cluster,
            StrArg MPI_RANK_KEY, IntArg (word_of_int rank),
            StrArg MSG_KEY, StrArg message, IntArg (word_of_int tstamp)]
         = Some (influx_line app host cluster rank message tstamp)"
  using assms
  by (simp add: influx_format_def format.simps directive_def strip_prefix_def influx_keys
      influx_line_def influx_head_def sint_word_of_int_64 dquote_def)

lemma format_raw: "format ''daap,%s'' [StrArg m] = Some (''daap,'' @ m)"
  by (simp add: format.simps directive_def strip_prefix_def)

lemma daapBuildInflux_run:
  assumes "os_alloc os (trace w)"
    and "appname (init_data w) = SPtr app" and "hostname (init_data w) = SPtr host"
    and "cluster_name (init_data w) = SPtr cluster"
    and "LONG_MIN \<le> mpi_rank (init_data w)" "mpi_rank (init_data w) \<le> LONG_MAX"
    and "LONG_MIN \<le> ts * 1000000" "ts * 1000000 \<le> LONG_MAX"
  shows "daapBuildInflux os ts message w =
           Ret (SPtr (snprintf_str max_size
                  (influx_line app host cluster (mpi_rank (init_data w)) message (ts * 1000000))))
             (w\<lparr>trace := trace w @ [EvAlloc max_size True]\<rparr>)"
  using assms by (simp add: daapBuildInflux_def format_influx Let_def del: of_int_mult)

lemma daapBuildRawInflux_run:
  assumes "os_alloc os (trace w)"
  shows "daapBuildRawInflux os message w =
           Ret (SPtr (snprintf_str max_size (''daap,'' @ message)))
             (w\<lparr>trace := trace w @ [EvAlloc max_size True]\<rparr>)"
  using assms by (simp add: daapBuildRawInflux_def format_raw)

lemma daapBuildInflux_frame [frame]:
  "(\<And>w t. f (w\<lparr>trace := t\<rparr>) = f w) \<Longrightarrow> preserves f (daapBuildInflux os ts m)"
  unfolding daapBuildInflux_def by (intro frame)

lemma daapBuildRawInflux_frame [frame]:
  "(\<And>w t. f (w\<lparr>trace := t\<rparr>) = f w) \<Longrightarrow> preserves f (daapBuildRawInflux os m)"
  unfolding daapBuildRawInflux_def by (intro frame)

lemma daapBuildInflux_grows: "keeps grows (daapBuildInflux os ts m)"
  unfolding daapBuildInflux_def by (intro grows_rules)

lemma daapBuildRawInflux_grows: "keeps grows (daapBuildRawInflux os m)"
  unfolding daapBuildRawInflux_def by (intro grows_rules)

text \<open>
  Neither builder can hand back a null pointer: a failed allocation has already been
  written through. The callers' null checks guard nothing.
\<close>

lemma daapBuildInflux_nonnull:
  "wlp (daapBuildInflux os ts m) (\<lambda>p _. \<exists>s. p = SPtr s \<and> length s < max_size) w"
  by (auto simp: daapBuildInflux_def wp_eqs alloc_def deref_def Let_def wlp_def bindC_def
      snprintf_str_def max_size_def split: strptr.split option.split)

lemma daapBuildRawInflux_nonnull:
  "wlp (daapBuildRawInflux os m) (\<lambda>p _. \<exists>s. p = SPtr s \<and> length s < max_size) w"
  by (auto simp: daapBuildRawInflux_def wp_eqs alloc_def wlp_def bindC_def
      snprintf_str_def max_size_def split: option.split)


section \<open>A reader for the line\<close>

text \<open>The text before and after the first occurrence of a separator.\<close>

definition split_char :: "char \<Rightarrow> string \<Rightarrow> (string \<times> string) option" where
  "split_char c s =
     (if c \<in> set s
      then Some (takeWhile (\<lambda>x. x \<noteq> c) s, tl (dropWhile (\<lambda>x. x \<noteq> c) s))
      else None)"

fun pieces :: "char \<Rightarrow> string \<Rightarrow> string list" where
  "pieces c [] = [[]]"
| "pieces c (x # xs) =
     (if x = c then [] # pieces c xs
      else case pieces c xs of
             [] \<Rightarrow> [[x]]
           | p # ps \<Rightarrow> (x # p) # ps)"

definition parse_dec :: "string \<Rightarrow> int option" where
  "parse_dec s =
     (let neg = (s \<noteq> [] \<and> hd s = CHR ''-'');
          ds = (if neg then tl s else s)
      in if ds = [] \<or> \<not> list_all is_digit ds then None
         else Some (if neg then - int (digits_val ds) else int (digits_val ds)))"

definition parse_tag :: "string \<Rightarrow> (string \<times> string) option" where
  "parse_tag t =
     (case split_char CHR ''='' t of
        None \<Rightarrow> None
      | Some (k, v) \<Rightarrow> if k = [] \<or> v = [] then None else Some (k, v))"

record influx_point =
  measurement :: string
  tags :: "(string \<times> string) list"
  field_key :: string
  field_text :: string
  time_ns :: int

text \<open>The field set: one key, a quoted text, a space and the timestamp.\<close>

definition parse_field :: "string \<Rightarrow> (string \<times> string \<times> int) option" where
  "parse_field s =
     (case split_char CHR ''='' s of
        None \<Rightarrow> None
      | Some (k, v) \<Rightarrow>
          if v = [] \<or> hd v \<noteq> dquote then None
          else case split_char dquote (tl v) of
                 None \<Rightarrow> None
               | Some (text, after) \<Rightarrow>
                   if after = [] \<or> hd after \<noteq> CHR '' '' then None
                   else map_option (\<lambda>t. (k, text, t)) (parse_dec (tl after)))"

definition parse_influx :: "string \<Rightarrow> influx_point option" where
  "parse_influx s =
     (case split_char CHR '' '' s of
        None \<Rightarrow> None
      | Some (keys, rest) \<Rightarrow>
          (case pieces CHR '','' keys of
             [] \<Rightarrow> None
           | m # ts \<Rightarrow>
               (case those (map parse_tag ts) of
                  None \<Rightarrow> None
                | Some tagset \<Rightarrow>
                    map_option
                      (\<lambda>(k, text, t). \<lparr>measurement = m, tags = tagset, field_key = k,
                                       field_text = text, time_ns = t\<rparr>)
                      (parse_field rest))))"

text \<open>Texts that need no escape in a tag and in a quoted field.\<close>

definition tag_safe :: "string \<Rightarrow> bool" where
  "tag_safe s = (s \<noteq> [] \<and> set s \<inter> {CHR '','', CHR ''='', CHR '' '', CHR 0x5C} = {})"

definition field_safe :: "string \<Rightarrow> bool" where
  "field_safe s = (set s \<inter> {dquote, CHR 0x5C} = {})"

lemma split_char_append: "c \<notin> set a \<Longrightarrow> split_char c (a @ c # b) = Some (a, b)"
proof -
  assume "c \<notin> set a"
  then have "takeWhile (\<lambda>x. x \<noteq> c) (a @ c # b) = a"
    and "dropWhile (\<lambda>x. x \<noteq> c) (a @ c # b) = c # b"
    by (induction a) auto
  then show ?thesis by (simp add: split_char_def)
qed

lemma pieces_append: "c \<notin> set a \<Longrightarrow> pieces c (a @ c # b) = a # pieces c b"
  by (induction a) auto

lemma pieces_single: "c \<notin> set a \<Longrightarrow> pieces c a = [a]"
  by (induction a) auto

lemma parse_tag_append:
  "CHR ''='' \<notin> set k \<Longrightarrow> k \<noteq> [] \<Longrightarrow> v \<noteq> [] \<Longrightarrow> parse_tag (k @ CHR ''='' # v) = Some (k, v)"
  by (simp add: parse_tag_def split_char_append)

lemma parse_dec_dec_int: "parse_dec (dec_int i) = Some i"
proof (cases "i < 0")
  case True
  then show ?thesis
    using dec_digits by (simp add: parse_dec_def dec_int_def dec_nonempty digits_val_dec list_all_iff)
next
  case False
  obtain c s where cs: "dec (nat i) = c # s" "is_digit c" using dec_Cons by blast
  then show ?thesis
    using dec_digits [of "nat i"] digits_val_dec [of "nat i"] False is_digit_not_special(2)
    by (auto simp: parse_dec_def dec_int_def list_all_iff)
qed

lemma dec_int_chars: "c \<in> set (dec_int i) \<Longrightarrow> is_digit c \<or> c = CHR ''-''"
  using dec_digits by (auto simp: dec_int_def split: if_splits)

lemma dec_int_nonempty: "dec_int i \<noteq> []"
  by (simp add: dec_int_def dec_nonempty)

lemma dec_int_clean:
  "CHR '','' \<notin> set (dec_int i)" "CHR ''='' \<notin> set (dec_int i)" "CHR '' '' \<notin> set (dec_int i)"
  "dquote \<notin> set (dec_int i)"
  by (auto dest!: dec_int_chars simp: is_digit_def dquote_def)

section \<open>Reading back what was built\<close>

lemma influx_head_split:
  "influx_head app host cluster rank =
     ''daap'' @ CHR '','' # (''appname'' @ CHR ''='' # app) @ CHR '','' #
       (''hostname'' @ CHR ''='' # host) @ CHR '','' # (''cluster'' @ CHR ''='' # cluster)
       @ CHR '','' # (''mpirank'' @ CHR ''='' # dec_int rank)"
  by (simp add: influx_head_def)

lemma influx_head_tags:
  assumes "tag_safe app" "tag_safe host" "tag_safe cluster"
  shows "CHR '' '' \<notin> set (influx_head app host cluster rank)"
    and "pieces CHR '','' (influx_head app host cluster rank) =
           [''daap'', ''appname'' @ CHR ''='' # app, ''hostname'' @ CHR ''='' # host,
            ''cluster'' @ CHR ''='' # cluster, ''mpirank'' @ CHR ''='' # dec_int rank]"
proof -
  show "CHR '' '' \<notin> set (influx_head app host cluster rank)"
    using assms dec_int_clean by (auto simp: influx_head_split tag_safe_def)
  have tags: "CHR '','' \<notin> set (''appname'' @ CHR ''='' # app)"
    "CHR '','' \<notin> set (''hostname'' @ CHR ''='' # host)"
    "CHR '','' \<notin> set (''cluster'' @ CHR ''='' # cluster)"
    "CHR '','' \<notin> set (''mpirank'' @ CHR ''='' # dec_int rank)"
    using assms dec_int_clean by (auto simp: tag_safe_def)
  have daap: "CHR '','' \<notin> set ''daap''" by simp
  show "pieces CHR '','' (influx_head app host cluster rank) =
           [''daap'', ''appname'' @ CHR ''='' # app, ''hostname'' @ CHR ''='' # host,
            ''cluster'' @ CHR ''='' # cluster, ''mpirank'' @ CHR ''='' # dec_int rank]"
    unfolding influx_head_split
    by (simp only: pieces_append [OF daap] pieces_append [OF tags(1)]
        pieces_append [OF tags(2)] pieces_append [OF tags(3)] pieces_single [OF tags(4)])
qed

lemma parse_field_message:
  assumes "field_safe m"
  shows "parse_field (''message'' @ CHR ''='' # dquote # m @ dquote # CHR '' '' # dec_int ts) =
           Some (''message'', m, ts)"
proof -
  have key: "CHR ''='' \<notin> set ''message''" by simp
  have msg: "dquote \<notin> set m" using assms by (simp add: field_safe_def)
  show ?thesis
    unfolding parse_field_def split_char_append [OF key]
    by (simp add: split_char_append [OF msg] parse_dec_dec_int)
qed

lemma parse_head:
  assumes "tag_safe app" "tag_safe host" "tag_safe cluster"
  shows "parse_influx (influx_head app host cluster rank @ CHR '' '' # rest) =
           map_option
             (\<lambda>(k, text, t). \<lparr>measurement = ''daap'',
                tags = [(''appname'', app), (''hostname'', host), (''cluster'', cluster),
                        (''mpirank'', dec_int rank)],
                field_key = k, field_text = text, time_ns = t\<rparr>)
             (parse_field rest)"
proof -
  have tags: "map parse_tag
      [''appname'' @ CHR ''='' # app, ''hostname'' @ CHR ''='' # host,
       ''cluster'' @ CHR ''='' # cluster, ''mpirank'' @ CHR ''='' # dec_int rank] =
      [Some (''appname'', app), Some (''hostname'', host), Some (''cluster'', cluster),
       Some (''mpirank'', dec_int rank)]"
    using assms parse_tag_append [of _ app] parse_tag_append [of _ host]
      parse_tag_append [of _ cluster] parse_tag_append [of _ "dec_int rank"]
    by (simp add: tag_safe_def dec_int_nonempty del: append.simps)
  show ?thesis
    using assms
    by (simp only: parse_influx_def split_char_append [OF influx_head_tags(1) [OF assms]]
        influx_head_tags(2) [OF assms] tags option.case prod.case list.case) simp
qed

lemma influx_line_split:
  "influx_line app host cluster rank m ts =
     influx_head app host cluster rank @ CHR '' '' #
       (''message'' @ CHR ''='' # dquote # m @ dquote # CHR '' '' # dec_int ts)"
  by (simp add: influx_line_def)

lemma influx_roundtrip:
  assumes "tag_safe app" "tag_safe host" "tag_safe cluster" and "field_safe m"
  shows "parse_influx (influx_line app host cluster rank m ts) =
           Some \<lparr>measurement = ''daap'',
                 tags = [(''appname'', app), (''hostname'', host), (''cluster'', cluster),
                         (''mpirank'', dec_int rank)],
                 field_key = ''message'', field_text = m, time_ns = ts\<rparr>"
  unfolding influx_line_split
  by (simp only: parse_head [OF assms(1-3)] parse_field_message [OF assms(4)] option.map prod.case)

text \<open>
  C12: The line that \<open>daapBuildInflux\<close> builds from the data of the process and a message
  reads back as exactly that data: the point \<open>daap\<close> with the four tags, the message field
  and the timestamp in nanoseconds, when the line fits its buffer and name, host, cluster
  and message avoid the characters that the line protocol reserves (names: comma, equals sign,
  blank, backslash, and not empty; message: quote, backslash). The reader is \<open>parse_influx\<close>, for
  which a line break is a character like any other.
\<close>
theorem build_influx_roundtrip:
  assumes "os_alloc os (trace w)"
    and "appname (init_data w) = SPtr app" and "hostname (init_data w) = SPtr host"
    and "cluster_name (init_data w) = SPtr cluster"
    and "LONG_MIN \<le> mpi_rank (init_data w)" "mpi_rank (init_data w) \<le> LONG_MAX"
    and "LONG_MIN \<le> ts * 1000000" "ts * 1000000 \<le> LONG_MAX"
    and "tag_safe app" "tag_safe host" "tag_safe cluster" and "field_safe m"
    and "length (influx_line app host cluster (mpi_rank (init_data w)) m (ts * 1000000)) < max_size"
  shows "wp (daapBuildInflux os ts m)
           (\<lambda>p w'. \<exists>s. p = SPtr s \<and> length s < max_size \<and>
              parse_influx s =
                Some \<lparr>measurement = ''daap'',
                      tags = [(''appname'', app), (''hostname'', host), (''cluster'', cluster),
                              (''mpirank'', dec_int (mpi_rank (init_data w)))],
                      field_key = ''message'', field_text = m, time_ns = ts * 1000000\<rparr>) w"
  using daapBuildInflux_run [OF assms(1-8), of m] influx_roundtrip [OF assms(9-12)] assms(13)
  by (simp add: wp_def snprintf_str_fits del: of_int_mult)

theorem build_influx_roundtrip_witness:
  "\<exists>w. wp (daapBuildInflux os_good 1600000000000 ''step 1'')
     (\<lambda>p w'. \<exists>s. p = SPtr s \<and> length s < 2048 \<and>
        parse_influx s =
          Some \<lparr>measurement = ''daap'',
                tags = [(''appname'', ''vpic''), (''hostname'', ''nid00042''),
                        (''cluster'', ''trinity''), (''mpirank'', ''7'')],
                field_key = ''message'', field_text = ''step 1'', time_ns = 1600000000000000000\<rparr>) w"
proof -
  let ?w = "world0\<lparr>init_data := init_data0\<lparr>appname := SPtr ''vpic'', hostname := SPtr ''nid00042'',
      cluster_name := SPtr ''trinity'', mpi_rank := 7\<rparr>\<rparr>"
  have "dec_int 7 = ''7''" by (simp add: dec_int_def dec.simps digit_char_def char_of_def bit_0)
  then show ?thesis
    using build_influx_roundtrip [of os_good ?w "''vpic''" "''nid00042''" "''trinity''" 1600000000000 "''step 1''"]
    by (intro exI [of _ ?w])
      (simp add: os_good_def c_consts tag_safe_def field_safe_def dquote_def max_size_def influx_line_def
        influx_head_def dec_int_def dec.simps)
qed

text \<open>A message that reaches the end of the buffer takes the closing quote with it.\<close>

lemma split_char_None: "c \<notin> set s \<Longrightarrow> split_char c s = None"
  by (simp add: split_char_def)

lemma parse_field_cut:
  assumes "field_safe m"
  shows "parse_field (take k (''message'' @ CHR ''='' # dquote # m)) = None"
proof (cases "k \<le> 7")
  case True
  then have "take k (''message'' @ CHR ''='' # dquote # m) = take k ''message''"
    by (subst take_append) simp
  moreover have "CHR ''='' \<notin> set (take k ''message'')"
    by (auto dest: in_set_takeD)
  then have "split_char CHR ''='' (take k ''message'') = None" by (rule split_char_None)
  ultimately show ?thesis by (simp only: parse_field_def option.case)
next
  case False
  then have "8 \<le> k" by simp
  then obtain j where "k = length (''message'' @ [CHR ''='']) + j"
    by (auto simp: le_iff_add)
  then have "take k ((''message'' @ [CHR ''='']) @ dquote # m) =
      (''message'' @ [CHR ''='']) @ take j (dquote # m)"
    by (simp only: take_append) simp
  then have cut: "take k (''message'' @ CHR ''='' # dquote # m) =
      ''message'' @ CHR ''='' # take j (dquote # m)"
    by (simp only: append_assoc append_Cons append_Nil)
  have key: "CHR ''='' \<notin> set ''message''" by simp
  have "dquote \<notin> set (take i m)" for i
    using assms by (auto simp: field_safe_def dest: in_set_takeD)
  then show ?thesis
    unfolding cut parse_field_def split_char_append [OF key]
    by (cases j) (auto simp: split_char_None)
qed

lemma influx_cut:
  assumes "tag_safe app" "tag_safe host" "tag_safe cluster" and "field_safe m"
    and "n \<le> length (influx_head app host cluster rank) + 10 + length m"
  shows "parse_influx (take n (influx_line app host cluster rank m ts)) = None"
proof -
  let ?h = "influx_head app host cluster rank"
  show ?thesis
  proof (cases "n \<le> length ?h")
    case True
    then have "CHR '' '' \<notin> set (take n (influx_line app host cluster rank m ts))"
      using influx_head_tags(1) [OF assms(1-3), of rank]
      by (auto simp: influx_line_split dest: in_set_takeD)
    then show ?thesis by (simp add: parse_influx_def split_char_None)
  next
    case False
    then obtain k where k: "n = length ?h + Suc k" by (metis less_iff_Suc_add not_le add_Suc_right)
    with assms(5) have "k \<le> length (''message'' @ CHR ''='' # dquote # m)" by simp
    then have "take n (influx_line app host cluster rank m ts) =
        ?h @ CHR '' '' # take k (''message'' @ CHR ''='' # dquote # m)"
      unfolding influx_line_split k by (simp del: append.simps(2) add: append_Cons [symmetric])
    then show ?thesis
      by (simp only: parse_head [OF assms(1-3)] parse_field_cut [OF assms(4)] option.map)
  qed
qed

end
