(* ===== verification/Tcp.thy ===== *)
theory Tcp
  imports World
begin

text \<open>
  \<open>src/daap_tcp.c\<close>: the TLS context, the connection to the collector on the local host, and
  the write loop. The loop \<open>ssl_write_loop\<close> may run forever, so it is a partial function
  into \<open>option\<close>; \<open>daapTCPLogWrite\<close> turns its \<open>None\<close> into the outcome \<open>Diverges\<close>.

  The lemmas: what each function leaves untouched; \<open>wire\<close>, the bytes the peer accepted, and
  \<open>open_fds\<close>, the sockets not yet closed, and \<open>balance\<close>, the resources acquired and not
  released, all read off the history; exact delivery when \<open>SSL_write\<close> takes whole buffers (as it
  does in the mode of this program), what the loop would do if it did not, and the failure
  paths.
\<close>

section \<open>The TLS context\<close>

definition SSL_CLIENT_CERT :: string where "SSL_CLIENT_CERT = ''client_cert.pem''"
definition SSL_CLIENT_KEY :: string where "SSL_CLIENT_KEY = ''client_key.pem''"
definition DAAP_CERTS_ENVVAR :: string where "DAAP_CERTS_ENVVAR = ''DAAP_CERTS''"
definition PATH_MAX :: nat where "PATH_MAX = 4096"

lemmas ssl_consts [c_consts] =
  SSL_CLIENT_CERT_def SSL_CLIENT_KEY_def DAAP_CERTS_ENVVAR_def PATH_MAX_def

text \<open>
  \<open>snprintf\<close> with bound \<open>n\<close> into an array of \<open>cap\<close> bytes: the terminator included, it
  writes \<open>min n (length s + 1)\<close> bytes.
\<close>

definition snprintf_into :: "nat \<Rightarrow> nat \<Rightarrow> string \<Rightarrow> (world, string) cmd" where
  "snprintf_into cap n s =
     (if min n (length s + 1) > cap then faultC OutOfBounds else ret (snprintf_str n s))"

definition daapInitializeSSL :: "os \<Rightarrow> (world, int) cmd" where
  "daapInitializeSSL os =
     seqC (emit EvSslLibInit)
    (case os_getenv os DAAP_CERTS_ENVVAR of
       None \<Rightarrow>
         seqC (emit (EvStderr (''Environment Variable '' @ DAAP_CERTS_ENVVAR @ '' returned NULL'' @ [newline])))
        (ret (-1))
     | Some cert_dir \<Rightarrow>
         let cert_dir_len = length cert_dir;
             ssl_client_cert_len = length SSL_CLIENT_CERT;
             ssl_client_key_len = length SSL_CLIENT_KEY
         in
         if cert_dir_len + ssl_client_key_len < PATH_MAX \<and>
            cert_dir_len + ssl_client_cert_len < PATH_MAX
         then
           bindC (snprintf_into PATH_MAX (cert_dir_len + ssl_client_cert_len + 2)
                    (cert_dir @ ''/'' @ SSL_CLIENT_CERT)) (\<lambda>ssl_client_cert.
           bindC (snprintf_into PATH_MAX (cert_dir_len + ssl_client_key_len + 2)
                    (cert_dir @ ''/'' @ SSL_CLIENT_KEY)) (\<lambda>ssl_client_key.
           bindC (query (os_access os ssl_client_cert) (EvAccess ssl_client_cert)) (\<lambda>a.
           bindC (if a = -1 then ret (-1)
                  else query (os_access os ssl_client_key) (EvAccess ssl_client_key)) (\<lambda>b.
           if b = -1 then
             seqC (emit (EvStderr (''Cannot find or access DAAP ssl cert: '' @ ssl_client_cert @
                                   '' or key: '' @ ssl_client_key @ [newline])))
            (ret (-1))
           else
             bindC (query (os_ctx_new os) EvCtxNew) (\<lambda>ctx.
             seqC (update (\<lambda>w. w\<lparr>sslctx := ctx\<rparr>))
            (if ctx = None then
               seqC (ERROR_OUTPUT os U_tcp ''Error in creation of SSL_CTX object'' [])
              (ret (-1))
             else
               seqC (query (os_indet os) (EvClearOptions ctx))
              (seqC (emit (EvCtxSetup ctx ssl_client_cert ssl_client_key))
              (asks (\<lambda>w. os_indet os (trace w))))))))))
         else
           seqC (emit (EvStderr (''Invalid path length for certificates'' @ [newline])))
          (ret (-1)))"

definition daapShutdownSSL :: "(world, unit) cmd" where
  "daapShutdownSSL =
     bindC (asks sslctx) (\<lambda>ctx.
     seqC (emit (EvCtxFree ctx))
    (bindC (asks cSSL) (\<lambda>s.
     seqC (case s of
             None \<Rightarrow> ret ()
           | Some p \<Rightarrow>
               seqC (emit (EvSslShutdown p))
              (seqC (emit (EvSslShutdown p))
              (emit (EvSslFree p))))
    (emit EvSslCleanup))))"

section \<open>The connection\<close>

definition daapTCPConnect :: "os \<Rightarrow> (world, int) cmd" where
  "daapTCPConnect os =
     bindC (query (os_socket os) EvSocket) (\<lambda>fd.
     seqC (update (\<lambda>w. w\<lparr>sockfd := fd\<rparr>))
    (if fd < 0 then
       seqC (emit (EvPerror ''socket creation failed''))
      (ret fd)
     else
       bindC (query (os_connect os) (EvConnect fd)) (\<lambda>ret_val.
       if ret_val \<noteq> 0 then
         seqC (emit (EvPerror ''connection to the TCP server failed''))
        (ret (-1))
       else
         bindC (asks sslctx) (\<lambda>ctx.
         bindC (query (os_ssl_new os ctx) (EvSslNew ctx)) (\<lambda>s.
         seqC (update (\<lambda>w. w\<lparr>cSSL := s\<rparr>))
        (seqC (emit (EvSetFd s fd))
        (bindC (query (os_ssl_connect os) (EvSslConnect s)) (\<lambda>ret_val.
         if ret_val < 0 then
           seqC daapShutdownSSL
          (ret (-1))
         else ret 0))))))))"

text \<open>
  One pass of the loop of \<open>daapTCPLogWrite\<close>, and the loop. A pass hands \<open>SSL_write\<close> the
  bytes from offset \<open>count\<close>, the result of the pass before it, and asks for
  \<open>buf_size - count\<close> of them. It ends the loop (\<open>Inl\<close>) or goes on with the new \<open>count\<close> and
  \<open>total_count\<close> (\<open>Inr\<close>). The mode of the connection is not modelled: \<open>os_ssl_write\<close> may answer any
  number, also a part of the buffer, which OpenSSL does only in a mode that the source never
  sets. Where the answer matters, it is a hypothesis (\<open>writes_whole\<close>).
\<close>

definition ssl_write_pass ::
  "os \<Rightarrow> string \<Rightarrow> int \<Rightarrow> int \<Rightarrow> int \<Rightarrow> world \<Rightarrow> (int, world) outcome + int \<times> int \<times> world" where
  "ssl_write_pass os buf buf_size count total_count w =
     (if total_count = buf_size then Inl (Ret count w)
      else if count > int (length buf) \<or> buf_size > int (length buf) then Inl (Faults OutOfBounds)
      else
        let chunk = take (nat (buf_size - count)) (drop (nat count) buf);
            c = os_ssl_write os chunk (trace w);
            w' = w\<lparr>trace := trace w @ [EvSslWrite (cSSL w) chunk c]\<rparr>
        in
        if c = -1 then Inl (Exits 2 (w'\<lparr>trace := trace w' @ [EvErrPrint]\<rparr>))
        else if c < 0 then
          Inl (Ret (-1) (w'\<lparr>trace := trace w' @
                            [EvStdout (''ssl write count is: '' @ dec_int c @ [newline])]\<rparr>))
        else if total_count + c > INT_MAX then Inl (Faults IntOverflow)
        else Inr (c, total_count + c, w'))"

partial_function (option) ssl_write_loop ::
  "os \<Rightarrow> string \<Rightarrow> int \<Rightarrow> int \<Rightarrow> int \<Rightarrow> world \<Rightarrow> (int, world) outcome option" where
  "ssl_write_loop os buf buf_size count total_count w =
     (case ssl_write_pass os buf buf_size count total_count w of
        Inl r \<Rightarrow> Some r
      | Inr (c, t, w') \<Rightarrow> ssl_write_loop os buf buf_size c t w')"

definition run_loop :: "(world \<Rightarrow> (int, world) outcome option) \<Rightarrow> (world, int) cmd" where
  "run_loop f w = (case f w of None \<Rightarrow> Diverges | Some r \<Rightarrow> r)"

definition daapTCPLogWrite :: "os \<Rightarrow> string \<Rightarrow> int \<Rightarrow> (world, int) cmd" where
  "daapTCPLogWrite os buf buf_size =
     seqC (lock Write_mutex)
    (bindC (daapTCPConnect os) (\<lambda>r.
     if r < 0 then
       seqC (unlock Write_mutex)
      (ret DAAP_ERROR)
     else
       seqC (emit EvErrClear)
      (bindC (run_loop (ssl_write_loop os buf buf_size 0 0)) (\<lambda>count.
       bindC (asks sockfd) (\<lambda>fd.
       seqC (emit (EvClose fd))
      (seqC (unlock Write_mutex)
      (ret count)))))))"

section \<open>What the history says\<close>

text \<open>The bytes that the peer accepted, in order, and the sockets that are still open.\<close>

definition accepted :: "event \<Rightarrow> string" where
  "accepted e = (case e of EvSslWrite s d n \<Rightarrow> take (nat n) d | _ \<Rightarrow> [])"

definition wire :: "event list \<Rightarrow> string" where
  "wire es = concat (map accepted es)"

fun track_fd :: "int list \<Rightarrow> event \<Rightarrow> int list" where
  "track_fd fds (EvSocket n) = (if n < 0 then fds else n # fds)"
| "track_fd fds (EvClose n) = remove1 n fds"
| "track_fd fds _ = fds"

definition open_fds :: "event list \<Rightarrow> int list" where
  "open_fds es = foldl track_fd [] es"

text \<open>The lines handed over whole: to syslog, or to the peer in one \<open>SSL_write\<close>.\<close>

definition delivered_by :: "event \<Rightarrow> string list" where
  "delivered_by e =
     (case e of
        EvSyslog p m \<Rightarrow> [m]
      | EvSslWrite s d n \<Rightarrow> if n = int (length d) then [d] else []
      | _ \<Rightarrow> [])"

definition delivered :: "event list \<Rightarrow> string list" where
  "delivered es = concat (map delivered_by es)"

lemma delivered_append [simp]: "delivered (es @ fs) = delivered es @ delivered fs"
  by (simp add: delivered_def)

lemma delivered_simps [simp]:
  "delivered [] = []"
  "delivered (e # es) = delivered_by e @ delivered es"
  by (simp_all add: delivered_def)

lemma delivered_by_simps [simp]:
  "delivered_by (EvSyslog p m) = [m]"
  "delivered_by (EvSslWrite s d n) = (if n = int (length d) then [d] else [])"
  by (simp_all add: delivered_by_def)

lemma wire_append [simp]: "wire (es @ fs) = wire es @ wire fs"
  by (simp add: wire_def)

lemma wire_simps [simp]:
  "wire [] = []"
  "wire (e # es) = accepted e @ wire es"
  by (simp_all add: wire_def)

lemma accepted_write [simp]: "accepted (EvSslWrite s d n) = take (nat n) d"
  by (simp add: accepted_def)

lemma open_fds_append [simp]: "open_fds (es @ fs) = foldl track_fd (open_fds es) fs"
  by (simp add: open_fds_def)

text \<open>
  What the process holds of each kind of resource: blocks of memory, streams, sockets,
  TLS objects and TLS contexts. \<open>balance k\<close> counts the acquisitions of kind \<open>k\<close> minus the
  releases. (A \<open>realloc\<close> counts as an acquisition; only the host name loop has one.)
\<close>

datatype resource = Memory | Stream | Descriptor | Tls | Context

definition effect :: "resource \<Rightarrow> event \<Rightarrow> int" where
  "effect k e =
     (case e of
        EvAlloc n ok \<Rightarrow> of_bool (k = Memory \<and> ok)
      | EvCompile \<Rightarrow> of_bool (k = Memory)
      | EvFree s \<Rightarrow> - of_bool (k = Memory)
      | EvFreeBlock \<Rightarrow> - of_bool (k = Memory)
      | EvFopen s \<Rightarrow> of_bool (k = Stream)
      | EvFopenNull ok \<Rightarrow> of_bool (k = Stream \<and> ok)
      | EvFclose \<Rightarrow> - of_bool (k = Stream)
      | EvSocket n \<Rightarrow> of_bool (k = Descriptor \<and> 0 \<le> n)
      | EvClose n \<Rightarrow> - of_bool (k = Descriptor)
      | EvSslNew c s \<Rightarrow> of_bool (k = Tls \<and> s \<noteq> None)
      | EvSslFree p \<Rightarrow> - of_bool (k = Tls)
      | EvCtxNew c \<Rightarrow> of_bool (k = Context \<and> c \<noteq> None)
      | EvCtxFree c \<Rightarrow> - of_bool (k = Context \<and> c \<noteq> None)
      | _ \<Rightarrow> 0)"

definition balance :: "resource \<Rightarrow> event list \<Rightarrow> int" where
  "balance k es = sum_list (map (effect k) es)"

lemma effect_simps [simp]:
  "effect k (EvAlloc n ok) = of_bool (k = Memory \<and> ok)"
  "effect k EvCompile = of_bool (k = Memory)" "effect k (EvFopen s) = of_bool (k = Stream)"
  "effect k (EvFree s) = - of_bool (k = Memory)" "effect k EvFreeBlock = - of_bool (k = Memory)"
  "effect k (EvFopenNull ok) = of_bool (k = Stream \<and> ok)"
  "effect k EvFclose = - of_bool (k = Stream)"
  "effect k (EvSocket i) = of_bool (k = Descriptor \<and> 0 \<le> i)"
  "effect k (EvClose i) = - of_bool (k = Descriptor)"
  "effect k (EvSslNew c q) = of_bool (k = Tls \<and> q \<noteq> None)"
  "effect k (EvSslFree n) = - of_bool (k = Tls)"
  "effect k (EvCtxNew c) = of_bool (k = Context \<and> c \<noteq> None)"
  "effect k (EvCtxFree c) = - of_bool (k = Context \<and> c \<noteq> None)"
  "effect k EvSslLibInit = 0" "effect k (EvStderr s) = 0" "effect k (EvAccess s i) = 0"
  "effect k (EvClearOptions c i) = 0" "effect k (EvCtxSetup c s t) = 0"
  "effect k (EvGettimeofday tv) = 0" "effect k (EvErrorOutput s t) = 0" "effect k (EvDebugOutput s t) = 0"
  "effect k (EvTime i) = 0"
  "effect k (EvStdout s) = 0" "effect k (EvPerror s) = 0"
  "effect k (EvOpenlog s b i) = 0" "effect k (EvSyslog i s) = 0" "effect k EvErrClear = 0"
  "effect k (EvSslWrite q s i) = 0" "effect k (EvSetFd q i) = 0" "effect k (EvConnect i j) = 0"
  "effect k (EvSslConnect q i) = 0" "effect k (EvSslShutdown n) = 0" "effect k EvSslCleanup = 0"
  by (simp_all add: effect_def)

lemma balance_simps [simp]:
  "balance k [] = 0"
  "balance k (e # es) = effect k e + balance k es"
  "balance k (es @ fs) = balance k es + balance k fs"
  by (simp_all add: balance_def)

section \<open>Frames\<close>

lemma snprintf_into_frame [frame]: "preserves f (snprintf_into cap n s)"
  unfolding snprintf_into_def by (intro frame)

text \<open>
  Rule for the loop: a property that links the start of a pass to the final outcome holds
  for the loop when it holds for a pass that ends it and passes over a pass that goes on.
\<close>

lemma ssl_write_loop_rule:
  assumes run: "ssl_write_loop os buf n count tot w = Some r"
    and last: "\<And>count tot w r. ssl_write_pass os buf n count tot w = Inl r \<Longrightarrow> P count tot w r"
    and more: "\<And>count tot w c t w' r. ssl_write_pass os buf n count tot w = Inr (c, t, w') \<Longrightarrow>
                 P c t w' r \<Longrightarrow> P count tot w r"
  shows "P count tot w r"
proof -
  have "os = os \<longrightarrow> buf = buf \<longrightarrow> n = n \<longrightarrow> P count tot w r"
  proof (rule ssl_write_loop.raw_induct
      [where P = "\<lambda>o' b' n' count tot w r. o' = os \<longrightarrow> b' = buf \<longrightarrow> n' = n \<longrightarrow> P count tot w r",
       OF _ run])
    fix f o' b' n' count tot w r
    assume IH: "\<And>o' b' n' count tot w r. f o' b' n' count tot w = Some r \<Longrightarrow>
        o' = os \<longrightarrow> b' = buf \<longrightarrow> n' = n \<longrightarrow> P count tot w r"
      and eq: "(case ssl_write_pass o' b' n' count tot w of
          Inl r \<Rightarrow> Some r | Inr (c, t, w') \<Rightarrow> f o' b' n' c t w') = Some r"
    show "o' = os \<longrightarrow> b' = buf \<longrightarrow> n' = n \<longrightarrow> P count tot w r"
    proof (cases "ssl_write_pass o' b' n' count tot w")
      case (Inl q)
      with eq last show ?thesis by auto
    next
      case (Inr q)
      with eq IH more show ?thesis by (cases q) auto
    qed
  qed
  then show ?thesis by simp
qed

text \<open>A pass, and so the loop, appends to the history and changes nothing else.\<close>

lemma ssl_write_pass_trace:
  "ssl_write_pass os buf n count tot w = Inr (c, t, w') \<Longrightarrow>
     \<exists>e. w' = w\<lparr>trace := trace w @ [e]\<rparr>"
  "ssl_write_pass os buf n count tot w = Inl (Ret c w') \<Longrightarrow>
     \<exists>es. w' = w\<lparr>trace := trace w @ es\<rparr>"
  by (auto simp: ssl_write_pass_def Let_def split: if_splits intro: exI [where x = "[]"])

lemma ssl_write_loop_trace:
  assumes "ssl_write_loop os buf n count tot w = Some (Ret c w')"
  shows "\<exists>es. w' = w\<lparr>trace := trace w @ es\<rparr>"
proof -
  have "\<forall>c w'. Ret c w' = r \<longrightarrow> (\<exists>es. w' = w\<lparr>trace := trace w @ es\<rparr>)"
    if "ssl_write_loop os buf n count tot w = Some r" for r
    using that
  proof (rule ssl_write_loop_rule)
    fix count tot w c t w' r
    assume "ssl_write_pass os buf n count tot w = Inr (c, t, w')"
      and IH: "\<forall>c v. Ret c v = r \<longrightarrow> (\<exists>es. v = w'\<lparr>trace := trace w' @ es\<rparr>)"
    then obtain e where "w' = w\<lparr>trace := trace w @ [e]\<rparr>" by (blast dest: ssl_write_pass_trace)
    with IH show "\<forall>c v. Ret c v = r \<longrightarrow> (\<exists>es. v = w\<lparr>trace := trace w @ es\<rparr>)" by fastforce
  qed (blast dest: ssl_write_pass_trace)
  with assms show ?thesis by blast
qed

lemma run_loop_frame [frame]:
  assumes "\<And>w t. f (w\<lparr>trace := t\<rparr>) = f w"
  shows "preserves f (run_loop (ssl_write_loop os buf n count tot))"
proof (rule preservesI)
  fix w c w'
  assume "run_loop (ssl_write_loop os buf n count tot) w = Ret c w'"
  then have "ssl_write_loop os buf n count tot w = Some (Ret c w')"
    by (simp add: run_loop_def split: option.splits)
  then show "f w' = f w" using ssl_write_loop_trace assms by metis
qed

lemma run_loop_grows: "keeps grows (run_loop (ssl_write_loop os buf n count tot))"
proof (rule keepsI)
  fix w c w'
  assume "run_loop (ssl_write_loop os buf n count tot) w = Ret c w'"
  then have "ssl_write_loop os buf n count tot w = Some (Ret c w')"
    by (simp add: run_loop_def split: option.splits)
  then show "grows w w'" using ssl_write_loop_trace by (fastforce simp: grows_def)
qed

lemma run_loop_simps [simp]:
  "f w = Some r \<Longrightarrow> run_loop f w = r"
  "f w = None \<Longrightarrow> run_loop f w = Diverges"
  by (simp_all add: run_loop_def)

lemma daapShutdownSSL_frame [frame]:
  "(\<And>w t. f (w\<lparr>trace := t\<rparr>) = f w) \<Longrightarrow> preserves f daapShutdownSSL"
  unfolding daapShutdownSSL_def by (intro frame)

lemma daapShutdownSSL_grows: "keeps grows daapShutdownSSL"
  unfolding daapShutdownSSL_def by (intro grows_rules)

lemma daapTCPConnect_frame [frame]:
  assumes "\<And>w t. f (w\<lparr>trace := t\<rparr>) = f w" "\<And>w t. f (w\<lparr>sockfd := t\<rparr>) = f w"
    "\<And>w t. f (w\<lparr>cSSL := t\<rparr>) = f w"
  shows "preserves f (daapTCPConnect os)"
  unfolding daapTCPConnect_def by (intro frame same_onI assms)

lemma sockets_grow:
  "keeps grows (update (\<lambda>w. w\<lparr>sockfd := fd\<rparr>))"
  "keeps grows (update (\<lambda>w. w\<lparr>cSSL := s\<rparr>))"
  "keeps grows (update (\<lambda>w. w\<lparr>sslctx := s\<rparr>))"
  by (auto simp: keeps_def grows_def)

lemma daapTCPConnect_grows: "keeps grows (daapTCPConnect os)"
  unfolding daapTCPConnect_def by (intro sockets_grow daapShutdownSSL_grows grows_rules)

lemma daapTCPLogWrite_frame [frame]:
  assumes "\<And>w t. f (w\<lparr>trace := t\<rparr>) = f w" "\<And>w t. f (w\<lparr>sockfd := t\<rparr>) = f w"
    "\<And>w t. f (w\<lparr>cSSL := t\<rparr>) = f w" "\<And>w t. f (w\<lparr>held := t\<rparr>) = f w"
  shows "preserves f (daapTCPLogWrite os buf n)"
  unfolding daapTCPLogWrite_def by (intro frame assms)

lemma daapTCPLogWrite_grows: "keeps grows (daapTCPLogWrite os buf n)"
  unfolding daapTCPLogWrite_def
  by (intro daapTCPConnect_grows run_loop_grows grows_rules)

lemma daapInitializeSSL_frame [frame]:
  assumes "\<And>w t. f (w\<lparr>trace := t\<rparr>) = f w" "\<And>w t. f (w\<lparr>sslctx := t\<rparr>) = f w"
    "\<And>w t. f (w\<lparr>held := t\<rparr>) = f w"
  shows "preserves f (daapInitializeSSL os)"
  unfolding daapInitializeSSL_def by (intro frame same_onI assms)

lemma daapInitializeSSL_grows: "keeps grows (daapInitializeSSL os)"
  unfolding daapInitializeSSL_def snprintf_into_def
  by (intro sockets_grow output_grows grows_rules)

text \<open>Every returning path of the two functions that take a mutex gives it back.\<close>

lemma wlp_frame: "preserves f m \<Longrightarrow> wlp m Q w \<Longrightarrow> wlp m (\<lambda>a w'. Q a w' \<and> f w' = f w) w"
  by (auto simp: wlp_iff dest: preservesD)

lemma lock_balanced:
  assumes "preserves held m"
  shows "preserves held (seqC (lock x) (bindC m (\<lambda>a. seqC (unlock x) (ret (g a)))))"
proof (rule preservesI)
  fix w b w'
  assume run: "seqC (lock x) (bindC m (\<lambda>a. seqC (unlock x) (ret (g a)))) w = Ret b w'"
  then have x: "x \<notin> held w" by (cases "x \<in> held w") auto
  with run obtain a v where "m (w\<lparr>held := insert x (held w)\<rparr>) = Ret a v"
    and w': "w' = v\<lparr>held := held v - {x}\<rparr>"
    by (cases "m (w\<lparr>held := insert x (held w)\<rparr>)") auto
  with assms have "held v = insert x (held w)" by (auto dest: preservesD)
  with x show "held w' = held w" by (simp add: w')
qed

lemma daapTCPLogWrite_alt:
  "daapTCPLogWrite os buf n =
     seqC (lock Write_mutex)
    (bindC (bindC (daapTCPConnect os) (\<lambda>r.
            if r < 0 then ret DAAP_ERROR
            else
              seqC (emit EvErrClear)
             (bindC (run_loop (ssl_write_loop os buf n 0 0)) (\<lambda>count.
              bindC (asks sockfd) (\<lambda>fd.
              seqC (emit (EvClose fd)) (ret count))))))
     (\<lambda>r. seqC (unlock Write_mutex) (ret r)))"
  by (rule ext)
    (simp add: daapTCPLogWrite_def seqC_def bindC_def split: outcome.split)

lemma daapTCPLogWrite_held: "preserves held (daapTCPLogWrite os buf n)"
  unfolding daapTCPLogWrite_alt by (intro lock_balanced frame) simp_all

lemma daapInitializeSSL_held: "preserves held (daapInitializeSSL os)"
  unfolding daapInitializeSSL_def
  by (intro frame same_onI output_held) simp_all

section \<open>Delivery\<close>

text \<open>
  The environment of a working session: the collector accepts connections and handshakes,
  and \<open>SSL_write\<close> takes whole buffers, which is what OpenSSL documents for a blocking
  socket when partial writes have not been enabled.
\<close>

definition tls_up :: "os \<Rightarrow> bool" where
  "tls_up os \<longleftrightarrow> (\<forall>h. 0 \<le> os_socket os h \<and> os_connect os h = 0 \<and> 0 < os_ssl_connect os h)"

definition writes_whole :: "os \<Rightarrow> bool" where
  "writes_whole os \<longleftrightarrow> (\<forall>d h. d \<noteq> [] \<longrightarrow> os_ssl_write os d h = int (length d))"

lemma tls_upD:
  assumes "tls_up os"
  shows "\<not> os_socket os h < 0" "os_connect os h = 0" "\<not> os_ssl_connect os h < 0"
  using assms by (simp_all add: tls_up_def not_less less_imp_le)

lemma connect_up:
  assumes "tls_up os"
  shows "wp (daapTCPConnect os)
           (\<lambda>r w'. r = 0 \<and> wire (trace w') = wire (trace w) \<and>
              delivered (trace w') = delivered (trace w) \<and>
              open_fds (trace w') = sockfd w' # open_fds (trace w) \<and>
              held w' = held w \<and> init_data w' = init_data w) w"
  by (simp add: tls_upD [OF assms] daapTCPConnect_def wp_eqs accepted_def delivered_by_def)

lemma loop_whole:
  assumes "writes_whole os" and "buf \<noteq> []" and "int (length buf) \<le> INT_MAX"
  shows "ssl_write_loop os buf (int (length buf)) 0 0 w =
           Some (Ret (int (length buf))
             (w\<lparr>trace := trace w @ [EvSslWrite (cSSL w) buf (int (length buf))]\<rparr>))"
proof -
  have c: "os_ssl_write os buf (trace w) = int (length buf)"
    using assms by (simp add: writes_whole_def)
  have "ssl_write_pass os buf (int (length buf)) 0 0 w =
      Inr (int (length buf), int (length buf),
           w\<lparr>trace := trace w @ [EvSslWrite (cSSL w) buf (int (length buf))]\<rparr>)"
    using assms by (simp add: ssl_write_pass_def Let_def c)
  moreover have "ssl_write_pass os buf (int (length buf)) (int (length buf)) (int (length buf)) v =
      Inl (Ret (int (length buf)) v)" for v
    by (simp add: ssl_write_pass_def)
  ultimately show ?thesis
    by (subst ssl_write_loop.simps) (simp add: ssl_write_loop.simps)
qed

lemma tcp_write_effect:
  assumes "tls_up os" and "writes_whole os" and "Write_mutex \<notin> held w"
    and "buf \<noteq> []" and "int (length buf) \<le> INT_MAX"
  shows "wp (daapTCPLogWrite os buf (int (length buf)))
           (\<lambda>r w'. r = int (length buf) \<and> wire (trace w') = wire (trace w) @ buf \<and>
              delivered (trace w') = delivered (trace w) @ [buf] \<and>
              open_fds (trace w') = open_fds (trace w) \<and> held w' = held w) w"
proof -
  let ?w = "w\<lparr>held := insert Write_mutex (held w)\<rparr>"
  obtain v where conn: "daapTCPConnect os ?w = Ret 0 v"
    and v: "wire (trace v) = wire (trace w)" "open_fds (trace v) = sockfd v # open_fds (trace w)"
      "held v = insert Write_mutex (held w)" "delivered (trace v) = delivered (trace w)"
    using connect_up [OF assms(1), of ?w] by (auto simp: wp_iff)
  show ?thesis
    using assms v
    by (simp add: daapTCPLogWrite_def wp_def conn loop_whole accepted_def delivered_by_def)
qed

text \<open>
  C13: On a working connection and for a non-empty buffer, \<open>daapTCPLogWrite\<close> returns the number of
  bytes of the buffer, the peer has received exactly these bytes after what it had before,
  the socket it opened is closed again and \<open>write_mutex\<close> is free.
\<close>
theorem tcp_write_delivers:
  assumes "tls_up os" and "writes_whole os" and "Write_mutex \<notin> held w"
    and "buf \<noteq> []" and "int (length buf) \<le> INT_MAX"
  shows "wp (daapTCPLogWrite os buf (int (length buf)))
           (\<lambda>r w'. r = int (length buf) \<and> wire (trace w') = wire (trace w) @ buf \<and>
              open_fds (trace w') = open_fds (trace w) \<and> held w' = held w) w"
  using tcp_write_effect [OF assms] by (auto elim: wp_mono)

lemma os_good_contracts [simp]: "tls_up os_good" "writes_whole os_good"
  by (simp_all add: tls_up_def writes_whole_def os_good_def)

theorem tcp_write_delivers_witness:
  "wp (daapTCPLogWrite os_good ''hello'' 5)
     (\<lambda>r w'. r = 5 \<and> wire (trace w') = ''hello'' \<and> open_fds (trace w') = [] \<and> held w' = {}) world0"
  using tcp_write_delivers [of os_good world0 "''hello''"]
  by (simp add: world0_def open_fds_def INT_MAX_def)

section \<open>Short writes\<close>

text \<open>
  The loop is written for partial writes, which OpenSSL makes only in the mode
  \<open>SSL_MODE_ENABLE_PARTIAL_WRITE\<close>; \<open>daap_tcp.c\<close> never sets it, so in this program a positive answer
  is the whole buffer (\<open>writes_whole\<close>). If the mode were enabled, the third call would start at the
  length of the second chunk, not at the end of the first two: the loop would end normally,
  and its last chunk would repeat bytes instead of finishing the buffer.
\<close>
lemma tcp_three_chunks:
  fixes a b c :: nat
  assumes len: "length buf = a + b + c" and pos: "0 < a" "0 < b" "0 < c"
    and fits: "int (length buf) \<le> INT_MAX"
    and w1: "w1 = w\<lparr>trace := trace w @ [EvSslWrite (cSSL w) buf (int a)]\<rparr>"
    and w2: "w2 = w1\<lparr>trace := trace w1 @ [EvSslWrite (cSSL w) (drop a buf) (int b)]\<rparr>"
    and c1: "os_ssl_write os buf (trace w) = int a"
    and c2: "os_ssl_write os (drop a buf) (trace w1) = int b"
    and c3: "os_ssl_write os (drop b buf) (trace w2) = int c"
  shows "wp (run_loop (ssl_write_loop os buf (int (length buf)) 0 0))
           (\<lambda>r w'. r = int c \<and>
              wire (trace w') = wire (trace w) @ take a buf @ take b (drop a buf) @ take c (drop b buf)) w"
proof -
  have p1: "ssl_write_pass os buf (int (length buf)) 0 0 w = Inr (int a, int a, w1)"
    using len pos fits by (simp add: ssl_write_pass_def Let_def c1 w1)
  have "nat (int (length buf) - int a) = length (drop a buf)" using len by simp
  then have p2: "ssl_write_pass os buf (int (length buf)) (int a) (int a) w1 =
      Inr (int b, int a + int b, w2)"
    using len pos fits c2 by (simp add: ssl_write_pass_def Let_def w1 w2)
  have "nat (int (length buf) - int b) = length (drop b buf)" using len by simp
  then have p3: "ssl_write_pass os buf (int (length buf)) (int b) (int a + int b) w2 =
      Inr (int c, int (length buf),
           w2\<lparr>trace := trace w2 @ [EvSslWrite (cSSL w) (drop b buf) (int c)]\<rparr>)"
    using len pos fits c3 by (simp add: ssl_write_pass_def Let_def w1 w2)
  have p4: "ssl_write_pass os buf (int (length buf)) (int c) (int (length buf)) v = Inl (Ret (int c) v)"
    for v by (simp add: ssl_write_pass_def)
  have "ssl_write_loop os buf (int (length buf)) 0 0 w =
      Some (Ret (int c) (w2\<lparr>trace := trace w2 @ [EvSslWrite (cSSL w) (drop b buf) (int c)]\<rparr>))"
    by (simp add: ssl_write_loop.simps [of _ _ _ 0] p1 ssl_write_loop.simps [of _ _ _ "int a"] p2
        ssl_write_loop.simps [of _ _ _ "int b"] p3 ssl_write_loop.simps [of _ _ _ "int c"] p4)
  then show ?thesis by (simp add: wp_def w1 w2)
qed

text \<open>A peer that takes four bytes, then three, then three again.\<close>

definition os_short :: os where
  "os_short = os_good\<lparr>os_ssl_write := (\<lambda>d h. if h = [] then 4 else 3)\<rparr>"

lemma tcp_three_chunks_witness:
  "wp (run_loop (ssl_write_loop os_short ''abcdefghij'' 10 0 0))
     (\<lambda>r w'. r = 3 \<and> wire (trace w') = ''abcdefgdef'') world0"
proof -
  let ?w1 = "world0\<lparr>trace := trace world0 @ [EvSslWrite (cSSL world0) ''abcdefghij'' (int 4)]\<rparr>"
  let ?w2 = "?w1\<lparr>trace := trace ?w1 @ [EvSslWrite (cSSL world0) (drop 4 ''abcdefghij'') (int 3)]\<rparr>"
  show ?thesis
    using tcp_three_chunks [of "''abcdefghij''" 4 3 3 ?w1 world0 ?w2 os_short]
    by (simp add: INT_MAX_def os_short_def world0_def)
qed

text \<open>\<open>SSL_write\<close> never reports more bytes than it was given.\<close>

definition writes_bounded :: "os \<Rightarrow> bool" where
  "writes_bounded os \<longleftrightarrow> (\<forall>d h. os_ssl_write os d h \<le> int (length d))"

lemma pass_accounts:
  assumes "writes_bounded os" and "ssl_write_pass os buf n count tot w = Inr (c, t, w')"
  shows "0 \<le> c \<and> t = tot + c \<and> int (length (wire (trace w'))) = int (length (wire (trace w))) + c"
proof -
  define d where "d = take (nat (n - count)) (drop (nat count) buf)"
  have c: "c = os_ssl_write os d (trace w)" "0 \<le> c" "t = tot + c"
    and w': "w' = w\<lparr>trace := trace w @ [EvSslWrite (cSSL w) d c]\<rparr>"
    using assms(2) by (auto simp: ssl_write_pass_def Let_def d_def split: if_splits)
  have "c \<le> int (length d)" using assms(1) c(1) by (simp add: writes_bounded_def)
  with c(2) have "length (take (nat c) d) = nat c" by simp
  with c w' show ?thesis by simp
qed

text \<open>
  When the write loop returns a non-negative count, the number of bytes that the peer
  accepted is exactly the size of the buffer, however \<open>SSL_write\<close> cut it.
\<close>
lemma tcp_loop_byte_count:
  assumes "writes_bounded os"
    and "ssl_write_loop os buf n 0 0 w = Some (Ret r w')" and "0 \<le> r"
  shows "int (length (wire (trace w'))) = int (length (wire (trace w))) + n"
proof -
  let ?P = "\<lambda>(count::int) tot w q. \<forall>r w'. q = Ret r w' \<longrightarrow> 0 \<le> r \<longrightarrow>
      int (length (wire (trace w'))) = int (length (wire (trace w))) + n - tot"
  have "?P 0 0 w (Ret r w')"
    using assms(2)
  proof (rule ssl_write_loop_rule [where P = ?P])
    fix count tot v q
    assume "ssl_write_pass os buf n count tot v = Inl q"
    then show "?P count tot v q"
      by (auto simp: ssl_write_pass_def Let_def split: if_splits)
  next
    fix count tot v c t u q
    assume "ssl_write_pass os buf n count tot v = Inr (c, t, u)" and "?P c t u q"
    then show "?P count tot v q" using pass_accounts [OF assms(1)] by fastforce
  qed
  with assms(3) show ?thesis by simp
qed

lemma tcp_loop_byte_count_witness:
  "int (length (wire (trace (world0\<lparr>trace := [EvSslWrite None ''hello'' 5]\<rparr>)))) = 5"
proof -
  have "ssl_write_loop os_good ''hello'' 5 0 0 world0 =
      Some (Ret 5 (world0\<lparr>trace := [EvSslWrite None ''hello'' 5]\<rparr>))"
    using loop_whole [of os_good "''hello''" world0] by (simp add: world0_def INT_MAX_def)
  moreover have "writes_bounded os_good" by (simp add: writes_bounded_def os_good_def)
  ultimately show ?thesis using tcp_loop_byte_count by (fastforce simp: world0_def)
qed

text \<open>
  C33: If \<open>SSL_write\<close> keeps answering 0 (OpenSSL's answer when the connection was shut down),
  \<open>daapTCPLogWrite\<close> of a non-empty buffer never returns.
\<close>
theorem tcp_zero_writes_diverge:
  assumes "tls_up os" and "\<And>d h. os_ssl_write os d h = 0"
    and "buf \<noteq> []" and "Write_mutex \<notin> held w"
  shows "daapTCPLogWrite os buf (int (length buf)) w = Diverges"
proof -
  have "False" if "ssl_write_loop os buf (int (length buf)) 0 0 v = Some r" for v r
  proof -
    have "0 = (0::int) \<longrightarrow> 0 = (0::int) \<longrightarrow> False"
      using that
    proof (rule ssl_write_loop_rule [where P = "\<lambda>count tot w r. count = 0 \<longrightarrow> tot = 0 \<longrightarrow> False"])
    qed (use assms(2,3) in \<open>auto simp: ssl_write_pass_def Let_def INT_MAX_def split: if_splits\<close>)
    then show False by simp
  qed
  then have none: "ssl_write_loop os buf (int (length buf)) 0 0 v = None" for v
    by (meson not_None_eq)
  let ?w = "w\<lparr>held := insert Write_mutex (held w)\<rparr>"
  obtain v where "daapTCPConnect os ?w = Ret 0 v"
    using connect_up [OF assms(1), of ?w] by (auto simp: wp_iff)
  with assms(4) none show ?thesis by (simp add: daapTCPLogWrite_def)
qed

theorem tcp_zero_writes_diverge_witness:
  "daapTCPLogWrite (os_good\<lparr>os_ssl_write := (\<lambda>_ _. 0)\<rparr>) ''hello'' 5 world0 = Diverges"
  using tcp_zero_writes_diverge [of "os_good\<lparr>os_ssl_write := (\<lambda>_ _. 0)\<rparr>" "''hello''" world0]
  by (simp add: tls_up_def os_good_def world0_def)

text \<open>
  When no collector listens, \<open>daapTCPLogWrite\<close> reports an error, sends nothing and frees
  its mutex, but the socket it opened stays open: every failed write leaks a descriptor.
\<close>
lemma tcp_connect_refused:
  assumes "\<And>h. 0 \<le> os_socket os h" and "\<And>h. os_connect os h = -1"
    and "Write_mutex \<notin> held w"
  shows "wp (daapTCPLogWrite os buf n)
           (\<lambda>r w'. r = DAAP_ERROR \<and> wire (trace w') = wire (trace w) \<and> held w' = held w \<and>
              sslctx w' = sslctx w \<and>
              open_fds (trace w') = os_socket os (trace w) # open_fds (trace w)) w"
proof -
  have "\<not> os_socket os h < 0" for h using assms(1) [of h] by simp
  then show ?thesis
    using assms(2,3)
    by (simp add: daapTCPLogWrite_def daapTCPConnect_def wp_eqs accepted_def c_consts)
qed

lemma tcp_connect_refused_witness:
  "wp (daapTCPLogWrite (os_good\<lparr>os_connect := (\<lambda>_. -1)\<rparr>) ''hello'' 5)
     (\<lambda>r w'. r = -1 \<and> wire (trace w') = [] \<and> held w' = {} \<and> sslctx w' = None \<and>
        open_fds (trace w') = [3]) world0"
  using tcp_connect_refused [of "os_good\<lparr>os_connect := (\<lambda>_. -1)\<rparr>" world0 "''hello''" 5]
  by (simp add: os_good_def world0_def c_consts open_fds_def)

section \<open>Ownership of the context\<close>

text \<open>
  \<open>SSL_CTX_new\<close> gives one reference and \<open>SSL_CTX_free\<close> gives it up. The monitor reads a
  history and answers whether a context is used or given up again after its reference was.
\<close>

fun ctx_misuse :: "nat list \<Rightarrow> event list \<Rightarrow> bool" where
  "ctx_misuse released [] = False"
| "ctx_misuse released (EvCtxFree (Some p) # es) =
     (p \<in> set released \<or> ctx_misuse (p # released) es)"
| "ctx_misuse released (EvSslNew (Some p) s # es) =
     (p \<in> set released \<or> ctx_misuse released es)"
| "ctx_misuse released (EvCtxNew (Some p) # es) = ctx_misuse (removeAll p released) es"
| "ctx_misuse released (e # es) = ctx_misuse released es"

text \<open>
  C34: When the TLS handshake fails, \<open>daapTCPLogWrite\<close> gives the context up but keeps the
  pointer: the write reports an error, and the shutdown that \<open>daapFinalize\<close> performs
  afterwards frees the same context, and the same connection, a second time.
\<close>
theorem tcp_handshake_failure_double_free:
  assumes "\<And>h. 0 \<le> os_socket os h" and "\<And>h. os_connect os h = 0"
    and "\<And>h. os_ssl_connect os h = -1" and "\<And>c h. os_ssl_new os c h = Some s"
    and "sslctx w = Some p" and "Write_mutex \<notin> held w" and "trace w = [EvCtxNew (Some p)]"
  shows "wp (bindC (daapTCPLogWrite os buf n) (\<lambda>r. seqC daapShutdownSSL (ret r)))
           (\<lambda>r w'. r = DAAP_ERROR \<and> ctx_misuse [] (trace w') \<and>
              count_list (trace w') (EvCtxFree (Some p)) = 2 \<and>
              count_list (trace w') (EvSslFree s) = 2) w"
proof -
  have "\<not> os_socket os h < 0" for h using assms(1) [of h] by simp
  then show ?thesis
    using assms(2-)
    by (simp add: daapTCPLogWrite_def daapTCPConnect_def daapShutdownSSL_def wp_eqs c_consts)
qed

theorem tcp_handshake_failure_double_free_witness:
  "wp (bindC (daapTCPLogWrite (os_good\<lparr>os_ssl_connect := (\<lambda>_. -1), os_ssl_new := (\<lambda>_ _. Some 9)\<rparr>) ''x'' 1)
             (\<lambda>r. seqC daapShutdownSSL (ret r)))
     (\<lambda>r w'. r = -1 \<and> ctx_misuse [] (trace w') \<and>
        count_list (trace w') (EvCtxFree (Some 1)) = 2 \<and> count_list (trace w') (EvSslFree 9) = 2)
     (world0\<lparr>sslctx := Some 1, trace := [EvCtxNew (Some 1)]\<rparr>)"
  using tcp_handshake_failure_double_free
    [of "os_good\<lparr>os_ssl_connect := (\<lambda>_. -1), os_ssl_new := (\<lambda>_ _. Some 9)\<rparr>" 9
        "world0\<lparr>sslctx := Some 1, trace := [EvCtxNew (Some 1)]\<rparr>" 1 "''x''" 1]
  by (simp add: os_good_def world0_def c_consts)

lemma ERROR_OUTPUT_not_oob: "ERROR_OUTPUT os u s as w \<noteq> Faults OutOfBounds"
  by (simp add: output_defs bindC_def seqC_def lock_def split: option.split)

lemma cert_name_lengths: "length SSL_CLIENT_CERT = 15" "length SSL_CLIENT_KEY = 14"
  by (simp_all add: c_consts)

lemma snprintf_into_path:
  "snprintf_into PATH_MAX (length dir + length name + 2) (dir @ ''/'' @ name) =
     (if length dir + length name + 2 > PATH_MAX then faultC OutOfBounds
      else ret (dir @ ''/'' @ name))"
  by (simp add: snprintf_into_def snprintf_str_def)

text \<open>Off that length, and with its diagnostics mutex free, the initialisation returns.\<close>

lemma daapInitializeSSL_returns:
  assumes "Print_mutex U_tcp \<notin> held w"
    and "\<And>dir. os_getenv os DAAP_CERTS_ENVVAR = Some dir \<Longrightarrow> length dir \<noteq> 4080"
  shows "\<exists>r w'. daapInitializeSSL os w = Ret r w'"
proof -
  have "wp (daapInitializeSSL os) (\<lambda>_ _. True) w"
  proof (cases "os_getenv os DAAP_CERTS_ENVVAR")
    case None
    then show ?thesis by (simp add: daapInitializeSSL_def wp_eqs)
  next
    case (Some dir)
    show ?thesis
    proof (cases "length dir + length SSL_CLIENT_CERT < PATH_MAX")
      case False
      then show ?thesis
        by (simp add: daapInitializeSSL_def Some cert_name_lengths PATH_MAX_def Let_def wp_eqs)
    next
      case True
      with assms(2) [OF Some] have fit: "length dir + 17 \<le> 4096"
        by (simp add: cert_name_lengths PATH_MAX_def)
      have msg: "deformat ''Error in creation of SSL_CTX object'' [] \<noteq> None"
        by (simp add: deformat_def format_plain plain_def)
      show ?thesis
        using fit msg assms(1)
        by (auto simp: daapInitializeSSL_def Some cert_name_lengths PATH_MAX_def Let_def wp_eqs
            snprintf_into_def output_defs split: option.split)
    qed
  qed
  then show ?thesis by (auto simp: wp_iff)
qed

lemma daapInitializeSSL_quiet:
  "preserves (\<lambda>w. delivered (trace w)) (daapInitializeSSL os)"
  unfolding daapInitializeSSL_def output_defs snprintf_into_def
  by (intro quiet same_onI) (simp_all add: delivered_by_def)

text \<open>A context that the call makes is the one in \<open>sslctx\<close>.\<close>

lemma daapInitializeSSL_balance:
  assumes "sslctx w = None"
  shows "wlp (daapInitializeSSL os)
           (\<lambda>_ v. balance k (trace v) =
              balance k (trace w) + of_bool (k = Context \<and> sslctx v \<noteq> None)) w"
proof (cases "os_getenv os DAAP_CERTS_ENVVAR")
  case None
  then show ?thesis by (simp add: daapInitializeSSL_def wp_eqs assms)
next
  case (Some dir)
  show ?thesis
    using assms
    by (auto simp: daapInitializeSSL_def Some Let_def wp_eqs snprintf_into_def output_defs
        split: option.split)
qed

text \<open>
  C35: The length check of \<open>daapInitializeSSL\<close> forgets the slash and the terminator: for a
  certificate directory of exactly 4080 bytes it passes although the certificate path needs
  one byte more than its array has; for every other length no array is overrun.
\<close>
theorem ssl_path_overflow:
  assumes "os_getenv os DAAP_CERTS_ENVVAR = Some dir"
  shows "daapInitializeSSL os w = Faults OutOfBounds \<longleftrightarrow> length dir = 4080"
proof (cases "length dir + length SSL_CLIENT_CERT < PATH_MAX")
  case False
  then show ?thesis
    by (simp add: daapInitializeSSL_def assms cert_name_lengths PATH_MAX_def Let_def)
next
  case True
  then have key: "\<not> length dir + length SSL_CLIENT_KEY + 2 > PATH_MAX"
    and ok: "length dir + length SSL_CLIENT_KEY < PATH_MAX"
    by (simp_all add: cert_name_lengths PATH_MAX_def)
  show ?thesis
  proof (cases "length dir = 4080")
    case True
    with ok show ?thesis
      by (simp add: daapInitializeSSL_def assms snprintf_into_def cert_name_lengths
          PATH_MAX_def Let_def)
  next
    case False
    with True have cert: "\<not> length dir + length SSL_CLIENT_CERT + 2 > PATH_MAX"
      by (simp add: cert_name_lengths PATH_MAX_def)
    have "daapInitializeSSL os w \<noteq> Faults OutOfBounds"
      unfolding daapInitializeSSL_def assms option.case Let_def snprintf_into_path
        if_not_P [OF cert] if_not_P [OF key] if_P [OF conjI [OF ok True]]
      using ERROR_OUTPUT_not_oob
      by (auto simp: bindC_def seqC_def split: outcome.split)
    with False show ?thesis by simp
  qed
qed

theorem ssl_path_overflow_witness:
  "daapInitializeSSL (os_good\<lparr>os_getenv := (\<lambda>_. Some (replicate 4080 CHR ''d''))\<rparr>) world0
     = Faults OutOfBounds"
  using ssl_path_overflow [of "os_good\<lparr>os_getenv := (\<lambda>_. Some (replicate 4080 CHR ''d''))\<rparr>"
      "replicate 4080 CHR ''d''" world0]
  by simp

end
