(* ===== verification/Delivery.thy ===== *)
theory Delivery
  imports LogWrite
begin

text \<open>
  The interface between the log writers and the transports as a locale: a command that
  hands one line over, and the state in which it works. The client lemmas (one line per
  call, in the order of the calls) are proved once from these laws; the syslog transport
  and a working TLS connection interpret the locale with \<open>transmit\<close> of \<open>LogWrite\<close>.
\<close>

section \<open>The environment of a working session\<close>

text \<open>
  The library is a release build, memory is available, the null device opens, and the clock
  shows a time between 1970 and 2262: the last year in which nanoseconds since the epoch fit a
  \<open>long long\<close>.
\<close>

definition env_ok :: "os \<Rightarrow> bool" where
  "env_ok os \<longleftrightarrow>
     \<not> os_debug os \<and>
     (\<forall>h. os_alloc os h \<and> os_fopen_null os h \<and>
        0 \<le> fst (os_gettimeofday os h) \<and> fst (os_gettimeofday os h) < 9223372036 \<and>
        0 \<le> snd (os_gettimeofday os h) \<and> snd (os_gettimeofday os h) < 1000000)"

lemma env_okD [simp]:
  assumes "env_ok os"
  shows "os_alloc os h" "os_fopen_null os h" "\<not> os_debug os"
  using assms unfolding env_ok_def by blast+

lemma env_ok_clock:
  assumes "env_ok os" and "os_gettimeofday os h = (s, u)"
  shows "0 \<le> s" "s < 9223372036" "0 \<le> u" "u < 1000000"
  using assms unfolding env_ok_def by (metis fst_conv snd_conv)+

text \<open>The timestamp of a line: the clock reading after the history \<open>h\<close>, in nanoseconds.\<close>

definition clock_ns :: "os \<Rightarrow> event list \<Rightarrow> int" where
  "clock_ns os h = sint (millisec (os_gettimeofday os h)) * 1000000"

lemma clock_ns_value:
  assumes "env_ok os"
  shows "clock_ns os h =
     (fst (os_gettimeofday os h) * 1000 + snd (os_gettimeofday os h) div 1000) * 1000000"
proof -
  obtain s u where tv: "os_gettimeofday os h = (s, u)" by fastforce
  note clock = env_ok_clock [OF assms tv]
  then have "0 \<le> s" "s < 2 ^ 53" "0 \<le> u" "u < 1000000" by simp_all
  then show ?thesis by (simp add: clock_ns_def tv millisec_signed)
qed

lemma clock_ns_range:
  assumes "env_ok os"
  shows "LONG_MIN \<le> clock_ns os h" "clock_ns os h \<le> LONG_MAX"
proof -
  obtain s u where tv: "os_gettimeofday os h = (s, u)" by fastforce
  note clock = env_ok_clock [OF assms tv]
  have ns: "clock_ns os h = (s * 1000 + u div 1000) * 1000000"
    using clock_ns_value [OF assms, of h] by (simp add: tv)
  define ms where "ms = s * 1000 + u div 1000"
  have "u div 1000 < 1000" using clock by simp
  then have "0 \<le> ms" and "ms \<le> 9223372036000"
    using clock by (simp_all add: ms_def)
  then have "0 \<le> ms * 1000000" and "ms * 1000000 \<le> 9223372036000 * 1000000"
    by (simp, intro mult_right_mono) simp_all
  then have "0 \<le> clock_ns os h" and "clock_ns os h \<le> 9223372036000000000"
    by (simp_all add: ns ms_def)
  then show "LONG_MIN \<le> clock_ns os h" "clock_ns os h \<le> LONG_MAX"
    by (simp_all add: c_consts)
qed

definition session_ready :: "string \<Rightarrow> string \<Rightarrow> string \<Rightarrow> world \<Rightarrow> bool" where
  "session_ready app host cluster w \<longleftrightarrow>
     daapInit_called w \<and> appname (init_data w) = SPtr app \<and>
     hostname (init_data w) = SPtr host \<and> cluster_name (init_data w) = SPtr cluster \<and>
     LONG_MIN \<le> mpi_rank (init_data w) \<and> mpi_rank (init_data w) \<le> LONG_MAX"

lemma format_message_short:
  assumes "os_fopen_null os (trace w)" and "format message args = Some out"
    and "length out \<le> DAAP_MAX_MSG_LEN" and "\<not> os_debug os"
  shows "format_message os message args w =
           Ret out (w\<lparr>trace := trace w @ [EvFopenNull True, EvFclose]\<rparr>)"
  using assms
  by (simp add: format_message_def null_device_length_def snprintf_str_def c_consts Let_def)

lemma format_message_long:
  assumes "\<And>h. os_fopen_null os h" and "format message args = Some out"
    and "DAAP_MAX_MSG_LEN < length out" and "int (length out) \<le> INT_MAX"
    and "Print_mutex U_log \<notin> held w" and "\<not> os_debug os"
  shows "wp (format_message os message args)
           (\<lambda>m w'. m = take DAAP_MAX_MSG_LEN out \<and> delivered (trace w') = delivered (trace w) \<and>
              init_data w' = init_data w \<and> held w' = held w) w"
proof -
  have "format ''Message is longer than DAAP_MAX_MSG_LEN: %d; truncating.''
          [IntArg (of_nat DAAP_MAX_MSG_LEN)] \<noteq> None"
    by (simp add: format.simps directive_def strip_prefix_def)
  then obtain s where "deformat ''Message is longer than DAAP_MAX_MSG_LEN: %d; truncating.''
          [IntArg (of_nat DAAP_MAX_MSG_LEN)] = Some s"
    by (auto simp: deformat_def)
  then show ?thesis
    using assms
    by (simp add: format_message_def null_device_length_def wp_eqs output_defs
        snprintf_str_def delivered_by_def Let_def)
qed

text \<open>
  The run of a writer up to the transport: the line, and the history when it is handed over.
\<close>

definition line_history :: "os \<Rightarrow> event list \<Rightarrow> event list" where
  "line_history os h =
     (let h1 = h @ [EvFopenNull True, EvFclose]
      in h1 @ [EvGettimeofday (os_gettimeofday os h1), EvAlloc max_size True])"

definition sent_line :: "os \<Rightarrow> string \<Rightarrow> string \<Rightarrow> string \<Rightarrow> int \<Rightarrow> string \<Rightarrow> event list \<Rightarrow> string" where
  "sent_line os app host cluster rank out h =
     snprintf_str max_size
       (influx_line app host cluster rank out (clock_ns os (h @ [EvFopenNull True, EvFclose])))"

lemma log_write_via_run:
  assumes "env_ok os" and "session_ready app host cluster w"
    and "format message args = Some out" and "length out \<le> DAAP_MAX_MSG_LEN"
    and "line = sent_line os app host cluster (mpi_rank (init_data w)) out (trace w)"
  shows "log_write_via send os message args w =
           seqC (send line) (seqC (emit (EvFree line)) (ret DAAP_SUCCESS))
             (w\<lparr>trace := line_history os (trace w)\<rparr>)"
proof -
  let ?h = "trace w @ [EvFopenNull True, EvFclose]"
  let ?tv = "os_gettimeofday os ?h"
  have build: "daapBuildInflux os (sint (millisec ?tv)) out
      (w\<lparr>trace := trace w @ [EvFopenNull True, EvFclose, EvGettimeofday ?tv]\<rparr>) =
      Ret (SPtr line) (w\<lparr>trace := line_history os (trace w)\<rparr>)"
    using daapBuildInflux_run [of os "w\<lparr>trace := trace w @ [EvFopenNull True, EvFclose, EvGettimeofday ?tv]\<rparr>"
        app host cluster "sint (millisec ?tv)" out] assms(1,2)
      clock_ns_range [OF assms(1), of ?h]
    by (simp add: session_ready_def clock_ns_def assms(5) sent_line_def line_history_def)
  show ?thesis
    using assms(1-4) by (simp add: log_write_via_def session_ready_def format_message_short
        getmillisectime_run build)
qed

lemma sent_line_length:
  "sent_line os app host cluster rank out h \<noteq> []"
  "int (length (sent_line os app host cluster rank out h)) \<le> INT_MAX"
  by (simp_all add: sent_line_def influx_line_def snprintf_str_def max_size_def c_consts
      influx_head_def)

lemma line_history_neutral [simp]:
  "delivered (line_history os h) = delivered h" "wire (line_history os h) = wire h"
  "open_fds (line_history os h) = open_fds h" "prefix h (line_history os h)"
  by (simp_all add: line_history_def Let_def delivered_by_def accepted_def)

text \<open>A client that logs a list of messages, one call after the other.\<close>

definition log_all :: "os \<Rightarrow> string list \<Rightarrow> (world, unit) cmd" where
  "log_all os ms = forC ms (\<lambda>m. daapLogWrite os m [])"

text \<open>
  A line that the collector reads as the given message of the given process, and the
  messages short enough for it: the head, the message and at most 31 further bytes fit the
  2047 bytes of the line.
\<close>

definition reads_as :: "string \<Rightarrow> string \<Rightarrow> string \<Rightarrow> int \<Rightarrow> string \<Rightarrow> string \<Rightarrow> bool" where
  "reads_as app host cluster rank m line \<longleftrightarrow>
     (\<exists>t. parse_influx line =
        Some \<lparr>measurement = ''daap'',
              tags = [(''appname'', app), (''hostname'', host), (''cluster'', cluster),
                      (''mpirank'', dec_int rank)],
              field_key = ''message'', field_text = m, time_ns = t\<rparr>)"

definition fits :: "string \<Rightarrow> string \<Rightarrow> string \<Rightarrow> int \<Rightarrow> string \<Rightarrow> bool" where
  "fits app host cluster rank m =
     (length (influx_head app host cluster rank) + length m + 31 < max_size)"

lemma clock_ns_digits:
  assumes "env_ok os"
  shows "length (dec_int (clock_ns os h)) \<le> 19"
proof -
  obtain s u where tv: "os_gettimeofday os h = (s, u)" by fastforce
  note clock = env_ok_clock [OF assms tv]
  have "0 \<le> clock_ns os h"
    using clock by (simp add: clock_ns_value [OF assms] tv)
  moreover have "nat (clock_ns os h) < 10 ^ Suc 18"
    using clock_ns_range(2) [OF assms, of h] by (simp add: c_consts)
  then have "length (dec (nat (clock_ns os h))) \<le> Suc 18" by (rule length_dec_bound)
  ultimately show ?thesis by (simp add: dec_int_def)
qed

lemma short_line_reads:
  assumes "env_ok os" and "tag_safe app" "tag_safe host" "tag_safe cluster" and "field_safe m"
    and "fits app host cluster rank m"
  shows "reads_as app host cluster rank m
           (snprintf_str max_size (influx_line app host cluster rank m (clock_ns os h)))"
proof -
  have "length (influx_line app host cluster rank m (clock_ns os h)) < max_size"
    using assms(6) clock_ns_digits [OF assms(1), of h] by (simp add: fits_def influx_line_def)
  then show ?thesis
    by (simp add: reads_as_def snprintf_str_fits influx_roundtrip assms)
qed

section \<open>The interface\<close>

locale reliable_transport =
  fixes send :: "string \<Rightarrow> (world, unit) cmd"
    and ready :: "world \<Rightarrow> bool"
  assumes ready_stable:
      "ready w \<Longrightarrow> init_data w' = init_data w \<Longrightarrow> held w' = held w \<Longrightarrow> ready w'"
    and send_delivers:
      "ready w \<Longrightarrow> s \<noteq> [] \<Longrightarrow> int (length s) \<le> INT_MAX \<Longrightarrow>
         wp (send s) (\<lambda>_ w'. delivered (trace w') = delivered (trace w) @ [s]) w"
    and send_keeps:
      "preserves init_data (send s)" "preserves held (send s)"
      "preserves daapInit_called (send s)"
begin

lemma send_effect:
  assumes "ready w" and "s \<noteq> []" and "int (length s) \<le> INT_MAX"
  obtains w' where "send s w = Ret () w'" and "delivered (trace w') = delivered (trace w) @ [s]"
    and "init_data w' = init_data w" and "held w' = held w"
    and "daapInit_called w' = daapInit_called w" and "ready w'"
proof -
  obtain u w' where run: "send s w = Ret u w'"
    and "delivered (trace w') = delivered (trace w) @ [s]"
    using send_delivers [OF assms] by (auto simp: wp_iff)
  moreover have "init_data w' = init_data w" "held w' = held w"
    "daapInit_called w' = daapInit_called w"
    by (rule preservesD [OF send_keeps(1) run], rule preservesD [OF send_keeps(2) run],
        rule preservesD [OF send_keeps(3) run])
  ultimately show ?thesis using that ready_stable assms(1) by simp
qed

lemma write_delivers:
  assumes "env_ok os" and "session_ready app host cluster w" and "ready w"
    and "format message args = Some out" and "length out \<le> DAAP_MAX_MSG_LEN"
  shows "wp (log_write_via send os message args)
           (\<lambda>r w'. r = DAAP_SUCCESS \<and> init_data w' = init_data w \<and>
              session_ready app host cluster w' \<and> ready w' \<and> held w' = held w \<and>
              (\<exists>h. delivered (trace w') = delivered (trace w) @
                 [snprintf_str max_size
                    (influx_line app host cluster (mpi_rank (init_data w)) out (clock_ns os h))])) w"
proof -
  let ?s = "sent_line os app host cluster (mpi_rank (init_data w)) out (trace w)"
  let ?w = "w\<lparr>trace := line_history os (trace w)\<rparr>"
  have "ready ?w" by (rule ready_stable [OF assms(3)]) simp_all
  then obtain v where send: "send ?s ?w = Ret () v"
    and v: "delivered (trace v) = delivered (trace ?w) @ [?s]" "init_data v = init_data ?w"
      "held v = held ?w" "daapInit_called v = daapInit_called ?w" "ready v"
    by (rule send_effect [OF _ sent_line_length]) blast
  have run: "log_write_via send os message args w =
      Ret DAAP_SUCCESS (v\<lparr>trace := trace v @ [EvFree ?s]\<rparr>)"
    using log_write_via_run [OF assms(1,2,4,5) refl] by (simp add: send)
  have "ready (v\<lparr>trace := trace v @ [EvFree ?s]\<rparr>)"
    by (rule ready_stable [OF \<open>ready v\<close>]) simp_all
  with run v assms(2) show ?thesis
    by (auto simp: wp_def session_ready_def delivered_by_def sent_line_def)
qed

text \<open>The raw writer, whose line is the formatted message behind the measurement name.\<close>

lemma raw_delivers:
  assumes "env_ok os" and "daapInit_called w" and "ready w"
    and "format message args = Some out" and "length out \<le> DAAP_MAX_MSG_LEN"
  shows "wp (log_raw_via send os message args)
           (\<lambda>r w'. r = 0 \<and> init_data w' = init_data w \<and> held w' = held w \<and>
              delivered (trace w') = delivered (trace w) @
                [snprintf_str max_size (''daap,'' @ out)]) w"
proof -
  let ?s = "snprintf_str max_size (''daap,'' @ out)"
  let ?w = "w\<lparr>trace := trace w @ [EvFopenNull True, EvFclose, EvAlloc max_size True]\<rparr>"
  have line: "?s \<noteq> []" "int (length ?s) \<le> INT_MAX"
    by (simp_all add: snprintf_str_def max_size_def c_consts)
  have "ready ?w" by (rule ready_stable [OF assms(3)]) simp_all
  then obtain v where send: "send ?s ?w = Ret () v"
    and v: "delivered (trace v) = delivered (trace ?w) @ [?s]" "init_data v = init_data ?w"
      "held v = held ?w"
    by (rule send_effect [OF _ line])
  have "log_raw_via send os message args w = Ret 0 (v\<lparr>trace := trace v @ [EvFree ?s]\<rparr>)"
    using assms(1,2,4,5) send
    by (simp add: log_raw_via_def format_message_short daapBuildRawInflux_run)
  with v show ?thesis by (simp add: wp_def delivered_by_def)
qed

lemma writes_deliver:
  assumes "env_ok os" and "tag_safe app" "tag_safe host" "tag_safe cluster"
    and "session_ready app host cluster w" and "ready w"
    and "\<forall>m \<in> set ms. plain m \<and> field_safe m \<and> fits app host cluster (mpi_rank (init_data w)) m"
  shows "wp (forC ms (\<lambda>m. log_write_via send os m []))
           (\<lambda>_ w'. \<exists>lines. delivered (trace w') = delivered (trace w) @ lines \<and>
              list_all2 (reads_as app host cluster (mpi_rank (init_data w))) ms lines) w"
  using assms(5-)
proof (induction ms arbitrary: w)
  case Nil
  then show ?case by (simp add: wp_eqs)
next
  case (Cons m ms)
  let ?rank = "mpi_rank (init_data w)"
  from Cons.prems have m: "plain m" "field_safe m" "fits app host cluster ?rank m" by simp_all
  then have "length m \<le> DAAP_MAX_MSG_LEN" by (simp add: fits_def c_consts max_size_def)
  from write_delivers [OF assms(1) Cons.prems(1,2) format_plain [OF m(1), of "[]"] this]
  obtain r v h where run: "log_write_via send os m [] w = Ret r v"
    and v: "init_data v = init_data w" "session_ready app host cluster v" "ready v"
    and line: "delivered (trace v) = delivered (trace w) @
      [snprintf_str max_size (influx_line app host cluster ?rank m (clock_ns os h))]"
    by (auto simp: wp_iff)
  have "reads_as app host cluster ?rank m
      (snprintf_str max_size (influx_line app host cluster ?rank m (clock_ns os h)))"
    by (rule short_line_reads [OF assms(1-4) m(2,3)])
  moreover have "wp (forC ms (\<lambda>m. log_write_via send os m []))
      (\<lambda>_ w'. \<exists>lines. delivered (trace w') = delivered (trace v) @ lines \<and>
         list_all2 (reads_as app host cluster ?rank) ms lines) v"
    using Cons.IH [OF v(2,3)] Cons.prems(3) v(1) by simp
  ultimately show ?case
    using run line by (fastforce simp: wp_iff)
qed

end

section \<open>The two transports\<close>

lemma transmit_syslog:
  "transport_type (init_data w) = SYSLOG \<Longrightarrow>
     transmit os s w = Ret () (w\<lparr>trace := trace w @ [EvSyslog (level (init_data w)) s]\<rparr>)"
  by (simp add: transmit_def)

interpretation syslog: reliable_transport
  "transmit os" "\<lambda>w. transport_type (init_data w) = SYSLOG" for os
proof unfold_locales
  fix w :: world and s :: string
  show "transport_type (init_data w) = SYSLOG \<Longrightarrow>
      wp (transmit os s) (\<lambda>_ w'. delivered (trace w') = delivered (trace w) @ [s]) w"
    by (simp add: wp_def transmit_syslog)
qed (simp_all add: frame transmit_held)

interpretation tls: reliable_transport
  "transmit os"
  "\<lambda>w. transport_type (init_data w) = TCP \<and> Write_mutex \<notin> held w \<and> tls_up os \<and>
     writes_whole os \<and> \<not> os_debug os" for os
proof unfold_locales
  fix w :: world and s :: string
  assume "transport_type (init_data w) = TCP \<and> Write_mutex \<notin> held w \<and> tls_up os \<and>
      writes_whole os \<and> \<not> os_debug os"
    and "s \<noteq> []" and "int (length s) \<le> INT_MAX"
  moreover from this have "wp (daapTCPLogWrite os s (int (length s)))
      (\<lambda>_ w'. delivered (trace w') = delivered (trace w) @ [s]) w"
    using tcp_write_effect [of os w s] by (auto elim: wp_mono)
  ultimately show "wp (transmit os s) (\<lambda>_ w'. delivered (trace w') = delivered (trace w) @ [s]) w"
    by (simp add: transmit_def wp_eqs)
qed (simp_all add: frame transmit_held)

section \<open>What a client may rely on\<close>

lemma log_all_via: "log_all os ms = forC ms (\<lambda>m. log_write_via (transmit os) os m [])"
  by (simp add: log_all_def daapLogWrite_def)

text \<open>
  C2: In an initialised process with a TLS connection that works (every socket, connection and
  handshake succeeds, \<open>SSL_write\<close> takes whole buffers), in a release build with memory, null device
  and a clock within 64 bits of nanoseconds, with \<open>write_mutex\<close> free and names of application,
  host and cluster that are not empty and free of separators: logging a list of messages that have
  no percent sign, quote or backslash and fit the 2048-byte line delivers exactly one line per
  message, in the order of the calls, and the collector reads every line back as the message
  with the application, host, cluster and rank of the process.
\<close>
theorem tcp_session_delivers:
  assumes "env_ok os" and "tls_up os" and "writes_whole os"
    and "tag_safe app" "tag_safe host" "tag_safe cluster"
    and "session_ready app host cluster w" and "transport_type (init_data w) = TCP"
    and "Write_mutex \<notin> held w"
    and "\<forall>m \<in> set ms. plain m \<and> field_safe m \<and> fits app host cluster (mpi_rank (init_data w)) m"
  shows "wp (log_all os ms)
           (\<lambda>_ w'. \<exists>lines. delivered (trace w') = delivered (trace w) @ lines \<and>
              list_all2 (reads_as app host cluster (mpi_rank (init_data w))) ms lines) w"
  unfolding log_all_via
  by (rule tls.writes_deliver [OF assms(1,4,5,6,7) _ assms(10)]) (simp add: assms)

text \<open>A process that has been initialised, for the witnesses.\<close>

definition world_ready :: "transport \<Rightarrow> world" where
  "world_ready t =
     world0\<lparr>daapInit_called := True,
            init_data := init_data0\<lparr>appname := SPtr ''vpic'', hostname := SPtr ''nid00042'',
              cluster_name := SPtr ''trinity'', mpi_rank := 7, transport_type := t\<rparr>\<rparr>"

lemma world_ready_simps [simp]:
  "session_ready ''vpic'' ''nid00042'' ''trinity'' (world_ready t)"
  "transport_type (init_data (world_ready t)) = t"
  "mpi_rank (init_data (world_ready t)) = 7"
  "held (world_ready t) = {}" "trace (world_ready t) = []"
  "daapInit_called (world_ready t)" "level (init_data (world_ready t)) = 0"
  by (simp_all add: session_ready_def world_ready_def world0_def init_data0_def c_consts)

lemma env_ok_good [simp]: "env_ok os_good"
  by (simp add: env_ok_def os_good_def)

lemma sample_tags [simp]:
  "tag_safe ''vpic''" "tag_safe ''nid00042''" "tag_safe ''trinity''"
  "field_safe ''step 1''" "field_safe ''step 2''" "plain ''step 1''" "plain ''step 2''"
  "fits ''vpic'' ''nid00042'' ''trinity'' 7 ''step 1''"
  "fits ''vpic'' ''nid00042'' ''trinity'' 7 ''step 2''"
  by (simp_all add: tag_safe_def field_safe_def plain_def fits_def dquote_def influx_head_def
      dec_int_def dec.simps max_size_def)

theorem tcp_session_delivers_witness:
  "wp (log_all os_good [''step 1'', ''step 2''])
     (\<lambda>_ w'. \<exists>lines. delivered (trace w') = lines \<and>
        list_all2 (reads_as ''vpic'' ''nid00042'' ''trinity'' 7) [''step 1'', ''step 2''] lines)
     (world_ready TCP)"
  using tcp_session_delivers [of os_good "''vpic''" "''nid00042''" "''trinity''" "world_ready TCP"
      "[''step 1'', ''step 2'']"]
  by simp

text \<open>
  The same promise holds for the syslog transport, with no assumption on the network.
\<close>
lemma syslog_session_delivers:
  assumes "env_ok os" and "tag_safe app" "tag_safe host" "tag_safe cluster"
    and "session_ready app host cluster w" and "transport_type (init_data w) = SYSLOG"
    and "\<forall>m \<in> set ms. plain m \<and> field_safe m \<and> fits app host cluster (mpi_rank (init_data w)) m"
  shows "wp (log_all os ms)
           (\<lambda>_ w'. \<exists>lines. delivered (trace w') = delivered (trace w) @ lines \<and>
              list_all2 (reads_as app host cluster (mpi_rank (init_data w))) ms lines) w"
  unfolding log_all_via
  by (rule syslog.writes_deliver [OF assms(1-5) _ assms(7)]) (simp add: assms)

lemma syslog_session_delivers_witness:
  "wp (log_all os_good [''step 1'', ''step 2''])
     (\<lambda>_ w'. \<exists>lines. delivered (trace w') = lines \<and>
        list_all2 (reads_as ''vpic'' ''nid00042'' ''trinity'' 7) [''step 1'', ''step 2''] lines)
     (world_ready SYSLOG)"
  using syslog_session_delivers [of os_good "''vpic''" "''nid00042''" "''trinity''"
      "world_ready SYSLOG" "[''step 1'', ''step 2'']"]
  by simp

text \<open>
  \<open>daapLogWrite\<close> never tells its caller that a message was lost: whenever it returns, the
  result is \<open>DAAP_SUCCESS\<close> in an initialised process, whatever the transport did, and
  \<open>DAAP_ERROR\<close> otherwise.
\<close>
lemma log_write_result:
  "wlp (daapLogWrite os message args)
     (\<lambda>r w'. r = (if daapInit_called w then DAAP_SUCCESS else DAAP_ERROR)) w"
  by (rule log_write_code)

text \<open>
  In an uninitialised process both writers touch neither memory nor transport: they set
  \<open>errno\<close> to \<open>EPERM\<close> and return \<open>DAAP_ERROR\<close>; \<open>daapLogRawWrite\<close> also prints a diagnostic.
\<close>
lemma log_write_uninitialised:
  assumes "\<not> daapInit_called w"
  shows "daapLogWrite os message args w = Ret DAAP_ERROR (w\<lparr>errno := EPERM\<rparr>) \<and>
         daapLogRawWrite os message args w =
           Ret DAAP_ERROR (w\<lparr>errno := EPERM,
             trace := trace w @ [EvPerror ''Initialize with daapInit() before calling daapLogRawWrite()'']\<rparr>)"
  using assms by (simp add: log_defs log_write_via_def log_raw_via_def)

text \<open>
  C31: With the collector down (sockets can be made, but every \<open>connect\<close> answers -1), in an
  initialised TCP process of a release build with memory, null device and a 64-bit clock, and with \<open>write_mutex\<close> free,
  \<open>daapLogWrite\<close> of a message without percent sign of at most \<open>DAAP_MAX_MSG_LEN\<close> bytes returns
  \<open>DAAP_SUCCESS\<close> although no line was delivered and no byte sent, and one more socket stays open.
\<close>
theorem log_write_silent_loss:
  assumes "env_ok os" and "\<And>h. 0 \<le> os_socket os h" and "\<And>h. os_connect os h = -1"
    and "session_ready app host cluster w" and "transport_type (init_data w) = TCP"
    and "Write_mutex \<notin> held w" and "plain m" and "length m \<le> DAAP_MAX_MSG_LEN"
  shows "wp (daapLogWrite os m [])
           (\<lambda>r w'. r = DAAP_SUCCESS \<and> delivered (trace w') = delivered (trace w) \<and>
              wire (trace w') = wire (trace w) \<and>
              length (open_fds (trace w')) = Suc (length (open_fds (trace w)))) w"
proof -
  have fd: "\<not> os_socket os h < 0" for h using assms(2) [of h] by simp
  show ?thesis
    using assms(3,5,6) env_okD(3) [OF assms(1)] log_write_via_run [OF assms(1,4) format_plain [OF assms(7)] assms(8) refl]
    by (simp add: daapLogWrite_def wp_def transmit_def daapTCPLogWrite_def daapTCPConnect_def fd
        delivered_by_def accepted_def DAAP_ERROR_def)
qed

theorem log_write_silent_loss_witness:
  "wp (daapLogWrite (os_good\<lparr>os_connect := (\<lambda>_. -1)\<rparr>) ''step 1'' [])
     (\<lambda>r w'. r = 0 \<and> delivered (trace w') = [] \<and> wire (trace w') = [] \<and>
        length (open_fds (trace w')) = 1) (world_ready TCP)"
  using log_write_silent_loss [of "os_good\<lparr>os_connect := (\<lambda>_. -1)\<rparr>" "''vpic''" "''nid00042''"
      "''trinity''" "world_ready TCP" "''step 1''"]
  by (simp add: env_ok_def os_good_def c_consts open_fds_def)

text \<open>
  C32: A message far below \<open>DAAP_MAX_MSG_LEN\<close> can already be too long for the 2048-byte line
  buffer. In a release build with memory, null device and a clock within 64 bits of nanoseconds, over
  syslog or a TLS connection that works (handshakes succeed, writes are whole, \<open>write_mutex\<close> is free),
  with tag-safe names, and for a message without percent sign, quote or backslash: when the head
  of the line and the message reach the end of the buffer, the call still returns success and
  delivers the first 2047 bytes of a line, whose field has no closing quote, and which the reader
  \<open>parse_influx\<close> rejects. (A message with a quote of its own is not covered: its cut line might be
  read as another message.)
\<close>
theorem long_message_unreadable:
  assumes "env_ok os" and "tag_safe app" "tag_safe host" "tag_safe cluster"
    and "session_ready app host cluster w"
    and "transport_type (init_data w) = SYSLOG \<or>
         transport_type (init_data w) = TCP \<and> tls_up os \<and> writes_whole os \<and> Write_mutex \<notin> held w"
    and "plain m" and "field_safe m" and "length m \<le> DAAP_MAX_MSG_LEN"
    and "max_size \<le> length (influx_head app host cluster (mpi_rank (init_data w))) + length m + 11"
  shows "wp (daapLogWrite os m [])
           (\<lambda>r w'. r = DAAP_SUCCESS \<and>
              (\<exists>line. delivered (trace w') = delivered (trace w) @ [line] \<and>
                 length line = max_size - 1 \<and> parse_influx line = None)) w"
proof -
  let ?line = "\<lambda>h. snprintf_str max_size
      (influx_line app host cluster (mpi_rank (init_data w)) m (clock_ns os h))"
  have "parse_influx (?line h) = None" for h
    unfolding snprintf_str_def using assms by (intro influx_cut) simp_all
  moreover have "length (?line h) = max_size - 1" for h
    using assms(10) dec_int_nonempty [of "clock_ns os h"]
    by (simp add: snprintf_str_def influx_line_def)
  moreover have "wp (daapLogWrite os m []) (\<lambda>r w'. r = DAAP_SUCCESS \<and>
      (\<exists>h. delivered (trace w') = delivered (trace w) @ [?line h])) w"
    using assms(6)
  proof
    assume "transport_type (init_data w) = SYSLOG"
    from syslog.write_delivers [OF assms(1,5) this format_plain [OF assms(7)] assms(9)]
    show ?thesis unfolding daapLogWrite_def by (rule wp_mono) blast
  next
    assume "transport_type (init_data w) = TCP \<and> tls_up os \<and> writes_whole os \<and> Write_mutex \<notin> held w"
    then have "transport_type (init_data w) = TCP \<and> Write_mutex \<notin> held w \<and> tls_up os \<and>
        writes_whole os \<and> \<not> os_debug os" using assms(1) by simp
    from tls.write_delivers [OF assms(1,5) this format_plain [OF assms(7)] assms(9)]
    show ?thesis unfolding daapLogWrite_def by (rule wp_mono) blast
  qed
  ultimately show ?thesis by (auto elim!: wp_mono)
qed

theorem long_message_unreadable_witness:
  "wp (daapLogWrite os_good (replicate 3000 CHR ''x'') [])
     (\<lambda>r w'. r = 0 \<and> (\<exists>line. delivered (trace w') = [line] \<and> length line = 2047 \<and>
        parse_influx line = None)) (world_ready TCP)"
  using long_message_unreadable [of os_good "''vpic''" "''nid00042''" "''trinity''"
      "world_ready TCP" "replicate 3000 CHR ''x''"]
  by (simp add: plain_def field_safe_def dquote_def c_consts max_size_def)

end
