(* ===== verification/Init.thy ===== *)
theory Init
  imports Delivery
begin

text \<open>
  \<open>src/daap_init.c\<close>: the host name, \<open>daapInit\<close>, \<open>daapFinalize\<close>, the rank and the Fortran
  entry points. \<open>daapInit\<close> is split where the source has its paragraphs: the fields filled
  under the mutex (\<open>init_locked\<close>), the rank found in the environment (\<open>find_rank\<close>), the job
  start message. The lemmas give the bounds of the host name, the state that a first call
  establishes, what repeated calls do, and the effect of \<open>daapFinalize\<close> on the pointers of
  \<open>init_data\<close>.
\<close>

section \<open>The host name\<close>

definition NUM_TRIES_FOR_NULL_HOSTNAME :: nat where
  "NUM_TRIES_FOR_NULL_HOSTNAME = 8"

text \<open>
  The loop of \<open>daap_gethostname\<close>, with the tries that are left and the size of the buffer.
  The answer of \<open>gethostname\<close> is its return value, \<open>errno\<close> and the bytes it left in the
  buffer; the terminator in the last byte cuts them to \<open>length - 1\<close>. The result is the
  return value and what \<open>*hostname\<close> is set to.
\<close>

fun gethostname_tries :: "os \<Rightarrow> nat \<Rightarrow> nat \<Rightarrow> (world, int \<times> strptr) cmd" where
  "gethostname_tries os 0 len =
     seqC (emit (EvFree []))
    (ret (DAAP_ERROR, SNull))"
| "gethostname_tries os (Suc tries) len =
     bindC (query (os_gethostname os) (EvGethostname (len - 1))) (\<lambda>(ret_val, err, raw).
     let buf = take (len - 1) (cstr raw);
         count = length buf;
         try_again =
           bindC (alloc os (len * 2)) (\<lambda>ok.
           if \<not> ok then ret (DAAP_ERROR_OUT_OF_MEMORY, SNull)
           else gethostname_tries os tries (len * 2))
     in
     if ret_val = 0 then
       if 0 < count \<and> count < len - 1 then ret (DAAP_SUCCESS, SPtr buf)
       else if \<not> (count = 0 \<or> count = len - 1) then
         seqC (emit (EvFree buf))
        (ret (DAAP_ERROR, SNull))
       else try_again
     else
       seqC (set_errno err)
      (if \<not> (err = EINVAL \<or> err = ENAMETOOLONG) then
         seqC (emit (EvFree buf))
        (ret (DAAP_ERROR_IN_ERRNO, SNull))
       else try_again))"

definition daap_gethostname :: "os \<Rightarrow> (world, int \<times> strptr) cmd" where
  "daap_gethostname os =
     bindC (alloc os LOCAL_MAXHOSTNAMELEN) (\<lambda>ok.
     if \<not> ok then ret (DAAP_ERROR_OUT_OF_MEMORY, SNull)
     else gethostname_tries os NUM_TRIES_FOR_NULL_HOSTNAME LOCAL_MAXHOSTNAMELEN)"

section \<open>daapInit\<close>

text \<open>\<open>strdup\<close> and the \<open>calloc\<close>--\<open>strcpy\<close> pairs.\<close>

definition strdup :: "os \<Rightarrow> string \<Rightarrow> (world, strptr) cmd" where
  "strdup os s = bindC (alloc os (length s + 1)) (\<lambda>ok. ret (if ok then SPtr s else SNull))"

definition calloc_strcpy :: "os \<Rightarrow> string \<Rightarrow> (world, strptr) cmd" where
  "calloc_strcpy os s =
     bindC (alloc os (length s + 1)) (\<lambda>ok.
     if ok then ret (SPtr s) else faultC NullDeref)"

definition init_hostname :: "os \<Rightarrow> (world, int) cmd" where
  "init_hostname os =
     (case os_getenv os ''SLURMD_NODENAME'' of
        Some name \<Rightarrow>
          bindC (strdup os name) (\<lambda>p.
          seqC (set_init_data (\<lambda>d. d\<lparr>hostname := p\<rparr>))
         (ret DAAP_SUCCESS))
      | None \<Rightarrow>
          bindC (daap_gethostname os) (\<lambda>(ret_val, p).
          if ret_val \<noteq> DAAP_SUCCESS then ret ret_val
          else
            seqC (set_init_data (\<lambda>d. d\<lparr>hostname := p\<rparr>))
           (ret ret_val)))"

definition init_cluster :: "os \<Rightarrow> (world, unit) cmd" where
  "init_cluster os =
     (case os_getenv os ''SLURM_CLUSTER_NAME'' of
        Some name \<Rightarrow>
          bindC (calloc_strcpy os name) (\<lambda>p.
          set_init_data (\<lambda>d. d\<lparr>cluster_name := p\<rparr>))
      | None \<Rightarrow>
          bindC (alloc os 1) (\<lambda>ok.
          set_init_data (\<lambda>d. d\<lparr>cluster_name := (if ok then SPtr [] else SNull)\<rparr>)))"

text \<open>
  The internal header defines \<open>DEBUG\<close> when the build does not, so \<open>#if defined DEBUG\<close> always
  takes its first branch: \<open>openlog\<close> logs to the error stream too and gets \<open>msg_level\<close> as the
  facility.
\<close>

definition init_transport :: "os \<Rightarrow> int \<Rightarrow> transport \<Rightarrow> (world, unit) cmd" where
  "init_transport os msg_level tt =
     (if tt = SYSLOG then
        bindC (asks init_data) (\<lambda>d.
        bindC (deref (appname d)) (\<lambda>app.
        emit (EvOpenlog app True msg_level)))
      else if tt = TCP then bindC (daapInitializeSSL os) (\<lambda>r. ret ())
      else ret ())"

text \<open>
  The part under \<open>init_mutex\<close>, and its end once the host name is known: the return value,
  and whether the call goes on.
\<close>

definition init_rest :: "os \<Rightarrow> int \<Rightarrow> transport \<Rightarrow> int \<Rightarrow> (world, int \<times> bool) cmd" where
  "init_rest os msg_level tt ret_val =
     (if ret_val \<noteq> DAAP_SUCCESS then
        seqC (emit (EvPerror ''error in call to gethostname, daapInit failed''))
       (ret (ret_val, False))
      else
        bindC (asks init_data) (\<lambda>d.
        bindC (deref (hostname d)) (\<lambda>host.
        seqC (update (\<lambda>w. w\<lparr>daap_hostname := take (LOCAL_MAXHOSTNAMELEN - 1) host\<rparr>))
       (seqC (init_cluster os)
       (seqC (init_transport os msg_level tt)
       (seqC (update (\<lambda>w. w\<lparr>daapInit_called := True\<rparr>))
       (ret (ret_val, True))))))))"

definition init_locked :: "os \<Rightarrow> string \<Rightarrow> int \<Rightarrow> int \<Rightarrow> transport \<Rightarrow> (world, int \<times> bool) cmd" where
  "init_locked os app_name msg_level agg tt =
     bindC (asks daapInit_called) (\<lambda>called.
     if called then ret (DAAP_SUCCESS, False)
     else
       bindC (calloc_strcpy os app_name) (\<lambda>app.
       seqC (set_init_data (\<lambda>d. d\<lparr>appname := app, agg_val := agg, transport_type := tt\<rparr>))
      (bindC (query (os_time os) EvTime) (\<lambda>now.
       seqC (set_init_data (\<lambda>d. d\<lparr>start_time := word_of_int now, mpi_rank := 0\<rparr>))
      (bindC (init_hostname os) (init_rest os msg_level tt))))))"

definition decouple_off :: "os \<Rightarrow> bool" where
  "decouple_off os =
     (case os_getenv os ''DAAP_DECOUPLE'' of None \<Rightarrow> True | Some v \<Rightarrow> v = ''0'')"

definition take_rank :: "string \<Rightarrow> (world, unit) cmd" where
  "take_rank v =
     seqC (if v = ''0'' then update (\<lambda>w. w\<lparr>daapRank_zero := True\<rparr>) else ret ())
    (case atoi v of
       None \<Rightarrow> faultC IntOverflow
     | Some r \<Rightarrow> set_init_data (\<lambda>d. d\<lparr>mpi_rank := r\<rparr>))"

definition find_rank :: "os \<Rightarrow> (world, unit) cmd" where
  "find_rank os =
     (case os_getenv os ''OMPI_COMM_WORLD_RANK'' of
        Some v \<Rightarrow> take_rank v
      | None \<Rightarrow>
          (case os_getenv os ''PMI_RANK'' of
             Some v \<Rightarrow> take_rank v
           | None \<Rightarrow>
               (case os_getenv os ''PMIX_RANK'' of
                  Some v \<Rightarrow> take_rank v
                | None \<Rightarrow>
                    (if decouple_off os then
                       seqC (DEBUG_OUTPUT os U_init
                               ''DAAP cannot determine which task is rank 0. Assuming serial run.'' [])
                      (update (\<lambda>w. w\<lparr>daapRank_zero := True\<rparr>))
                     else ret ()))))"

definition daapInit :: "os \<Rightarrow> string \<Rightarrow> int \<Rightarrow> int \<Rightarrow> transport \<Rightarrow> (world, int) cmd" where
  "daapInit os app_name msg_level agg tt =
     seqC (lock Init_mutex)
    (bindC (init_locked os app_name msg_level agg tt) (\<lambda>(ret_val, go_on).
     seqC (unlock Init_mutex)
    (if \<not> go_on then ret ret_val
     else if ret_val < 0 then
       seqC (emit (EvPerror ''Fatal error''))
      (exitC 1)
     else
       seqC (find_rank os)
      (bindC (asks daapRank_zero) (\<lambda>zero.
       if zero \<and> decouple_off os then
         bindC (daapLogJobStart os) (\<lambda>r.
         ret (ret_val + r))
       else ret ret_val)))))"

section \<open>daapFinalize and the rank\<close>

definition freed :: "strptr \<Rightarrow> strptr" where
  "freed p = (case p of SNull \<Rightarrow> SNull | _ \<Rightarrow> SFreed)"

definition free_init_data :: "(world, unit) cmd" where
  "free_init_data =
     bindC (asks init_data) (\<lambda>d.
     seqC (free_str (hostname d))
    (seqC (set_init_data (\<lambda>d. d\<lparr>hostname := freed (hostname d)\<rparr>))
    (seqC (free_str (appname d))
    (seqC (set_init_data (\<lambda>d. d\<lparr>appname := freed (appname d)\<rparr>))
    (seqC (free_str (cluster_name d))
    (set_init_data (\<lambda>d. d\<lparr>cluster_name := freed (cluster_name d)\<rparr>)))))))"

definition daapFinalize :: "os \<Rightarrow> (world, int) cmd" where
  "daapFinalize os =
     seqC (lock Finalize_mutex)
    (bindC (asks (\<lambda>w. os_indet os (trace w))) (\<lambda>indeterminate.
     bindC (asks daapRank_zero) (\<lambda>zero.
     bindC (if zero \<and> decouple_off os then daapLogJobEnd os else ret indeterminate) (\<lambda>ret_val.
     seqC daapShutdownSSL
    (seqC free_init_data
    (seqC (unlock Finalize_mutex)
    (ret ret_val)))))))"

definition daapSetRank :: "int \<Rightarrow> (world, unit) cmd" where
  "daapSetRank rank = set_init_data (\<lambda>d. d\<lparr>mpi_rank := rank\<rparr>)"

definition daapinit_F :: "os \<Rightarrow> string \<Rightarrow> int \<Rightarrow> (world, unit) cmd" where
  "daapinit_F os app_name len =
     bindC (fortran_string app_name len) (\<lambda>s.
     bindC (daapInit os s 0 DAAP_AGG_OFF TCP) (\<lambda>r. ret ()))"

definition daapsetrank_F :: "int \<Rightarrow> (world, unit) cmd" where
  "daapsetrank_F rank = daapSetRank rank"

definition daapfinalize_F :: "os \<Rightarrow> (world, unit) cmd" where
  "daapfinalize_F os = bindC (daapFinalize os) (\<lambda>r. ret ())"

section \<open>Frames\<close>

lemma gethostname_frame [frame]:
  assumes "\<And>w t. f (w\<lparr>trace := t\<rparr>) = f w" "\<And>w t. f (w\<lparr>errno := t\<rparr>) = f w"
  shows "preserves f (gethostname_tries os n len)" "preserves f (daap_gethostname os)"
proof -
  show tries: "preserves f (gethostname_tries os n len)" for n len
  proof (induction n arbitrary: len)
    case (Suc n)
    show ?case unfolding gethostname_tries.simps Let_def by (intro frame assms Suc)
  qed (simp, intro frame assms)
  then show "preserves f (daap_gethostname os)"
    unfolding daap_gethostname_def by (intro frame assms tries)
qed

lemma init_pieces_held:
  "preserves held (init_hostname os)" "preserves held (init_cluster os)"
  "preserves held (init_transport os l tt)" "preserves held (find_rank os)"
  unfolding init_hostname_def init_cluster_def init_transport_def find_rank_def strdup_def
    calloc_strcpy_def take_rank_def
  by (intro output_held daapInitializeSSL_held frame same_onI; simp)+

lemma init_locked_held: "preserves held (init_locked os a l g tt)"
  unfolding init_locked_def init_rest_def calloc_strcpy_def
  by (intro frame same_onI init_pieces_held; simp)

section \<open>The host name has been read completely\<close>

definition hostname_calls :: "event list \<Rightarrow> nat" where
  "hostname_calls es = length (filter (\<lambda>e. case e of EvGethostname _ _ \<Rightarrow> True | _ \<Rightarrow> False) es)"

lemma hostname_calls_simps [simp]:
  "hostname_calls (es @ fs) = hostname_calls es + hostname_calls fs"
  "hostname_calls [] = 0"
  "hostname_calls (EvGethostname n r # es) = Suc (hostname_calls es)"
  "hostname_calls (EvAlloc n b # es) = hostname_calls es"
  "hostname_calls (EvFree s # es) = hostname_calls es"
  by (simp_all add: hostname_calls_def)

text \<open>What \<open>daap_gethostname\<close> promises, with the largest buffer that \<open>n\<close> tries reach.\<close>

definition hostname_post :: "os \<Rightarrow> nat \<Rightarrow> nat \<Rightarrow> int \<times> strptr \<Rightarrow> bool" where
  "hostname_post os n len res \<longleftrightarrow>
     (case res of
        (r, p) \<Rightarrow>
          (r = DAAP_SUCCESS \<and>
             (\<exists>h e raw. os_gethostname os h = (0, e, raw) \<and> p = SPtr (cstr raw) \<and> cstr raw \<noteq> [] \<and>
                2 * (length (cstr raw) + 1) < len * 2 ^ n)
           \<or> r \<in> {DAAP_ERROR, DAAP_ERROR_OUT_OF_MEMORY, DAAP_ERROR_IN_ERRNO} \<and> p = SNull))"

lemma hostname_post_error:
  "hostname_post os n len (DAAP_ERROR, SNull)"
  "hostname_post os n len (DAAP_ERROR_OUT_OF_MEMORY, SNull)"
  "hostname_post os n len (DAAP_ERROR_IN_ERRNO, SNull)"
  by (simp_all add: hostname_post_def)

lemma gethostname_tries_total:
  "wp (gethostname_tries os n len)
     (\<lambda>res w'. hostname_post os n len res \<and>
        hostname_calls (trace w') \<le> hostname_calls (trace w) + n) w"
proof (induction n arbitrary: len w)
  case 0
  show ?case by (simp add: wp_def hostname_post_error)
next
  case (Suc n)
  obtain r e raw where ans: "os_gethostname os (trace w) = (r, e, raw)"
    by (cases "os_gethostname os (trace w)") auto
  let ?post = "\<lambda>res w'. hostname_post os (Suc n) len res \<and>
        hostname_calls (trace w') \<le> hostname_calls (trace w) + Suc n"
  have again: "wp (bindC (alloc os (len * 2)) (\<lambda>ok.
           if \<not> ok then ret (DAAP_ERROR_OUT_OF_MEMORY, SNull)
           else gethostname_tries os n (len * 2))) ?post v"
    if "hostname_calls (trace v) \<le> Suc (hostname_calls (trace w))" for v
  proof -
    have "wp (gethostname_tries os n (len * 2)) ?post (v\<lparr>trace := trace v @ [EvAlloc (len * 2) True]\<rparr>)"
      by (rule wp_mono [OF Suc]) (use that in \<open>auto simp: hostname_post_def algebra_simps\<close>)
    with that show ?thesis
      by (simp add: wp_eqs alloc_def hostname_post_error)
  qed
  have ok: "hostname_post os (Suc n) len (DAAP_SUCCESS, SPtr (take (len - 1) (cstr raw)))"
    if "r = 0" "0 < length (take (len - 1) (cstr raw))" "length (take (len - 1) (cstr raw)) < len - 1"
  proof -
    from that have "length (cstr raw) + 1 < len" and raw: "take (len - 1) (cstr raw) = cstr raw"
      by (simp_all add: min_def split: if_splits)
    have "len * 1 \<le> len * 2 ^ n" by (intro mult_le_mono2) simp
    with \<open>length (cstr raw) + 1 < len\<close> have "length (cstr raw) + 1 < len * 2 ^ n" by linarith
    then have "2 * (length (cstr raw) + 1) < len * 2 ^ Suc n" by simp
    with that ans raw show ?thesis by (auto simp: hostname_post_def)
  qed
  show ?case
    unfolding gethostname_tries.simps wp_bind Let_def
    using ok again
    by (auto simp: wp_eqs ans hostname_post_error)
qed

lemma daap_gethostname_post:
  "wp (daap_gethostname os)
     (\<lambda>res w'. hostname_post os 8 257 res \<and>
        hostname_calls (trace w') \<le> hostname_calls (trace w) + 8) w"
proof -
  let ?w = "w\<lparr>trace := trace w @ [EvAlloc LOCAL_MAXHOSTNAMELEN True]\<rparr>"
  have "wp (gethostname_tries os 8 257)
      (\<lambda>res w'. hostname_post os 8 257 res \<and>
         hostname_calls (trace w') \<le> hostname_calls (trace ?w) + 8) ?w"
    by (rule gethostname_tries_total)
  then show ?thesis
    by (simp add: daap_gethostname_def wp_eqs alloc_def hostname_post_error
        NUM_TRIES_FOR_NULL_HOSTNAME_def LOCAL_MAXHOSTNAMELEN_def)
qed


section \<open>A first call of daapInit\<close>

text \<open>
  The environment of a first call: a release build, memory, a node name from the resource manager, and a
  certificate directory, if any, that is not of the one length that overruns its array.
\<close>

definition init_env :: "os \<Rightarrow> string \<Rightarrow> bool" where
  "init_env os host \<longleftrightarrow>
     \<not> os_debug os \<and> (\<forall>h. os_alloc os h) \<and> os_getenv os ''SLURMD_NODENAME'' = Some host \<and>
     (\<forall>dir. os_getenv os DAAP_CERTS_ENVVAR = Some dir \<longrightarrow> length dir \<noteq> 4080)"

definition env_cluster :: "os \<Rightarrow> string" where
  "env_cluster os = (case os_getenv os ''SLURM_CLUSTER_NAME'' of None \<Rightarrow> [] | Some c \<Rightarrow> c)"

definition env_rank :: "os \<Rightarrow> string option" where
  "env_rank os =
     (case os_getenv os ''OMPI_COMM_WORLD_RANK'' of
        Some v \<Rightarrow> Some v
      | None \<Rightarrow>
          (case os_getenv os ''PMI_RANK'' of
             Some v \<Rightarrow> Some v
           | None \<Rightarrow> os_getenv os ''PMIX_RANK''))"

lemma find_rank_env:
  assumes "\<not> os_debug os"
  shows "find_rank os =
     (case env_rank os of
        Some v \<Rightarrow> take_rank v
      | None \<Rightarrow> if decouple_off os then update (\<lambda>w. w\<lparr>daapRank_zero := True\<rparr>) else ret ())"
  using assms by (simp add: find_rank_def env_rank_def seqC_ret split: option.split)

lemma init_transport_run:
  assumes "appname (init_data w) = SPtr app" and "init_env os host"
    and "Print_mutex U_tcp \<notin> held w"
  obtains w' where "init_transport os l tt w = Ret () w'"
    and "init_data w' = init_data w" and "held w' = held w"
    and "daapRank_zero w' = daapRank_zero w"
    and "delivered (trace w') = delivered (trace w)"
    and "cSSL w' = cSSL w"
    and "sslctx w = None \<Longrightarrow> \<forall>k. balance k (trace w') =
           balance k (trace w) + of_bool (k = Context \<and> sslctx w' \<noteq> None)"
proof (cases "tt = TCP")
  case True
  obtain r v where run: "daapInitializeSSL os w = Ret r v"
    using daapInitializeSSL_returns [OF assms(3), of os] assms(2) by (auto simp: init_env_def)
  have "preserves init_data (daapInitializeSSL os)" "preserves daapRank_zero (daapInitializeSSL os)"
    "preserves cSSL (daapInitializeSSL os)"
    by (intro frame; simp)+
  then have "init_data v = init_data w" "daapRank_zero v = daapRank_zero w" "cSSL v = cSSL w"
    using run by (blast dest: preservesD)+
  moreover have "\<forall>k. balance k (trace v) = balance k (trace w) + of_bool (k = Context \<and> sslctx v \<noteq> None)"
    if "sslctx w = None"
    using daapInitializeSSL_balance [OF that] run by (auto simp: wlp_iff)
  moreover have "held v = held w" "delivered (trace v) = delivered (trace w)"
    using preservesD [OF daapInitializeSSL_held run] preservesD [OF daapInitializeSSL_quiet run]
    by simp_all
  ultimately show ?thesis using that True run by (simp add: init_transport_def)
next
  case False
  with that show ?thesis
    by (cases tt) (auto simp: init_transport_def assms(1) delivered_by_def)
qed

text \<open>The state after the locked part of a first call.\<close>

definition init_post :: "os \<Rightarrow> string \<Rightarrow> string \<Rightarrow> int \<Rightarrow> transport \<Rightarrow> world \<Rightarrow> world \<Rightarrow> bool" where
  "init_post os app host g tt w w' \<longleftrightarrow>
     daapInit_called w' \<and> appname (init_data w') = SPtr app \<and> hostname (init_data w') = SPtr host \<and>
     cluster_name (init_data w') = SPtr (env_cluster os) \<and> agg_val (init_data w') = g \<and>
     transport_type (init_data w') = tt \<and> level (init_data w') = level (init_data w) \<and>
     held w' = held w \<and> delivered (trace w') = delivered (trace w) \<and> cSSL w' = cSSL w \<and>
     (sslctx w = None \<longrightarrow> (\<forall>k. balance k (trace w') =
        balance k (trace w) + (if k = Memory then 3 else of_bool (k = Context \<and> sslctx w' \<noteq> None))))"

lemma init_locked_first:
  assumes "\<not> daapInit_called w" and "init_env os host" and "Print_mutex U_tcp \<notin> held w"
  shows "wp (init_locked os app l g tt)
           (\<lambda>res w'. res = (DAAP_SUCCESS, True) \<and> init_post os app host g tt w w' \<and>
              mpi_rank (init_data w') = 0 \<and> daapRank_zero w' = daapRank_zero w) w"
proof -
  have a: "os_alloc os h" for h using assms(2) by (simp add: init_env_def)
  let ?Q = "\<lambda>v. appname (init_data v) = SPtr app \<and> hostname (init_data v) = SPtr host \<and>
      cluster_name (init_data v) = SPtr (env_cluster os) \<and> agg_val (init_data v) = g \<and>
      transport_type (init_data v) = tt \<and> level (init_data v) = level (init_data w) \<and>
      held v = held w \<and> delivered (trace v) = delivered (trace w) \<and>
      mpi_rank (init_data v) = 0 \<and> daapRank_zero v = daapRank_zero w \<and>
      cSSL v = cSSL w \<and> sslctx v = sslctx w \<and>
      (\<forall>k. balance k (trace v) = balance k (trace w) + 3 * of_bool (k = Memory))"
  have go: "wp (seqC (init_transport os l tt)
      (seqC (update (\<lambda>w. w\<lparr>daapInit_called := True\<rparr>)) (ret (DAAP_SUCCESS, True))))
      (\<lambda>res w'. res = (DAAP_SUCCESS, True) \<and> init_post os app host g tt w w' \<and>
         mpi_rank (init_data w') = 0 \<and> daapRank_zero w' = daapRank_zero w) v" if "?Q v" for v
  proof -
    from that assms(3) obtain v' where "init_transport os l tt v = Ret () v'"
      and "init_data v' = init_data v" "held v' = held v" "daapRank_zero v' = daapRank_zero v"
        "delivered (trace v') = delivered (trace v)" "cSSL v' = cSSL v"
        "sslctx v = None \<longrightarrow> (\<forall>k. balance k (trace v') =
           balance k (trace v) + of_bool (k = Context \<and> sslctx v' \<noteq> None))"
      using init_transport_run [of v app os host l tt] assms(2) by metis
    with that show ?thesis by (simp add: wp_def init_post_def)
  qed
  show ?thesis
    using assms
    by (cases "os_getenv os ''SLURM_CLUSTER_NAME''")
      (simp_all add: init_locked_def init_rest_def calloc_strcpy_def init_hostname_def strdup_def init_cluster_def
        init_env_def wp_def a, simp_all add: wp_def [symmetric] env_cluster_def delivered_by_def go)
qed

text \<open>The rank that the environment gives, and whether it is the rank that reports the job.\<close>

definition reports_job :: "os \<Rightarrow> bool" where
  "reports_job os \<longleftrightarrow>
     decouple_off os \<and> (case env_rank os of Some v \<Rightarrow> v = ''0'' | None \<Rightarrow> True)"

definition rank_value :: "os \<Rightarrow> int option" where
  "rank_value os = (case env_rank os of None \<Rightarrow> Some 0 | Some v \<Rightarrow> atoi v)"

lemma find_rank_run:
  assumes "rank_value os = Some rank" and "mpi_rank (init_data w) = 0" and "\<not> daapRank_zero w"
    and "\<not> os_debug os"
  shows "wp (find_rank os)
           (\<lambda>_ w'. mpi_rank (init_data w') = rank \<and> held w' = held w \<and> trace w' = trace w \<and>
              init_data w' = (init_data w)\<lparr>mpi_rank := rank\<rparr> \<and>
              daapInit_called w' = daapInit_called w \<and>
              (daapRank_zero w' \<and> decouple_off os) = reports_job os) w"
  using assms
  by (auto simp: find_rank_env wp_def rank_value_def reports_job_def take_rank_def
      split: option.splits)

lemma atoi_range: "atoi s = Some i \<Longrightarrow> INT_MIN \<le> i \<and> i \<le> INT_MAX"
  by (auto simp: atoi_def Let_def split: if_splits)

lemma rank_range: "rank_value os = Some rank \<Longrightarrow> LONG_MIN \<le> rank \<and> rank \<le> LONG_MAX"
  using atoi_range by (fastforce simp: rank_value_def c_consts split: option.splits)

text \<open>
  A first call up to the job start message: the state \<open>v\<close> it is sent from, and what is left
  to do there.
\<close>

lemma daapInit_first:
  assumes "\<not> daapInit_called w" "\<not> daapRank_zero w" and "init_env os host"
    and "held w = {}" and "rank_value os = Some rank"
  obtains v where
    "daapInit os app l g tt w = (if reports_job os then daapLogJobStart os v else Ret DAAP_SUCCESS v)"
    and "init_post os app host g tt w v" and "mpi_rank (init_data v) = rank"
    and "session_ready app host (env_cluster os) v"
    and "(daapRank_zero v \<and> decouple_off os) = reports_job os"
proof -
  let ?w = "w\<lparr>held := {Init_mutex}\<rparr>"
  obtain u where lck: "init_locked os app l g tt ?w = Ret (DAAP_SUCCESS, True) u"
    and u: "init_post os app host g tt ?w u" "mpi_rank (init_data u) = 0" "\<not> daapRank_zero u"
    using init_locked_first [of ?w os host app l g tt] assms by (auto simp: wp_iff)
  let ?u = "u\<lparr>held := held u - {Init_mutex}\<rparr>"
  obtain v where rnk: "find_rank os ?u = Ret () v"
    and v: "held v = held ?u" "trace v = trace ?u" "daapInit_called v = daapInit_called ?u"
      "init_data v = (init_data ?u)\<lparr>mpi_rank := rank\<rparr>"
      "(daapRank_zero v \<and> decouple_off os) = reports_job os"
    using find_rank_run [OF assms(5), of ?u] u assms(3) by (auto simp: wp_iff init_env_def)
  have ret: "bindC (daapLogJobStart os) (\<lambda>r. ret (DAAP_SUCCESS + r)) v = daapLogJobStart os v"
    by (simp add: bindC_def DAAP_SUCCESS_def split: outcome.split)
  have run: "daapInit os app l g tt w =
      (if reports_job os then daapLogJobStart os v else Ret DAAP_SUCCESS v)"
    using assms(4) v(5) by (simp add: daapInit_def lck rnk ret) (simp add: DAAP_SUCCESS_def)
  have "preserves cSSL (find_rank os)" "preserves sslctx (find_rank os)"
    unfolding find_rank_def take_rank_def by (intro frame same_onI; simp)+
  then have "cSSL v = cSSL ?u" "sslctx v = sslctx ?u" using rnk by (blast dest: preservesD)+
  then have post: "init_post os app host g tt w v" and rank: "mpi_rank (init_data v) = rank"
    using u(1) v assms(4) by (auto simp: init_post_def)
  with rank_range [OF assms(5)] have "session_ready app host (env_cluster os) v"
    unfolding session_ready_def init_post_def by simp
  with run post rank v(5) show ?thesis by (intro that)
qed

text \<open>
  C16: A first call of \<open>daapInit\<close> in a process that does not report the job (not rank 0, or
  decoupled), in a release build with memory, with \<open>SLURMD_NODENAME\<close> set, a \<open>DAAP_CERTS\<close> that is unset
  or not 4080 bytes long, a rank variable that is unset or within \<open>int\<close> and no mutex held, returns success with any
  transport and establishes the session: the library is marked initialised, name, host,
  cluster, rank, aggregation value and transport are those of the arguments and the
  environment, no mutex is held and nothing has been sent.
\<close>
theorem init_establishes_session:
  assumes "\<not> daapInit_called w" "\<not> daapRank_zero w" and "init_env os host"
    and "held w = {}" and "rank_value os = Some rank" and "\<not> reports_job os"
  shows "wp (daapInit os app l g tt)
           (\<lambda>r w'. r = DAAP_SUCCESS \<and> session_ready app host (env_cluster os) w' \<and>
              mpi_rank (init_data w') = rank \<and> transport_type (init_data w') = tt \<and>
              agg_val (init_data w') = g \<and> held w' = {} \<and>
              delivered (trace w') = delivered (trace w)) w"
proof -
  from assms(1-5) obtain v where run: "daapInit os app l g tt w =
      (if reports_job os then daapLogJobStart os v else Ret DAAP_SUCCESS v)"
    and post: "init_post os app host g tt w v" and rank: "mpi_rank (init_data v) = rank"
    and ready: "session_ready app host (env_cluster os) v"
    by (rule daapInit_first)
  from run assms(6) have "daapInit os app l g tt w = Ret DAAP_SUCCESS v" by simp
  with post rank ready assms(4) show ?thesis by (simp add: wp_def init_post_def)
qed

text \<open>An MPI process of rank \<open>r\<close> on a node of a named cluster, for the witnesses.\<close>

definition os_rank :: "string \<Rightarrow> os" where
  "os_rank r =
     os_good\<lparr>os_getenv :=
       (\<lambda>v. if v = ''SLURMD_NODENAME'' then Some ''nid00042''
            else if v = ''SLURM_CLUSTER_NAME'' then Some ''trinity''
            else if v = ''PMI_RANK'' then Some r else None)\<rparr>"

lemma os_rank_simps [simp]:
  "init_env (os_rank r) ''nid00042''" "env_cluster (os_rank r) = ''trinity''"
  "env_rank (os_rank r) = Some r" "rank_value (os_rank r) = atoi r"
  "reports_job (os_rank r) \<longleftrightarrow> r = ''0''" "env_ok (os_rank r)"
  "tls_up (os_rank r)" "writes_whole (os_rank r)" "os_getenv (os_rank r) DAAP_CERTS_ENVVAR = None"
  by (simp_all add: os_rank_def init_env_def env_cluster_def env_rank_def rank_value_def
      reports_job_def decouple_off_def env_ok_def os_good_def c_consts tls_up_def writes_whole_def)

lemma world0_simps [simp]:
  "\<not> daapInit_called world0" "\<not> daapRank_zero world0" "held world0 = {}" "trace world0 = []"
  "level (init_data world0) = 0" "sslctx world0 = None"
  by (simp_all add: world0_def init_data0_def)

lemma atoi_samples [simp]: "atoi ''0'' = Some 0" "atoi ''7'' = Some 7"
  by (simp_all add: atoi_def is_space_def is_digit_def digits_val_def digit_val_def c_consts)

theorem init_establishes_session_witness:
  "wp (daapInit (os_rank ''7'') ''vpic'' 5 0 TCP)
     (\<lambda>r w'. r = 0 \<and> session_ready ''vpic'' ''nid00042'' ''trinity'' w' \<and>
        mpi_rank (init_data w') = 7 \<and> transport_type (init_data w') = TCP \<and>
        agg_val (init_data w') = 0 \<and> held w' = {} \<and> delivered (trace w') = []) world0"
  using init_establishes_session [of world0 "os_rank ''7''" "''nid00042''" 7 "''vpic''" 5 0 TCP]
  by (simp add: DAAP_SUCCESS_def)

end
