(* ===== verification/Lifecycle.thy ===== *)
theory Lifecycle
  imports Init
begin

text \<open>
  A process from its first call of \<open>daapInit\<close> to \<open>daapFinalize\<close> and beyond. The lemmas run
  \<open>daapFinalize\<close> on a live session; the properties are the end-to-end delivery of a whole
  job, the result of \<open>daapInit\<close>, what \<open>daapFinalize\<close> releases, and what later calls do with
  the pointers it leaves behind.
\<close>

section \<open>A whole job\<close>

text \<open>Both transports together, for a job that chooses one of them.\<close>

definition transport_works :: "os \<Rightarrow> transport \<Rightarrow> bool" where
  "transport_works os tt \<longleftrightarrow> tt = SYSLOG \<or> tt = TCP \<and> tls_up os \<and> writes_whole os \<and> \<not> os_debug os"

interpretation job: reliable_transport
  "transmit os"
  "\<lambda>w. transport_works os (transport_type (init_data w)) \<and> Write_mutex \<notin> held w" for os
proof unfold_locales
  fix w :: world and s :: string
  assume "transport_works os (transport_type (init_data w)) \<and> Write_mutex \<notin> held w"
    and "s \<noteq> []" and "int (length s) \<le> INT_MAX"
  then show "wp (transmit os s) (\<lambda>_ w'. delivered (trace w') = delivered (trace w) @ [s]) w"
    using syslog.send_delivers [of w s os] tls.send_delivers [of w os s]
    by (auto simp: transport_works_def)
qed (simp_all add: frame transmit_held)

text \<open>A client that initialises the library, logs its messages and finalises it.\<close>

definition whole_job ::
  "os \<Rightarrow> string \<Rightarrow> int \<Rightarrow> int \<Rightarrow> transport \<Rightarrow> string list \<Rightarrow> (world, int) cmd" where
  "whole_job os app msg_level agg tt ms =
     bindC (daapInit os app msg_level agg tt) (\<lambda>r.
     if r \<noteq> DAAP_SUCCESS then ret r
     else seqC (log_all os ms) (daapFinalize os))"

section \<open>Running daapFinalize\<close>

definition shutdown_events :: "nat option \<Rightarrow> nat option \<Rightarrow> event list" where
  "shutdown_events ctx s =
     EvCtxFree ctx #
     (case s of None \<Rightarrow> [] | Some p \<Rightarrow> [EvSslShutdown p, EvSslShutdown p, EvSslFree p]) @
     [EvSslCleanup]"

lemma daapShutdownSSL_run:
  "daapShutdownSSL w = Ret () (w\<lparr>trace := trace w @ shutdown_events (sslctx w) (cSSL w)\<rparr>)"
  by (simp add: daapShutdownSSL_def shutdown_events_def split: option.split)

lemma delivered_shutdown [simp]: "delivered (shutdown_events ctx s) = []"
  by (simp add: shutdown_events_def delivered_by_def split: option.split)

text \<open>What \<open>daapFinalize\<close> does after the job end message, if any.\<close>

definition finalized :: "string \<Rightarrow> string \<Rightarrow> string \<Rightarrow> world \<Rightarrow> world" where
  "finalized app host cluster w =
     w\<lparr>init_data := (init_data w)\<lparr>hostname := SFreed, appname := SFreed, cluster_name := SFreed\<rparr>,
       trace := trace w @ shutdown_events (sslctx w) (cSSL w) @
                [EvFree host, EvFree app, EvFree cluster]\<rparr>"

lemma release_run:
  assumes "session_ready app host cluster w"
  shows "seqC daapShutdownSSL free_init_data w = Ret () (finalized app host cluster w)"
  using assms
  by (simp add: free_init_data_def daapShutdownSSL_run session_ready_def finalized_def freed_def)

lemma finalize_tail:
  "seqC daapShutdownSSL (seqC free_init_data m) = seqC (seqC daapShutdownSSL free_init_data) m"
  by (simp add: seqC_def bindC_assoc)

lemma daapFinalize_silent:
  assumes "session_ready app host cluster w" and "\<not> (daapRank_zero w \<and> decouple_off os)"
    and "Finalize_mutex \<notin> held w"
  shows "daapFinalize os w = Ret (os_indet os (trace w)) (finalized app host cluster w)"
proof -
  have ready: "session_ready app host cluster (w\<lparr>held := insert Finalize_mutex (held w)\<rparr>)"
    using assms(1) by (simp add: session_ready_def)
  from assms(2) consider "\<not> daapRank_zero w" | "\<not> decouple_off os" by blast
  then show ?thesis
    using assms(3)
    by cases (simp_all add: daapFinalize_def finalize_tail release_run [OF ready],
        simp_all add: finalized_def)
qed

lemma daapFinalize_reporting:
  assumes "daapRank_zero w" "decouple_off os" and "Finalize_mutex \<notin> held w"
    and "daapLogJobEnd os (w\<lparr>held := insert Finalize_mutex (held w)\<rparr>) = Ret r v"
    and "session_ready app host cluster v" and "held v = insert Finalize_mutex (held w)"
  shows "daapFinalize os w = Ret r ((finalized app host cluster v)\<lparr>held := held w\<rparr>)"
  using assms
  by (simp add: daapFinalize_def finalize_tail release_run [OF assms(5)])
    (simp add: finalized_def)

text \<open>One message over a transport that works.\<close>

lemma job_write:
  assumes "env_ok os" and "tag_safe app" "tag_safe host" "tag_safe cluster"
    and "session_ready app host cluster w"
    and "transport_works os (transport_type (init_data w))" and "Write_mutex \<notin> held w"
    and "plain m" "field_safe m" "fits app host cluster (mpi_rank (init_data w)) m"
  obtains v line where "daapLogWrite os m [] w = Ret DAAP_SUCCESS v"
    and "delivered (trace v) = delivered (trace w) @ [line]"
    and "reads_as app host cluster (mpi_rank (init_data w)) m line"
    and "init_data v = init_data w" "held v = held w" "daapRank_zero v = daapRank_zero w"
    and "session_ready app host cluster v"
proof -
  have len: "length m \<le> DAAP_MAX_MSG_LEN"
    using assms(10) by (simp add: fits_def c_consts max_size_def)
  obtain v h where run: "daapLogWrite os m [] w = Ret DAAP_SUCCESS v"
    and v: "init_data v = init_data w" "session_ready app host cluster v" "held v = held w"
    and line: "delivered (trace v) = delivered (trace w) @
      [snprintf_str max_size
         (influx_line app host cluster (mpi_rank (init_data w)) m (clock_ns os h))]"
    using job.write_delivers [OF assms(1,5) conjI [OF assms(6,7)]
        format_plain [OF assms(8), of "[]"] len]
    by (auto simp: wp_iff daapLogWrite_def)
  have "preserves daapRank_zero (daapLogWrite os m [])" by (intro frame; simp)
  then have "daapRank_zero v = daapRank_zero w" using run by (rule preservesD)
  with run line v short_line_reads [OF assms(1-4,9,10)] that show ?thesis by blast
qed

lemma log_all_keeps:
  assumes "log_all os ms w = Ret u v"
  shows "init_data v = init_data w" "held v = held w" "daapRank_zero v = daapRank_zero w"
    "daapInit_called v = daapInit_called w"
proof -
  have "preserves init_data (log_all os ms)" "preserves held (log_all os ms)"
    "preserves daapRank_zero (log_all os ms)" "preserves daapInit_called (log_all os ms)"
    unfolding log_all_def by (intro frame writers_held; simp)+
  then show "init_data v = init_data w" "held v = held w" "daapRank_zero v = daapRank_zero w"
    "daapInit_called v = daapInit_called w"
    using assms by (auto dest: preservesD)
qed

section \<open>What a whole job delivers\<close>

definition job_messages :: "os \<Rightarrow> string list \<Rightarrow> string list" where
  "job_messages os ms =
     (if reports_job os then ''__daap_jobstart'' # ms @ [''__daap_jobend''] else ms)"

lemma job_log_all:
  assumes "env_ok os" and "tag_safe app" "tag_safe host" "tag_safe cluster"
    and "session_ready app host cluster w"
    and "transport_works os (transport_type (init_data w))" and "Write_mutex \<notin> held w"
    and "\<forall>m \<in> set ms. plain m \<and> field_safe m \<and> fits app host cluster (mpi_rank (init_data w)) m"
  obtains v lines where "log_all os ms w = Ret () v"
    and "delivered (trace v) = delivered (trace w) @ lines"
    and "list_all2 (reads_as app host cluster (mpi_rank (init_data w))) ms lines"
    and "init_data v = init_data w" "held v = held w" "daapRank_zero v = daapRank_zero w"
    and "session_ready app host cluster v"
proof -
  obtain v lines where run: "log_all os ms w = Ret () v"
    and lines: "delivered (trace v) = delivered (trace w) @ lines"
      "list_all2 (reads_as app host cluster (mpi_rank (init_data w))) ms lines"
    using job.writes_deliver [OF assms(1-5) conjI [OF assms(6,7)] assms(8)]
    by (auto simp: wp_iff log_all_via)
  note same = log_all_keeps [OF run]
  from same assms(5) have "session_ready app host cluster v" by (simp add: session_ready_def)
  with run lines same that show ?thesis by blast
qed

text \<open>The end of a job, from a session that is ready.\<close>

lemma job_finalize:
  assumes "env_ok os" and "tag_safe app" "tag_safe host" "tag_safe cluster"
    and "session_ready app host cluster w"
    and "transport_works os (transport_type (init_data w))" and "held w = {}"
    and "reports_job os = (daapRank_zero w \<and> decouple_off os)"
    and "reports_job os \<Longrightarrow> fits app host cluster (mpi_rank (init_data w)) ''__daap_jobend''"
  obtains r v lines where "daapFinalize os w = Ret r v"
    and "delivered (trace v) = delivered (trace w) @ lines"
    and "list_all2 (reads_as app host cluster (mpi_rank (init_data w)))
           (if reports_job os then [''__daap_jobend''] else []) lines"
    and "reports_job os \<longrightarrow> r = DAAP_SUCCESS" and "held v = {}"
proof (cases "reports_job os")
  case False
  with assms(7,8) have "daapFinalize os w = Ret (os_indet os (trace w)) (finalized app host cluster w)"
    by (intro daapFinalize_silent assms) simp_all
  with False assms(7) that [of _ _ "[]"] show ?thesis
    by (simp add: finalized_def delivered_by_def)
next
  case True
  let ?w = "w\<lparr>held := insert Finalize_mutex (held w)\<rparr>"
  have "session_ready app host cluster ?w" "transport_works os (transport_type (init_data ?w))"
    "Write_mutex \<notin> held ?w" "plain ''__daap_jobend''" "field_safe ''__daap_jobend''"
    "fits app host cluster (mpi_rank (init_data ?w)) ''__daap_jobend''"
    using assms(5-7,9) True by (simp_all add: session_ready_def plain_def field_safe_def dquote_def)
  then obtain v line where run: "daapLogJobEnd os ?w = Ret DAAP_SUCCESS v"
    and v: "delivered (trace v) = delivered (trace w) @ [line]"
      "reads_as app host cluster (mpi_rank (init_data w)) ''__daap_jobend'' line"
      "held v = insert Finalize_mutex (held w)" "session_ready app host cluster v"
    by (rule job_write [OF assms(1-4)]) (simp add: daapLogJobEnd_def)
  have "daapFinalize os w = Ret DAAP_SUCCESS ((finalized app host cluster v)\<lparr>held := held w\<rparr>)"
    using True assms(7,8) v by (intro daapFinalize_reporting [OF _ _ _ run]) simp_all
  with True v assms(7) that [of _ _ "[line]"] show ?thesis
    by (simp add: finalized_def delivered_by_def)
qed

lemma job_start:
  assumes "env_ok os" and "transport_works os tt" and "init_env os host"
    and "\<not> daapInit_called w" "\<not> daapRank_zero w" "held w = {}" and "rank_value os = Some rank"
    and "tag_safe app" "tag_safe host" "tag_safe (env_cluster os)"
    and "reports_job os \<Longrightarrow> fits app host (env_cluster os) rank ''__daap_jobstart''"
  obtains v lines where "daapInit os app l g tt w = Ret DAAP_SUCCESS v"
    and "delivered (trace v) = delivered (trace w) @ lines"
    and "list_all2 (reads_as app host (env_cluster os) rank)
           (if reports_job os then [''__daap_jobstart''] else []) lines"
    and "session_ready app host (env_cluster os) v" "transport_type (init_data v) = tt"
    and "mpi_rank (init_data v) = rank" "held v = {}"
    and "reports_job os = (daapRank_zero v \<and> decouple_off os)"
proof -
  obtain u where run: "daapInit os app l g tt w =
      (if reports_job os then daapLogJobStart os u else Ret DAAP_SUCCESS u)"
    and u: "init_post os app host g tt w u" "mpi_rank (init_data u) = rank"
      "session_ready app host (env_cluster os) u" "(daapRank_zero u \<and> decouple_off os) = reports_job os"
    by (rule daapInit_first [OF assms(4,5,3,6,7)])
  from u(1) assms(6) have u': "transport_type (init_data u) = tt" "held u = {}"
    "delivered (trace u) = delivered (trace w)" by (simp_all add: init_post_def)
  show ?thesis
  proof (cases "reports_job os")
    case False
    with run u u' that [of u "[]"] show ?thesis by simp
  next
    case True
    have "transport_works os (transport_type (init_data u))" "Write_mutex \<notin> held u"
      "plain ''__daap_jobstart''" "field_safe ''__daap_jobstart''"
      "fits app host (env_cluster os) (mpi_rank (init_data u)) ''__daap_jobstart''"
      using assms(2,11) True u u' by (simp_all add: plain_def field_safe_def dquote_def)
    then obtain v line where "daapLogJobStart os u = Ret DAAP_SUCCESS v"
      and "delivered (trace v) = delivered (trace u) @ [line]"
        "reads_as app host (env_cluster os) (mpi_rank (init_data u)) ''__daap_jobstart'' line"
        "init_data v = init_data u" "held v = held u" "daapRank_zero v = daapRank_zero u"
        "session_ready app host (env_cluster os) v"
      unfolding daapLogJobStart_def by (rule job_write [OF assms(1,8-10) u(3)])
    with True run u u' that [of v "[line]"] show ?thesis by simp
  qed
qed

text \<open>The three phases of a job: the states between them and what each delivers.\<close>

lemma job_phases:
  assumes "env_ok os" and "transport_works os tt" and "init_env os host"
    and "\<not> daapInit_called w" "\<not> daapRank_zero w" "held w = {}" and "rank_value os = Some rank"
    and "tag_safe app" "tag_safe host" "tag_safe (env_cluster os)"
    and "\<forall>m \<in> set (job_messages os ms).
           plain m \<and> field_safe m \<and> fits app host (env_cluster os) rank m"
  obtains u v x r lines1 lines2 lines3 where
    "daapInit os app l g tt w = Ret DAAP_SUCCESS u" and "log_all os ms u = Ret () v"
    and "daapFinalize os v = Ret r x"
    and "session_ready app host (env_cluster os) u" "session_ready app host (env_cluster os) v"
    and "transport_type (init_data u) = tt" "init_data v = init_data u"
    and "held u = {}" "held v = {}" "held x = {}"
    and "reports_job os = (daapRank_zero v \<and> decouple_off os)"
    and "reports_job os \<longrightarrow> r = DAAP_SUCCESS"
    and "delivered (trace u) = delivered (trace w) @ lines1"
    and "delivered (trace v) = delivered (trace u) @ lines2"
    and "delivered (trace x) = delivered (trace v) @ lines3"
    and "list_all2 (reads_as app host (env_cluster os) rank) (job_messages os ms)
           (lines1 @ lines2 @ lines3)"
proof -
  let ?reads = "reads_as app host (env_cluster os) rank"
  have fits_start: "fits app host (env_cluster os) rank ''__daap_jobstart''"
    and fits_end: "fits app host (env_cluster os) rank ''__daap_jobend''" if "reports_job os"
    using assms(11) that by (simp_all add: job_messages_def)
  obtain u start where init: "daapInit os app l g tt w = Ret DAAP_SUCCESS u"
    and start: "delivered (trace u) = delivered (trace w) @ start"
      "list_all2 ?reads (if reports_job os then [''__daap_jobstart''] else []) start"
    and u: "session_ready app host (env_cluster os) u" "transport_type (init_data u) = tt"
      "mpi_rank (init_data u) = rank" "held u = {}"
      "reports_job os = (daapRank_zero u \<and> decouple_off os)"
    by (rule job_start [OF assms(1-10) fits_start])
  have "transport_works os (transport_type (init_data u))" "Write_mutex \<notin> held u"
    "\<forall>m \<in> set ms. plain m \<and> field_safe m \<and> fits app host (env_cluster os) (mpi_rank (init_data u)) m"
    using assms(2,11) u by (simp_all add: job_messages_def split: if_splits)
  then obtain v body where log: "log_all os ms u = Ret () v"
    and body: "delivered (trace v) = delivered (trace u) @ body"
      "list_all2 (reads_as app host (env_cluster os) (mpi_rank (init_data u))) ms body"
    and v: "init_data v = init_data u" "held v = held u" "daapRank_zero v = daapRank_zero u"
      "session_ready app host (env_cluster os) v"
    by (rule job_log_all [OF assms(1,8-10) u(1)])
  have "transport_works os (transport_type (init_data v))" "held v = {}"
    "reports_job os = (daapRank_zero v \<and> decouple_off os)"
    and "reports_job os \<Longrightarrow> fits app host (env_cluster os) (mpi_rank (init_data v)) ''__daap_jobend''"
    using assms(2) u v fits_end by simp_all
  then obtain r x end' where fin: "daapFinalize os v = Ret r x"
    and last: "delivered (trace x) = delivered (trace v) @ end'"
      "list_all2 (reads_as app host (env_cluster os) (mpi_rank (init_data v)))
         (if reports_job os then [''__daap_jobend''] else []) end'"
    and x: "reports_job os \<longrightarrow> r = DAAP_SUCCESS" "held x = {}"
    by (rule job_finalize [OF assms(1,8-10) v(4)])
  have "list_all2 ?reads (job_messages os ms) (start @ body @ end')"
    using start(2) body(2) last(2) u(3) v(1)
    by (auto simp: job_messages_def list_all2_Cons1 split: if_splits intro!: list_all2_appendI)
  with init log fin u v x start(1) body(1) last(1) that show ?thesis by simp
qed

lemma whole_job_run:
  assumes "env_ok os" and "transport_works os tt" and "init_env os host"
    and "\<not> daapInit_called w" "\<not> daapRank_zero w" "held w = {}" and "rank_value os = Some rank"
    and "tag_safe app" "tag_safe host" "tag_safe (env_cluster os)"
    and "\<forall>m \<in> set (job_messages os ms).
           plain m \<and> field_safe m \<and> fits app host (env_cluster os) rank m"
  shows "wp (whole_job os app l g tt ms)
           (\<lambda>r w'. (reports_job os \<longrightarrow> r = DAAP_SUCCESS) \<and> held w' = {} \<and>
              (\<exists>lines. delivered (trace w') = delivered (trace w) @ lines \<and>
                 list_all2 (reads_as app host (env_cluster os) rank) (job_messages os ms) lines)) w"
  by (rule job_phases [OF assms, of l g]) (auto simp: wp_def whole_job_def)

text \<open>
  C1: A job that initialises the library, logs messages and finalises delivers exactly its messages
  in order, framed by one job start and one job end message when the process is the one that
  reports the job; every line reads back with the name, host, cluster and rank of the process,
  and no mutex is left locked. The conditions: a release build with memory and null device, a
  clock within 64 bits of nanoseconds, \<open>SLURMD_NODENAME\<close> set, a \<open>DAAP_CERTS\<close> that is not 4080 bytes
  long and a rank variable that is unset or within \<open>int\<close>; syslog, or a collector that accepts every
  connection, handshake and whole write; a process not yet initialised and holding no mutex;
  names of application, host and cluster that are not empty and free of the separators of
  the line protocol; and messages (the job messages among them) without percent sign, quote or
  backslash that fit the 2048-byte line with their head.
\<close>
theorem whole_job_delivers:
  assumes "env_ok os" and "transport_works os tt" and "init_env os host"
    and "\<not> daapInit_called w" "\<not> daapRank_zero w" "held w = {}" and "rank_value os = Some rank"
    and "tag_safe app" "tag_safe host" "tag_safe (env_cluster os)"
    and "\<forall>m \<in> set (job_messages os ms).
           plain m \<and> field_safe m \<and> fits app host (env_cluster os) rank m"
  shows "wp (whole_job os app l g tt ms)
           (\<lambda>r w'. (reports_job os \<longrightarrow> r = DAAP_SUCCESS) \<and> held w' = {} \<and>
              (\<exists>lines. delivered (trace w') = delivered (trace w) @ lines \<and>
                 list_all2 (reads_as app host (env_cluster os) rank) (job_messages os ms) lines)) w"
  by (rule whole_job_run [OF assms])

theorem whole_job_delivers_witness:
  "wp (whole_job (os_rank ''0'') ''vpic'' 5 0 TCP [''step 1''])
     (\<lambda>r w'. r = 0 \<and> held w' = {} \<and>
        (\<exists>lines. delivered (trace w') = lines \<and>
           list_all2 (reads_as ''vpic'' ''nid00042'' ''trinity'' 0)
             [''__daap_jobstart'', ''step 1'', ''__daap_jobend''] lines)) world0"
  using whole_job_delivers [of "os_rank ''0''" TCP "''nid00042''" world0 0 "''vpic''" "[''step 1'']" 5 0]
  by (simp add: transport_works_def job_messages_def DAAP_SUCCESS_def plain_def field_safe_def
      dquote_def fits_def influx_head_def dec_int_def dec.simps max_size_def)

section \<open>The result of daapInit\<close>

lemma init_pieces_called:
  "preserves daapInit_called (init_hostname os)" "preserves daapInit_called (init_cluster os)"
  "preserves daapInit_called (init_transport os l tt)" "preserves daapInit_called (find_rank os)"
  unfolding init_hostname_def init_cluster_def init_transport_def find_rank_def strdup_def
    calloc_strcpy_def take_rank_def
  by (intro frame same_onI; simp)+

lemma hostname_codes:
  assumes "init_hostname os w = Ret r w'"
  shows "r \<in> {DAAP_SUCCESS, DAAP_ERROR, DAAP_ERROR_OUT_OF_MEMORY, DAAP_ERROR_IN_ERRNO}"
proof (cases "os_getenv os ''SLURMD_NODENAME''")
  case None
  have "wp (daap_gethostname os) (\<lambda>res w'. hostname_post os 8 257 res) w"
    by (rule wp_mono [OF daap_gethostname_post]) simp
  with None assms show ?thesis
    by (auto simp: init_hostname_def wp_iff hostname_post_def split: if_splits)
next
  case (Some name)
  with assms show ?thesis by (simp add: init_hostname_def strdup_def)
qed

lemma init_locked_result:
  assumes "\<not> daapInit_called w" and "init_locked os app l g tt w = Ret (r, go_on) w'"
  shows "if go_on then r = DAAP_SUCCESS \<and> daapInit_called w'
         else r \<noteq> DAAP_SUCCESS \<and> \<not> daapInit_called w'"
proof -
  let ?post = "\<lambda>(r, go_on) w'. if go_on then r = DAAP_SUCCESS \<and> daapInit_called w'
         else r \<noteq> DAAP_SUCCESS \<and> \<not> daapInit_called w'"
  have "wlp (init_rest os l tt a) ?post u" if "\<not> daapInit_called u" for a u
    using that
    by (cases "hostname (init_data u)")
      (auto simp: init_rest_def wlp_iff bindC_def seqC_def split: outcome.splits if_splits)
  then have "wlp (init_hostname os) (\<lambda>a. wlp (init_rest os l tt a) ?post) u"
    if "\<not> daapInit_called u" for u
    by (rule wlp_mono [OF preserves_wlp [OF init_pieces_called(1)]]) (use that in simp)
  then have "wlp (init_locked os app l g tt) ?post w"
    using assms(1) by (simp add: init_locked_def calloc_strcpy_def wp_eqs alloc_wp)
  with assms(2) show ?thesis by (simp add: wlp_def)
qed

lemma init_returns:
  "wlp (daapInit os app l g tt)
     (\<lambda>r w'. (r = DAAP_SUCCESS) = daapInit_called w' \<and>
        r \<in> {DAAP_SUCCESS, DAAP_ERROR, DAAP_ERROR_OUT_OF_MEMORY, DAAP_ERROR_IN_ERRNO}) w"
proof (cases "daapInit_called w \<or> Init_mutex \<in> held w")
  case True
  then show ?thesis by (cases "Init_mutex \<in> held w") (simp_all add: wlp_def daapInit_def init_locked_def)
next
  case False
  let ?w = "w\<lparr>held := insert Init_mutex (held w)\<rparr>"
  let ?codes = "{DAAP_SUCCESS, DAAP_ERROR, DAAP_ERROR_OUT_OF_MEMORY, DAAP_ERROR_IN_ERRNO}"
  have codes: "r \<in> ?codes" if "init_locked os app l g tt ?w = Ret (r, go_on) u" for r go_on u
    using that False
    by (auto simp: init_locked_def init_rest_def bindC_def seqC_def split: outcome.splits if_splits
        dest: hostname_codes)
  show ?thesis
  proof (cases "init_locked os app l g tt ?w")
    case (Ret res u)
    obtain r go_on where res: "res = (r, go_on)" by fastforce
    have post: "if go_on then r = DAAP_SUCCESS \<and> daapInit_called u
        else r \<noteq> DAAP_SUCCESS \<and> \<not> daapInit_called u"
      using False Ret res by (intro init_locked_result [of ?w]) simp_all
    show ?thesis
    proof (cases go_on)
      case False
      with post codes [OF Ret [unfolded res]] Ret res \<open>\<not> (daapInit_called w \<or> Init_mutex \<in> held w)\<close>
      show ?thesis by (simp add: wlp_def daapInit_def)
    next
      case True
      have start: "wlp (daapLogJobStart os) (\<lambda>r w'. r = 0 \<and> daapInit_called w') v"
        if "daapInit_called v" for v
        using that log_write_returns [of os "''__daap_jobstart''" "[]" v]
        by (auto simp: wlp_iff daapLogJobStart_def DAAP_SUCCESS_def)
      have rank: "wlp (find_rank os) (\<lambda>_. daapInit_called) x" if "daapInit_called x" for x
        using preserves_wlp [OF init_pieces_called(4), of os x] that by (auto elim: wlp_mono)
      have "wlp (bindC (asks daapRank_zero) (\<lambda>zero.
           if zero \<and> decouple_off os then
             bindC (daapLogJobStart os) (\<lambda>r. ret (0 + r))
           else ret 0)) (\<lambda>r w'. r = 0 \<and> daapInit_called w') v" if "daapInit_called v" for v
        using start [OF that] that by (simp add: wp_eqs)
      then have "wlp (seqC (find_rank os) (bindC (asks daapRank_zero) (\<lambda>zero.
           if zero \<and> decouple_off os then
             bindC (daapLogJobStart os) (\<lambda>r. ret (0 + r))
           else ret 0))) (\<lambda>r w'. r = 0 \<and> daapInit_called w') x" if "daapInit_called x" for x
        unfolding wlp_seq by (rule wlp_mono [OF rank [OF that]])
      from this [of "u\<lparr>held := held u - {Init_mutex}\<rparr>"] post Ret res False True show ?thesis
        by (auto simp: daapInit_def DAAP_SUCCESS_def wlp_iff)
    qed
  qed (use False in \<open>simp_all add: wlp_def daapInit_def\<close>)
qed

text \<open>
  C26: Whatever the environment does, when \<open>daapInit\<close> returns, it returns \<open>DAAP_SUCCESS\<close>
  exactly if the library is marked initialised, and otherwise one of the three codes of
  \<open>daap_gethostname\<close>.
\<close>
theorem init_result:
  "wlp (daapInit os app l g tt)
     (\<lambda>r w'. (r = DAAP_SUCCESS) = daapInit_called w' \<and>
        r \<in> {DAAP_SUCCESS, DAAP_ERROR, DAAP_ERROR_OUT_OF_MEMORY, DAAP_ERROR_IN_ERRNO}) w"
  by (rule init_returns)

section \<open>After daapFinalize\<close>

lemma world_ready_fields [simp]:
  "\<not> daapRank_zero (world_ready t)" "start_time (init_data (world_ready t)) = 0"
  "sslctx (world_ready t) = None" "cSSL (world_ready t) = None"
  by (simp_all add: world_ready_def world0_def init_data0_def)

text \<open>
  In a process that does not report the job, \<open>daapFinalize\<close> releases the TLS objects and
  the three strings of \<open>init_data\<close>, each exactly once, but it returns an indeterminate value
  (its result variable is never assigned), leaves the three pointers dangling and keeps the
  library marked as initialised.
\<close>
lemma finalize_releases:
  assumes "session_ready app host cluster w" and "\<not> (daapRank_zero w \<and> decouple_off os)"
    and "Finalize_mutex \<notin> held w"
  shows "wp (daapFinalize os)
           (\<lambda>r w'. r = os_indet os (trace w) \<and> held w' = held w \<and> daapInit_called w' \<and>
              trace w' = trace w @ shutdown_events (sslctx w) (cSSL w) @
                [EvFree host, EvFree app, EvFree cluster] \<and>
              appname (init_data w') = SFreed \<and> hostname (init_data w') = SFreed \<and>
              cluster_name (init_data w') = SFreed) w"
  using assms(1) by (simp add: daapFinalize_silent [OF assms] wp_def finalized_def session_ready_def)

lemma finalize_releases_witness:
  "wp (daapFinalize (os_good\<lparr>os_indet := (\<lambda>_. 41)\<rparr>))
     (\<lambda>r w'. r = 41 \<and> held w' = {} \<and> daapInit_called w' \<and>
        trace w' = [EvCtxFree None, EvSslCleanup,
                    EvFree ''nid00042'', EvFree ''vpic'', EvFree ''trinity''] \<and>
        appname (init_data w') = SFreed \<and> hostname (init_data w') = SFreed \<and>
        cluster_name (init_data w') = SFreed) (world_ready TCP)"
  using finalize_releases [of "''vpic''" "''nid00042''" "''trinity''" "world_ready TCP"
      "os_good\<lparr>os_indet := (\<lambda>_. 41)\<rparr>"]
  by (simp add: shutdown_events_def)

text \<open>
  C24: After a \<open>daapFinalize\<close> of a process that does not report the job (not rank 0, or decoupled; a
  release build with memory, null device and a 64-bit clock, no mutex held), the library is still marked as initialised with dangling
  pointers: a second \<open>daapFinalize\<close> frees the host name twice, a \<open>daapLogWrite\<close> of a message without
  percent sign of at most \<open>DAAP_MAX_MSG_LEN\<close> bytes reads freed memory, and \<open>daapInit\<close> reports success
  without restoring the pointers. (Where the process reports the job, a second \<open>daapFinalize\<close>
  would first log the job end; that case is not covered.)
\<close>
theorem finalize_leaves_dangling:
  assumes "env_ok os" and "session_ready app host cluster w"
    and "\<not> (daapRank_zero w \<and> decouple_off os)" and "held w = {}"
    and "plain m" and "length m \<le> DAAP_MAX_MSG_LEN"
  shows "seqC (daapFinalize os) (daapFinalize os) w = Faults DoubleFree \<and>
         seqC (daapFinalize os) (daapLogWrite os m []) w = Faults UseAfterFree \<and>
         wp (seqC (daapFinalize os) (daapInit os app' l g tt))
           (\<lambda>r w'. r = DAAP_SUCCESS \<and> hostname (init_data w') = SFreed) w"
proof -
  let ?w = "finalized app host cluster w"
  have fin: "daapFinalize os w = Ret (os_indet os (trace w)) ?w"
    using assms(4) by (intro daapFinalize_silent assms) simp
  have flags: "held ?w = {}" "daapInit_called ?w" "hostname (init_data ?w) = SFreed"
    "appname (init_data ?w) = SFreed" "daapRank_zero ?w = daapRank_zero w"
    using assms(2,4) by (simp_all add: finalized_def session_ready_def)
  have "daapFinalize os ?w = Faults DoubleFree"
    using assms(3) flags
    by (cases "daapRank_zero w")
      (simp_all add: daapFinalize_def free_init_data_def daapShutdownSSL_run)
  moreover have "daapLogWrite os m [] ?w = Faults UseAfterFree"
    using assms(1) flags format_message_short [OF _ format_plain [OF assms(5), of "[]"] assms(6)]
      clock_ns_range [OF assms(1)]
    by (simp add: daapLogWrite_def log_write_via_def getmillisectime_run daapBuildInflux_def
        clock_ns_def Let_def)
  ultimately show ?thesis
    using fin flags by (simp add: wp_def daapInit_def init_locked_def)
qed

theorem finalize_leaves_dangling_witness:
  "seqC (daapFinalize os_good) (daapFinalize os_good) (world_ready TCP) = Faults DoubleFree \<and>
   seqC (daapFinalize os_good) (daapLogWrite os_good ''late'' []) (world_ready TCP) = Faults UseAfterFree"
  using finalize_leaves_dangling [of os_good "''vpic''" "''nid00042''" "''trinity''"
      "world_ready TCP" "''late''"]
  by (simp add: plain_def c_consts)

section \<open>The job duration message\<close>

text \<open>The value that \<open>%d\<close> prints for the difference of the two times.\<close>

definition printed_duration :: "int \<Rightarrow> 64 word \<Rightarrow> int" where
  "printed_duration now start = sint (ucast (word_of_int now - start) :: 32 word)"

lemma dec_avoids: "CHR 0x22 \<notin> set (dec n)" "CHR 0x5C \<notin> set (dec n)"
  using dec_digits [of n] by (force simp: is_digit_def)+

lemma ucast_of_int: "ucast (word_of_int i :: 64 word) = (word_of_int i :: 32 word)"
  by transfer (simp add: min_def)

lemma sint_small32:
  assumes "INT_MIN \<le> i" "i \<le> INT_MAX"
  shows "sint (word_of_int i :: 32 word) = i"
  using assms by (simp add: signed_of_int signed_take_bit_int_eq_self c_consts)

lemma printed_duration_exact:
  assumes "INT_MIN \<le> now - uint start" "now - uint start \<le> INT_MAX"
  shows "printed_duration now start = now - uint start"
proof -
  have diff: "word_of_int now - start = word_of_int (now - uint start)"
    by (simp add: wi_hom_sub [symmetric])
  show ?thesis
    unfolding printed_duration_def diff ucast_of_int by (rule sint_small32 [OF assms])
qed

text \<open>
  Over a transport that works, \<open>daapLogJobDuration\<close> delivers one line that reads as the
  job duration message with the number of seconds since \<open>daapInit\<close>, as long as that number
  is an \<open>int\<close>.
\<close>
lemma job_duration_delivers:
  assumes "env_ok os" and "tag_safe app" "tag_safe host" "tag_safe cluster"
    and "session_ready app host cluster w"
    and "transport_works os (transport_type (init_data w))" and "Write_mutex \<notin> held w"
    and "secs = os_time os (trace w) - uint (start_time (init_data w))"
    and "INT_MIN \<le> secs" "secs \<le> INT_MAX"
    and "fits app host cluster (mpi_rank (init_data w)) (''__daap_jobduration: '' @ dec_int secs)"
  shows "wp (daapLogJobDuration os)
           (\<lambda>r w'. r = DAAP_SUCCESS \<and>
              (\<exists>line. delivered (trace w') = delivered (trace w) @ [line] \<and>
                 reads_as app host cluster (mpi_rank (init_data w))
                   (''__daap_jobduration: '' @ dec_int secs) line)) w"
proof -
  let ?m = "''__daap_jobduration: '' @ dec_int secs"
  let ?w = "w\<lparr>trace := trace w @ [EvTime (os_time os (trace w))]\<rparr>"
  let ?arg = "IntArg (word_of_int (os_time os (trace w)) - start_time (init_data w))"
  have "directive ''d'' = Some (Conv_d, [])" by (simp add: directive_def strip_prefix_def)
  then have "format ''%d'' [?arg] = Some (dec_int secs)"
    using printed_duration_exact [of "os_time os (trace w)" "start_time (init_data w)"] assms(8-10)
    by (simp add: format_step printed_duration_def)
  then have fmt: "format ''__daap_jobduration: %d'' [?arg] = Some ?m"
    using format_plain_append [of "''__daap_jobduration: ''" "''%d''" "[?arg]"]
    by (simp add: plain_def)
  have safe: "field_safe ?m"
    using dec_avoids by (auto simp: field_safe_def dquote_def dec_int_def)
  have len: "length ?m \<le> DAAP_MAX_MSG_LEN"
    using assms(11) by (simp add: fits_def c_consts max_size_def)
  have ready: "session_ready app host cluster ?w" using assms(5) by (simp add: session_ready_def)
  have "wp (daapLogWrite os ''__daap_jobduration: %d'' [?arg])
      (\<lambda>r w'. r = DAAP_SUCCESS \<and>
         (\<exists>h. delivered (trace w') = delivered (trace w) @
            [snprintf_str max_size (influx_line app host cluster (mpi_rank (init_data w)) ?m (clock_ns os h))])) ?w"
    using job.write_delivers [OF assms(1) ready _ fmt len, of os] assms(6,7)
    by (auto simp: daapLogWrite_def delivered_by_def elim: wp_mono)
  then have "wp (daapLogWrite os ''__daap_jobduration: %d'' [?arg])
      (\<lambda>r w'. r = DAAP_SUCCESS \<and> (\<exists>line. delivered (trace w') = delivered (trace w) @ [line] \<and>
         reads_as app host cluster (mpi_rank (init_data w)) ?m line)) ?w"
    by (rule wp_mono) (use short_line_reads [OF assms(1-4) safe assms(11)] in blast)
  then show ?thesis by (simp add: daapLogJobDuration_def wp_eqs Let_def)
qed

lemma job_duration_delivers_witness:
  "wp (daapLogJobDuration (os_good\<lparr>os_time := (\<lambda>_. 90)\<rparr>))
     (\<lambda>r w'. r = 0 \<and> (\<exists>line. delivered (trace w') = [line] \<and>
        reads_as ''vpic'' ''nid00042'' ''trinity'' 7 ''__daap_jobduration: 90'' line))
     (world_ready SYSLOG)"
  using job_duration_delivers [of "os_good\<lparr>os_time := (\<lambda>_. 90)\<rparr>" "''vpic''" "''nid00042''"
      "''trinity''" "world_ready SYSLOG" 90]
  by (simp add: transport_works_def env_ok_def os_good_def c_consts fits_def influx_head_def
      dec_int_def dec.simps max_size_def digit_char_def char_of_def bit_0)

section \<open>TCP without certificates\<close>

lemma ssl_no_certs:
  "os_getenv os DAAP_CERTS_ENVVAR = None \<Longrightarrow> preserves sslctx (daapInitializeSSL os)"
  by (auto simp: daapInitializeSSL_def intro!: preservesI)

lemma init_keeps_sslctx:
  assumes "os_getenv os DAAP_CERTS_ENVVAR = None"
  shows "preserves sslctx (daapInit os app l g tt)"
proof -
  have rank: "preserves sslctx (find_rank os)"
    unfolding find_rank_def take_rank_def by (intro frame same_onI; simp)
  have rest: "preserves sslctx (init_rest os l tt r)" for r
    unfolding init_rest_def init_cluster_def init_transport_def calloc_strcpy_def
    by (intro frame same_onI ssl_no_certs assms; simp)
  have "preserves sslctx (init_locked os app l g tt)"
    unfolding init_locked_def calloc_strcpy_def init_hostname_def strdup_def
    by (intro frame rest; simp)
  then show ?thesis
    unfolding daapInit_def by (intro frame rank; simp)
qed

text \<open>
  When \<open>DAAP_CERTS\<close> is not set, a first \<open>daapInit\<close> for TCP reports the problem on the
  error stream only: it returns success and leaves the library initialised for TCP with a
  null TLS context.
\<close>
lemma init_without_certs:
  assumes "\<not> daapInit_called w" "\<not> daapRank_zero w" and "init_env os host"
    and "held w = {}" and "rank_value os = Some rank" and "\<not> reports_job os"
    and "os_getenv os DAAP_CERTS_ENVVAR = None" and "sslctx w = None"
  shows "wp (daapInit os app l g TCP)
           (\<lambda>r w'. r = DAAP_SUCCESS \<and> daapInit_called w' \<and>
              transport_type (init_data w') = TCP \<and> sslctx w' = None) w"
proof -
  from assms(1-5) obtain v where run: "daapInit os app l g TCP w =
      (if reports_job os then daapLogJobStart os v else Ret DAAP_SUCCESS v)"
    and post: "init_post os app host g TCP w v"
    by (rule daapInit_first)
  from run assms(6) have ret: "daapInit os app l g TCP w = Ret DAAP_SUCCESS v" by simp
  then have "sslctx v = sslctx w" by (rule preservesD [OF init_keeps_sslctx [OF assms(7)]])
  with ret post assms(8) show ?thesis by (simp add: wp_def init_post_def)
qed

lemma init_without_certs_witness:
  "wp (daapInit (os_rank ''7'') ''vpic'' 5 0 TCP)
     (\<lambda>r w'. r = 0 \<and> daapInit_called w' \<and> transport_type (init_data w') = TCP \<and>
        sslctx w' = None) world0"
  using init_without_certs [of world0 "os_rank ''7''" "''nid00042''" 7 "''vpic''" 5 0]
  by (simp add: DAAP_SUCCESS_def)

section \<open>Strings of the caller\<close>

lemma cstr_terminated:
  "n < length buf \<Longrightarrow> cstr (buf[n := nul]) = cstr (take n buf)"
proof -
  assume "n < length buf"
  then have "buf[n := nul] = take n buf @ nul # drop (Suc n) buf" by (rule upd_conv_take_nth_drop)
  then show ?thesis by (auto simp: cstr_def takeWhile_append takeWhile_eq_all_conv [THEN iffD2, symmetric])
qed

text \<open>
  The Fortran entry points for messages and initialisation behave like the C functions on
  the first \<open>len\<close> characters of the buffer when the buffer has a byte to spare for the
  terminator; with a length that fills the buffer, which is what Fortran passes, they write
  one byte past its end.
\<close>
lemma fortran_strings:
  "daaplogwrite_F os buf len w =
     (if 0 \<le> len \<and> len < int (length buf)
      then bindC (daapLogWrite os (cstr (take (nat len) buf)) []) (\<lambda>r. ret ()) w
      else Faults OutOfBounds) \<and>
   daapinit_F os buf len w =
     (if 0 \<le> len \<and> len < int (length buf)
      then bindC (daapInit os (cstr (take (nat len) buf)) 0 DAAP_AGG_OFF TCP) (\<lambda>r. ret ()) w
      else Faults OutOfBounds)"
proof (cases "0 \<le> len \<and> len < int (length buf)")
  case True
  then have "nat len < length buf" by linarith
  with True show ?thesis
    by (simp add: daaplogwrite_F_def daapinit_F_def fortran_string_def cstr_terminated)
qed (auto simp: daaplogwrite_F_def daapinit_F_def fortran_string_def)

lemma format_missing:
  assumes "plain pre" and "conv \<in> {''d'', ''s'', ''n'', ''ld'', ''lu'', ''lld''}"
  shows "format (pre @ CHR ''%'' # conv @ rest) [] = None"
  using assms
  by (auto simp: format_plain_append format_step directive_def strip_prefix_def)

text \<open>
  C40: Both writers take their message as a format, so a text of the caller's own that contains a
  conversion is not logged. In an initialised process in which the null device opens, for a message
  whose first percent sign begins one of the conversions \<open>%d\<close>, \<open>%s\<close>, \<open>%n\<close>, \<open>%ld\<close>, \<open>%lu\<close> and \<open>%lld\<close>, passed
  without further arguments: \<open>daapLogWrite\<close> and \<open>daapLogRawWrite\<close> read an argument that was never
  passed, before anything is sent. (The sequence \<open>%%\<close> reads none and is not among them.)
\<close>
theorem message_is_a_format:
  assumes "daapInit_called w" and "\<And>h. os_fopen_null os h" and "plain pre"
    and "conv \<in> {''d'', ''s'', ''n'', ''ld'', ''lu'', ''lld''}"
  shows "daapLogWrite os (pre @ CHR ''%'' # conv @ rest) [] w = Faults BadFormat \<and>
         daapLogRawWrite os (pre @ CHR ''%'' # conv @ rest) [] w = Faults BadFormat"
  using assms(1,2) format_missing [OF assms(3,4)]
  by (simp add: log_defs log_write_via_def log_raw_via_def format_message_def
      null_device_length_def)

theorem message_is_a_format_witness:
  "daapLogWrite os_good ''100%sure'' [] (world_ready TCP) = Faults BadFormat \<and>
   daapLogRawWrite os_good ''100%due'' [] (world_ready TCP) = Faults BadFormat"
  using message_is_a_format [of "world_ready TCP" os_good "''100''" "''s''" "''ure''"]
    message_is_a_format [of "world_ready TCP" os_good "''100''" "''d''" "''ue''"]
  by (simp add: os_good_def plain_def)

section \<open>Raw lines\<close>

text \<open>
  Over a transport that works, \<open>daapLogRawWrite\<close> delivers one line: the message, formatted
  with its arguments, behind the measurement name, cut to the 2047 bytes of the buffer.
\<close>
lemma raw_write_delivers:
  assumes "env_ok os" and "daapInit_called w"
    and "transport_works os (transport_type (init_data w))" and "Write_mutex \<notin> held w"
    and "format message args = Some out" and "length out \<le> DAAP_MAX_MSG_LEN"
  shows "wp (daapLogRawWrite os message args)
           (\<lambda>r w'. r = 0 \<and> init_data w' = init_data w \<and> held w' = held w \<and>
              delivered (trace w') = delivered (trace w) @ [take 2047 (''daap,'' @ out)]) w"
  using job.raw_delivers [OF assms(1,2) conjI [OF assms(3,4)] assms(5,6)]
  by (simp add: daapLogRawWrite_def snprintf_str_def max_size_def)

lemma raw_write_delivers_witness:
  "wp (daapLogRawWrite os_good ''%s value=1'' [StrArg ''host=a''])
     (\<lambda>r w'. r = 0 \<and> init_data w' = init_data (world_ready SYSLOG) \<and> held w' = {} \<and>
        delivered (trace w') = [''daap,host=a value=1'']) (world_ready SYSLOG)"
  using raw_write_delivers [of os_good "world_ready SYSLOG" "''%s value=1''" "[StrArg ''host=a'']"
      "''host=a value=1''"]
  by (simp add: transport_works_def format.simps directive_def strip_prefix_def c_consts)

end
