(* ===== verification/Resources.thy ===== *)
theory Resources
  imports Lifecycle
begin

text \<open>
  What a job leaves behind: memory, streams, sockets, TLS objects and TLS contexts. The locale
  \<open>metered_transport\<close> extends the interface of the transports with the resources that one
  line costs; its interpretation for a job over either transport gives the balance of a
  whole job. Everything is given back except the TLS objects: every message makes one and
  only the last is ever freed.
\<close>

section \<open>Transports with a cost\<close>

locale metered_transport = reliable_transport +
  fixes cost :: "resource \<Rightarrow> int"
  assumes send_costs:
      "ready w \<Longrightarrow> s \<noteq> [] \<Longrightarrow> int (length s) \<le> INT_MAX \<Longrightarrow>
         wlp (send s) (\<lambda>_ w'. (\<forall>k. balance k (trace w') = balance k (trace w) + cost k) \<and>
           (cSSL w' = None \<longleftrightarrow> cSSL w = None \<and> cost Tls = 0)) w"
begin

lemma write_costs:
  assumes "env_ok os" and "session_ready app host cluster w" and "ready w"
    and "format message args = Some out" and "length out \<le> DAAP_MAX_MSG_LEN"
    and "log_write_via send os message args w = Ret r w'"
  shows "balance k (trace w') = balance k (trace w) + cost k"
    and "cSSL w' = None \<longleftrightarrow> cSSL w = None \<and> cost Tls = 0"
proof -
  let ?s = "sent_line os app host cluster (mpi_rank (init_data w)) out (trace w)"
  let ?w = "w\<lparr>trace := line_history os (trace w)\<rparr>"
  have "ready ?w" by (rule ready_stable [OF assms(3)]) simp_all
  then obtain v where send: "send ?s ?w = Ret () v"
    by (rule send_effect [OF _ sent_line_length])
  with send_costs [OF \<open>ready ?w\<close> sent_line_length, of os app host cluster "mpi_rank (init_data w)" out "trace w"]
  have v: "\<forall>k. balance k (trace v) = balance k (line_history os (trace w)) + cost k"
    "cSSL v = None \<longleftrightarrow> cSSL w = None \<and> cost Tls = 0"
    by (simp_all add: wlp_iff)
  have "w' = v\<lparr>trace := trace v @ [EvFree ?s]\<rparr>"
    using log_write_via_run [OF assms(1,2,4,5) refl, of send] assms(6) by (simp add: send)
  with v show "balance k (trace w') = balance k (trace w) + cost k"
    "cSSL w' = None \<longleftrightarrow> cSSL w = None \<and> cost Tls = 0"
    by (simp_all add: line_history_def Let_def)
qed

lemma writes_cost:
  assumes "env_ok os" and "session_ready app host cluster w" and "ready w"
    and "\<forall>m \<in> set ms. plain m \<and> length m \<le> DAAP_MAX_MSG_LEN"
    and "forC ms (\<lambda>m. log_write_via send os m []) w = Ret u w'"
  shows "balance k (trace w') = balance k (trace w) + int (length ms) * cost k"
    and "cSSL w' = None \<longleftrightarrow> cSSL w = None \<and> (ms = [] \<or> cost Tls = 0)"
proof -
  have "(\<forall>k. balance k (trace w') = balance k (trace w) + int (length ms) * cost k) \<and>
      (cSSL w' = None \<longleftrightarrow> cSSL w = None \<and> (ms = [] \<or> cost Tls = 0))"
    using assms(2-5)
  proof (induction ms arbitrary: w)
    case (Cons m ms)
    from Cons.prems have m: "format m [] = Some m" "length m \<le> DAAP_MAX_MSG_LEN"
      by (simp_all add: format_plain)
    obtain r v where run: "log_write_via send os m [] w = Ret r v"
      and v: "session_ready app host cluster v" "ready v"
      using write_delivers [OF assms(1) Cons.prems(1,2) m] by (auto simp: wp_iff)
    have "forC ms (\<lambda>m. log_write_via send os m []) v = Ret u w'"
      using Cons.prems(4) run by simp
    with Cons.IH [OF v] Cons.prems(3) write_costs [OF assms(1) Cons.prems(1,2) m run]
    show ?case by (auto simp: algebra_simps)
  qed simp
  then show "balance k (trace w') = balance k (trace w) + int (length ms) * cost k"
    "cSSL w' = None \<longleftrightarrow> cSSL w = None \<and> (ms = [] \<or> cost Tls = 0)" by auto
qed

end

section \<open>The transports of a job\<close>

text \<open>A line over TLS costs one TLS object; over syslog nothing.\<close>

definition line_cost :: "transport \<Rightarrow> resource \<Rightarrow> int" where
  "line_cost tt k = of_bool (k = Tls \<and> tt = TCP)"

definition makes_tls :: "os \<Rightarrow> bool" where
  "makes_tls os \<longleftrightarrow> (\<forall>c h. os_ssl_new os c h \<noteq> None)"

lemma tcp_costs:
  assumes "tls_up os" "writes_whole os" "makes_tls os" and "s \<noteq> []" "int (length s) \<le> INT_MAX"
  shows "wlp (daapTCPLogWrite os s (int (length s)))
           (\<lambda>_ w'. (\<forall>k. balance k (trace w') = balance k (trace w) + line_cost TCP k) \<and>
              cSSL w' \<noteq> None) w"
proof -
  have sent: "wlp (run_loop (ssl_write_loop os s (int (length s)) 0 0)) Q v =
      Q (int (length s)) (v\<lparr>trace := trace v @ [EvSslWrite (cSSL v) s (int (length s))]\<rparr>)" for Q v
    by (simp add: wlp_def run_loop_def loop_whole [OF assms(2,4,5)])
  have up: "0 \<le> os_socket os h" for h using assms(1) by (simp add: tls_up_def)
  show ?thesis
    using assms(3)
    by (auto simp: daapTCPLogWrite_def daapTCPConnect_def wp_eqs tls_upD [OF assms(1)] up sent
        makes_tls_def line_cost_def)
qed

interpretation metered_job: metered_transport
  "transmit os"
  "\<lambda>w. transport_works os tt \<and> transport_type (init_data w) = tt \<and> makes_tls os \<and>
     Write_mutex \<notin> held w"
  "line_cost tt" for os tt
proof (unfold_locales, goal_cases)
  case (2 w s)
  then show ?case using job.send_delivers [of os w s] by simp
next
  case (6 w s)
  show ?case
  proof (cases "tt = TCP")
    case True
    with 6 show ?thesis
      using tcp_costs [of os s w]
      by (auto simp: transmit_def wp_eqs transport_works_def line_cost_def elim!: wlp_mono)
  next
    case False
    with 6 show ?thesis
      by (auto simp: transport_works_def transmit_syslog wlp_def line_cost_def)
  qed
qed (simp_all add: frame transmit_held)

section \<open>A whole job\<close>

lemma write_balance:
  assumes "env_ok os" and "session_ready app host cluster w"
    and "transport_works os tt" "transport_type (init_data w) = tt" "makes_tls os"
    and "Write_mutex \<notin> held w" and "plain m" and "length m \<le> DAAP_MAX_MSG_LEN"
    and "daapLogWrite os m [] w = Ret r v"
  shows "balance k (trace v) = balance k (trace w) + line_cost tt k"
    and "cSSL v = None \<longleftrightarrow> cSSL w = None \<and> tt \<noteq> TCP"
    and "init_data v = init_data w" "held v = held w" "sslctx v = sslctx w"
    and "session_ready app host cluster v"
proof -
  have ready: "transport_works os tt \<and> transport_type (init_data w) = tt \<and> makes_tls os \<and>
     Write_mutex \<notin> held w" using assms(3-6) by blast
  have run: "log_write_via (transmit os) os m [] w = Ret r v"
    using assms(9) by (simp add: daapLogWrite_def)
  from metered_job.write_costs [OF assms(1,2) ready format_plain [OF assms(7), of "[]"] assms(8) run]
  show "balance k (trace v) = balance k (trace w) + line_cost tt k"
    "cSSL v = None \<longleftrightarrow> cSSL w = None \<and> tt \<noteq> TCP"
    by (simp_all add: line_cost_def)
  from metered_job.write_delivers [OF assms(1,2) ready format_plain [OF assms(7), of "[]"] assms(8)] run
  show "init_data v = init_data w" "held v = held w" "session_ready app host cluster v"
    by (simp_all add: wp_iff)
  have "preserves sslctx (daapLogWrite os m [])" by (intro frame; simp)
  then show "sslctx v = sslctx w" using assms(9) by (rule preservesD)
qed

lemma shutdown_balance:
  "balance k (shutdown_events c s) =
     - of_bool (k = Context \<and> c \<noteq> None) - of_bool (k = Tls \<and> s \<noteq> None)"
  by (cases s) (auto simp: shutdown_events_def)

lemma finalized_balance:
  "balance k (trace (finalized app host cluster w)) =
     balance k (trace w) - (if k = Memory then 3 else 0) -
     of_bool (k = Context \<and> sslctx w \<noteq> None) - of_bool (k = Tls \<and> cSSL w \<noteq> None)"
  by (simp add: finalized_def shutdown_balance)

text \<open>The balance of each part of a job: its start, its messages, its end.\<close>

definition job_part :: "os \<Rightarrow> transport \<Rightarrow> nat \<Rightarrow> world \<Rightarrow> world \<Rightarrow> bool" where
  "job_part os tt n w v \<longleftrightarrow>
     (\<forall>k. balance k (trace v) = balance k (trace w) + int n * line_cost tt k) \<and>
     (cSSL v = None \<longleftrightarrow> cSSL w = None \<and> (n = 0 \<or> tt \<noteq> TCP)) \<and> sslctx v = sslctx w \<and>
     init_data v = init_data w"

lemma start_balance:
  assumes "env_ok os" and "transport_works os tt" and "init_env os host" and "makes_tls os"
    and "\<not> daapInit_called w" "\<not> daapRank_zero w" "held w = {}" and "rank_value os = Some rank"
    and "daapInit os app l g tt w = Ret r v"
  obtains u where "init_post os app host g tt w u" and "job_part os tt (of_bool (reports_job os)) u v"
proof -
  obtain u where run: "daapInit os app l g tt w =
      (if reports_job os then daapLogJobStart os u else Ret DAAP_SUCCESS u)"
    and u: "init_post os app host g tt w u" "session_ready app host (env_cluster os) u"
    by (rule daapInit_first [OF assms(5,6,3,7,8)])
  have "job_part os tt (of_bool (reports_job os)) u v"
  proof (cases "reports_job os")
    case True
    with run assms(9) have log: "daapLogWrite os ''__daap_jobstart'' [] u = Ret r v"
      by (simp add: daapLogJobStart_def)
    have "transport_type (init_data u) = tt" "Write_mutex \<notin> held u" "plain ''__daap_jobstart''"
      "length ''__daap_jobstart'' \<le> DAAP_MAX_MSG_LEN"
      using u(1) assms(7) by (simp_all add: init_post_def plain_def c_consts)
    note balance = write_balance [OF assms(1) u(2) assms(2) this(1) assms(4) this(2-4) log]
    with True show ?thesis by (auto simp: job_part_def)
  next
    case False
    with run assms(9) show ?thesis by (simp add: job_part_def)
  qed
  with u(1) show ?thesis by (rule that)
qed

lemma messages_balance:
  assumes "env_ok os" and "session_ready app host cluster w" and "transport_works os tt"
    and "transport_type (init_data w) = tt" and "makes_tls os" and "Write_mutex \<notin> held w"
    and "\<forall>m \<in> set ms. plain m \<and> length m \<le> DAAP_MAX_MSG_LEN"
    and "log_all os ms w = Ret x v"
  shows "job_part os tt (length ms) w v"
proof -
  have ready: "transport_works os tt \<and> transport_type (init_data w) = tt \<and> makes_tls os \<and>
     Write_mutex \<notin> held w" using assms(3-6) by blast
  have run: "forC ms (\<lambda>m. log_write_via (transmit os) os m []) w = Ret x v"
    using assms(8) by (simp add: log_all_via)
  have "preserves sslctx (log_all os ms)" unfolding log_all_def by (intro frame; simp)
  then have "sslctx v = sslctx w" using assms(8) by (rule preservesD)
  with metered_job.writes_cost [OF assms(1,2) ready assms(7) run] log_all_keeps(1) [OF assms(8)]
  show ?thesis by (auto simp: job_part_def line_cost_def)
qed

lemma end_balance:
  assumes "env_ok os" and "session_ready app host cluster w" and "transport_works os tt"
    and "transport_type (init_data w) = tt" and "makes_tls os" and "held w = {}"
    and "reports_job os = (daapRank_zero w \<and> decouple_off os)"
    and "daapFinalize os w = Ret r v"
  obtains u where "job_part os tt (of_bool (reports_job os)) w u"
    and "balance k (trace v) = balance k (trace (finalized app host cluster u))"
proof (cases "reports_job os")
  case False
  then have "v = finalized app host cluster w"
    using daapFinalize_silent [OF assms(2)] assms(6-8) by auto
  with False that [of w] show ?thesis by (simp add: job_part_def)
next
  case True
  let ?w = "w\<lparr>held := insert Finalize_mutex (held w)\<rparr>"
  have ready: "session_ready app host cluster ?w" using assms(2) by (simp add: session_ready_def)
  obtain j u where log: "daapLogWrite os ''__daap_jobend'' [] ?w = Ret j u"
    using True assms(6-8)
    by (cases "daapLogWrite os ''__daap_jobend'' [] ?w") (auto simp: daapFinalize_def daapLogJobEnd_def)
  have "plain ''__daap_jobend''" "length ''__daap_jobend'' \<le> DAAP_MAX_MSG_LEN"
    by (simp_all add: plain_def c_consts)
  note balance = write_balance [OF assms(1) ready assms(3) _ assms(5) _ this log]
  have u: "session_ready app host cluster u" "held u = insert Finalize_mutex (held w)"
    using balance(4,6) assms(4,6) by simp_all
  have "daapFinalize os w = Ret j ((finalized app host cluster u)\<lparr>held := held w\<rparr>)"
    using True assms(6,7) log u
    by (intro daapFinalize_reporting) (simp_all add: daapLogJobEnd_def)
  then have "trace v = trace (finalized app host cluster u)" using assms(8) by simp
  moreover have "job_part os tt (of_bool (reports_job os)) w u"
    using balance(1-3,5) assms(4,6) True by (auto simp: job_part_def)
  ultimately show ?thesis using that by simp
qed

lemma job_balance:
  assumes "env_ok os" and "transport_works os tt" and "init_env os host" and "makes_tls os"
    and "\<not> daapInit_called w" "\<not> daapRank_zero w" "held w = {}" and "rank_value os = Some rank"
    and "tag_safe app" "tag_safe host" "tag_safe (env_cluster os)"
    and "\<forall>m \<in> set (job_messages os ms).
           plain m \<and> field_safe m \<and> fits app host (env_cluster os) rank m"
    and "cSSL w = None" "sslctx w = None" and "n = length (job_messages os ms)"
  shows "wp (whole_job os app l g tt ms)
           (\<lambda>r w'. \<forall>k. balance k (trace w') =
              balance k (trace w) + (if k = Tls \<and> tt = TCP then int (n - 1) else 0)) w"
proof -
  have short: "\<forall>m \<in> set ms. plain m \<and> length m \<le> DAAP_MAX_MSG_LEN"
    using assms(12) by (fastforce simp: job_messages_def fits_def c_consts max_size_def split: if_splits)
  obtain v x r y where init: "daapInit os app l g tt w = Ret DAAP_SUCCESS v"
    and log: "log_all os ms v = Ret () x" and fin: "daapFinalize os x = Ret r y"
    and v: "session_ready app host (env_cluster os) v" "transport_type (init_data v) = tt" "held v = {}"
    and x: "session_ready app host (env_cluster os) x" "init_data x = init_data v" "held x = {}"
      "reports_job os = (daapRank_zero x \<and> decouple_off os)"
    by (rule job_phases [OF assms(1-3,5-12), of l g])
  obtain u where u: "init_post os app host g tt w u" "job_part os tt (of_bool (reports_job os)) u v"
    by (rule start_balance [OF assms(1-8) init])
  have mid: "job_part os tt (length ms) v x"
    using v(3) by (intro messages_balance [OF assms(1) v(1) assms(2) v(2) assms(4) _ short log]) simp
  have "transport_type (init_data x) = tt" using x(2) v(2) by simp
  then have "\<exists>z. job_part os tt (of_bool (reports_job os)) x z \<and>
      balance k (trace y) = balance k (trace (finalized app host (env_cluster os) z))" for k
    using end_balance [OF assms(1) x(1) assms(2) _ assms(4) x(3,4) fin, of k] by blast
  moreover have "balance k (trace y) =
      balance k (trace w) + (if k = Tls \<and> tt = TCP then int (n - 1) else 0)"
    if z: "job_part os tt (of_bool (reports_job os)) x z"
      and y: "balance k (trace y) = balance k (trace (finalized app host (env_cluster os) z))" for k z
  proof -
    have ctx: "sslctx z = sslctx u" and tls: "(cSSL z = None) = (tt \<noteq> TCP \<or> n = 0)"
      using u mid z assms(13,15)
      by (auto simp: job_part_def init_post_def job_messages_def)
    have "balance k (trace z) = balance k (trace u) + int n * line_cost tt k"
      using u(2) mid z assms(15)
      by (auto simp: job_part_def job_messages_def algebra_simps)
    moreover have "balance k (trace u) = balance k (trace w) +
        (if k = Memory then 3 else of_bool (k = Context \<and> sslctx u \<noteq> None))"
      using u(1) assms(14) by (simp add: init_post_def)
    ultimately show ?thesis
      using y ctx tls by (cases k) (auto simp: finalized_balance line_cost_def)
  qed
  ultimately have "\<forall>k. balance k (trace y) =
      balance k (trace w) + (if k = Tls \<and> tt = TCP then int (n - 1) else 0)" by blast
  moreover have "whole_job os app l g tt ms w = Ret r y"
    by (simp add: whole_job_def init log fin)
  ultimately show ?thesis by (simp add: wp_def)
qed

text \<open>
  C9: A job that runs from \<open>daapInit\<close> to \<open>daapFinalize\<close> in the conditions of \<open>whole_job_delivers\<close> (release build
  with memory, Slurm environment, tag-safe names, messages that fit a line, and syslog or a
  collector that accepts every connection, handshake and whole write), with an \<open>SSL_new\<close> that always makes
  an object and no TLS object or context at the start, gives back all memory, the null device, all
  sockets and the TLS context. Over TLS it does not give back the connections: every message makes
  a TLS object, the next message overwrites the only pointer to it, and \<open>daapFinalize\<close> frees the
  last one, so that a job of \<open>n\<close> messages leaks \<open>n - 1\<close> of them. (A connection that is refused leaks
  its socket as well: \<open>log_write_silent_loss\<close>.)
\<close>
theorem job_resources:
  assumes "env_ok os" and "transport_works os tt" and "init_env os host" and "makes_tls os"
    and "\<not> daapInit_called w" "\<not> daapRank_zero w" "held w = {}" and "rank_value os = Some rank"
    and "tag_safe app" "tag_safe host" "tag_safe (env_cluster os)"
    and "\<forall>m \<in> set (job_messages os ms).
           plain m \<and> field_safe m \<and> fits app host (env_cluster os) rank m"
    and "cSSL w = None" "sslctx w = None" and "n = length (job_messages os ms)"
  shows "wp (whole_job os app l g tt ms)
           (\<lambda>r w'. \<forall>k. balance k (trace w') =
              balance k (trace w) + (if k = Tls \<and> tt = TCP then int (n - 1) else 0)) w"
  by (rule job_balance [OF assms])

theorem job_resources_witness:
  "wp (whole_job (os_rank ''0'') ''vpic'' 5 0 TCP [''step 1''])
     (\<lambda>r w'. balance Tls (trace w') = 2 \<and> balance Descriptor (trace w') = 0 \<and>
        balance Memory (trace w') = 0) world0"
proof -
  have "makes_tls (os_rank ''0'')" by (simp add: makes_tls_def os_rank_def os_good_def)
  moreover have "cSSL world0 = None" by (simp add: world0_def)
  ultimately have "wp (whole_job (os_rank ''0'') ''vpic'' 5 0 TCP [''step 1''])
      (\<lambda>r w'. \<forall>k. balance k (trace w') = balance k (trace world0) +
         (if k = Tls \<and> TCP = TCP then int (3 - 1) else 0)) world0"
    by (intro job_resources [of "os_rank ''0''" TCP "''nid00042''" world0 0 "''vpic''" "[''step 1'']" 3 5 0])
      (simp_all add: transport_works_def job_messages_def plain_def field_safe_def
        dquote_def fits_def influx_head_def dec_int_def dec.simps max_size_def)
  then show ?thesis by (rule wp_mono) simp
qed

end
