(* ===== verification/Session.thy ===== *)
theory Session
  imports Lifecycle
begin

text \<open>
  The interface as a transition system: the calls that a client makes, C or Fortran, with any
  arguments, the step relation \<open>call\<close> of the calls that return, and the states \<open>reachable\<close> from the start
  of the process. The functions of the transport, the line builders and the metrics, which
  \<open>daap_log.h\<close> declares as well, are not calls of their own here. A call that faults or does not
  return has no successor, so a property of the reachable states is one of partial correctness.
  The properties hold for every client and every environment: no call that returns leaves
  a mutex locked and no call waits for one forever, the process is ended only by the write
  loop, the history only grows, nothing is delivered before a successful \<open>daapInit\<close>, and
  every syslog line has priority 0.
\<close>

section \<open>Calls\<close>

datatype api =
    Init string int int transport
  | LogWrite string "arg list"
  | LogRawWrite string "arg list"
  | LogHeartbeat
  | LogJobStart
  | LogJobDuration
  | LogJobEnd
  | LogRead int int int
  | SetRank int
  | Finalize
  | F_Init string int
  | F_LogWrite string int
  | F_LogHeartbeat
  | F_LogJobStart
  | F_LogJobDuration
  | F_LogJobEnd
  | F_SetRank int
  | F_Finalize

text \<open>
  The result is \<open>None\<close> for a \<open>void\<close> function, as all Fortran entry points are.
\<close>

fun exec :: "os \<Rightarrow> api \<Rightarrow> (world, int option) cmd" where
  "exec os (Init app l g tt) = bindC (daapInit os app l g tt) (\<lambda>r. ret (Some r))"
| "exec os (LogWrite m as) = bindC (daapLogWrite os m as) (\<lambda>r. ret (Some r))"
| "exec os (LogRawWrite m as) = bindC (daapLogRawWrite os m as) (\<lambda>r. ret (Some r))"
| "exec os LogHeartbeat = bindC (daapLogHeartbeat os) (\<lambda>r. ret (Some r))"
| "exec os LogJobStart = bindC (daapLogJobStart os) (\<lambda>r. ret (Some r))"
| "exec os LogJobDuration = bindC (daapLogJobDuration os) (\<lambda>r. ret (Some r))"
| "exec os LogJobEnd = bindC (daapLogJobEnd os) (\<lambda>r. ret (Some r))"
| "exec os (LogRead k t n) = bindC (daapLogRead k t n) (\<lambda>r. ret (Some r))"
| "exec os (SetRank r) = bindC (daapSetRank r) (\<lambda>u. ret None)"
| "exec os Finalize = bindC (daapFinalize os) (\<lambda>r. ret (Some r))"
| "exec os (F_Init app len) = bindC (daapinit_F os app len) (\<lambda>u. ret None)"
| "exec os (F_LogWrite m len) = bindC (daaplogwrite_F os m len) (\<lambda>u. ret None)"
| "exec os F_LogHeartbeat = bindC (daaplogheartbeat_F os) (\<lambda>u. ret None)"
| "exec os F_LogJobStart = bindC (daaplogjobstart_F os) (\<lambda>u. ret None)"
| "exec os F_LogJobDuration = bindC (daaplogjobduration_F os) (\<lambda>u. ret None)"
| "exec os F_LogJobEnd = bindC (daaplogjobend_F os) (\<lambda>u. ret None)"
| "exec os (F_SetRank r) = bindC (daapsetrank_F r) (\<lambda>u. ret None)"
| "exec os F_Finalize = bindC (daapfinalize_F os) (\<lambda>u. ret None)"

text \<open>
  A Fortran entry point is the C function behind it on a string whose terminator has been
  stored.
\<close>

lemmas fortran_entries =
  daapinit_F_def daaplogwrite_F_def daaplogheartbeat_F_def daaplogjobstart_F_def
  daaplogjobduration_F_def daaplogjobend_F_def daapsetrank_F_def daapfinalize_F_def
  fortran_call

inductive call :: "os \<Rightarrow> world \<Rightarrow> api \<Rightarrow> int option \<Rightarrow> world \<Rightarrow> bool" for os where
  returns: "exec os c w = Ret r w' \<Longrightarrow> call os w c r w'"

inductive reachable :: "os \<Rightarrow> world \<Rightarrow> bool" for os where
  start: "reachable os world0"
| step: "reachable os w \<Longrightarrow> call os w c r w' \<Longrightarrow> reachable os w'"

inductive_cases callE: "call os w c r w'"
inductive_simps call_iff: "call os w c r w'"

text \<open>A relation that every call keeps holds over every call.\<close>

lemma exec_keeps:
  assumes "step_order R"
    and "\<And>app l g tt. keeps R (daapInit os app l g tt)" and "\<And>m as. keeps R (daapLogWrite os m as)"
    and "\<And>m as. keeps R (daapLogRawWrite os m as)" and "keeps R (daapLogHeartbeat os)"
    and "keeps R (daapLogJobStart os)" and "keeps R (daapLogJobDuration os)"
    and "keeps R (daapLogJobEnd os)" and "\<And>r. keeps R (daapSetRank r)"
    and "keeps R (daapFinalize os)"
  shows "keeps R (exec os c)"
  using assms(2-)
  by (cases c)
    (simp_all add: daapLogRead_def fortran_entries step_order.rules(1,3) [OF assms(1)]
      step_order.prims [OF assms(1)])

section \<open>Mutexes\<close>

lemma daapInit_held: "preserves held (daapInit os app l g tt)"
proof (rule preservesI)
  fix w r w'
  assume run: "daapInit os app l g tt w = Ret r w'"
  let ?w = "w\<lparr>held := insert Init_mutex (held w)\<rparr>"
  from run have new: "Init_mutex \<notin> held w"
    by (auto simp: daapInit_def lock_def bindC_def seqC_def split: if_splits)
  with run obtain a go_on u where lck: "init_locked os app l g tt ?w = Ret (a, go_on) u"
    by (cases "init_locked os app l g tt ?w") (auto simp: daapInit_def)
  have "preserves held (if \<not> go_on then ret a
     else if a < 0 then
       seqC (emit (EvPerror ''Fatal error''))
      (exitC 1)
     else
       seqC (find_rank os)
      (bindC (asks daapRank_zero) (\<lambda>zero.
       if zero \<and> decouple_off os then
         bindC (daapLogJobStart os) (\<lambda>r.
         ret (a + r))
       else ret a)))"
    by (intro frame init_pieces_held writers_held; simp)
  from preservesD [OF this, of "u\<lparr>held := held u - {Init_mutex}\<rparr>" r w'] run lck new
  have "held w' = held u - {Init_mutex}" by (simp add: daapInit_def)
  moreover have "held u = insert Init_mutex (held w)"
    using preservesD [OF init_locked_held lck] by simp
  ultimately show "held w' = held w" using new by simp
qed

lemma free_init_data_frame [frame]:
  assumes "\<And>w t. f (w\<lparr>trace := t\<rparr>) = f w" "\<And>w t. f (w\<lparr>init_data := t\<rparr>) = f w"
  shows "preserves f free_init_data"
  unfolding free_init_data_def by (intro frame assms)

lemma daapFinalize_held: "preserves held (daapFinalize os)"
proof (rule preservesI)
  fix w r w'
  assume run: "daapFinalize os w = Ret r w'"
  let ?w = "w\<lparr>held := insert Finalize_mutex (held w)\<rparr>"
  let ?body = "bindC (asks (\<lambda>w. os_indet os (trace w))) (\<lambda>indeterminate.
     bindC (asks daapRank_zero) (\<lambda>zero.
     bindC (if zero \<and> decouple_off os then daapLogJobEnd os else ret indeterminate) (\<lambda>ret_val.
     seqC daapShutdownSSL (seqC free_init_data (ret ret_val)))))"
  from run have new: "Finalize_mutex \<notin> held w"
    by (auto simp: daapFinalize_def lock_def bindC_def seqC_def split: if_splits)
  have "daapFinalize os w = bindC ?body (\<lambda>r. seqC (unlock Finalize_mutex) (ret r)) ?w"
    using new by (simp add: daapFinalize_def seqC_def bindC_assoc) (simp add: bindC_def split: outcome.split)
  with run obtain u where body: "?body ?w = Ret r u" and w': "w' = u\<lparr>held := held u - {Finalize_mutex}\<rparr>"
    by (cases "?body ?w") auto
  have "preserves held ?body" by (intro frame writers_held; simp)
  from preservesD [OF this body] new w' show "held w' = held w" by simp
qed

lemma daapSetRank_frame [frame]:
  "(\<And>w t. f (w\<lparr>init_data := t\<rparr>) = f w) \<Longrightarrow> preserves f (daapSetRank r)"
  unfolding daapSetRank_def by (intro frame)

lemma exec_held: "preserves held (exec os c)"
  by (intro exec_keeps same.step_order_axioms daapInit_held daapFinalize_held writers_held)
    (intro frame; simp)

section \<open>Deadlocks and exits\<close>

text \<open>
  \<open>clean L m\<close>: started without the mutexes of \<open>L\<close>, the command \<open>m\<close> never waits for a mutex
  forever, and if it ends the process, then with status 2.
\<close>

definition clean :: "mutex set \<Rightarrow> (world, 'a) cmd \<Rightarrow> bool" where
  "clean L m \<longleftrightarrow>
     (\<forall>w. held w \<inter> L = {} \<longrightarrow> m w \<noteq> Deadlocks \<and> (\<forall>n w'. m w = Exits n w' \<longrightarrow> n = 2))"

definition releases :: "world \<Rightarrow> world \<Rightarrow> bool" where
  "releases w w' \<longleftrightarrow> held w' \<subseteq> held w"

interpretation rel: step_order releases
  by unfold_locales (auto simp: releases_def)

lemma held_releases: "preserves held m \<Longrightarrow> keeps releases m"
  by (rule keepsI) (auto dest: preservesD simp: releases_def)

lemma cleanD:
  "clean L m \<Longrightarrow> held w \<inter> L = {} \<Longrightarrow> m w \<noteq> Deadlocks"
  "clean L m \<Longrightarrow> held w \<inter> L = {} \<Longrightarrow> m w = Exits n w' \<Longrightarrow> n = 2"
  by (auto simp: clean_def)

lemma clean_mono: "clean L m \<Longrightarrow> L \<subseteq> M \<Longrightarrow> clean M m"
  unfolding clean_def by blast

lemma clean_bind_post:
  assumes "clean L m" and "keeps releases m"
    and "\<And>w a w'. m w = Ret a w' \<Longrightarrow> clean L (f a)"
  shows "clean L (bindC m f)"
  unfolding clean_def
proof (intro allI impI)
  fix w :: world
  assume free: "held w \<inter> L = {}"
  show "bindC m f w \<noteq> Deadlocks \<and> (\<forall>n w'. bindC m f w = Exits n w' \<longrightarrow> n = 2)"
  proof (cases "m w")
    case (Ret a v)
    then have "held v \<inter> L = {}" using keepsD [OF assms(2) Ret] free by (auto simp: releases_def)
    with Ret show ?thesis using cleanD [OF assms(3) [OF Ret]] by auto
  qed (use cleanD [OF assms(1) free] in auto)
qed

lemma clean_bind:
  "clean L m \<Longrightarrow> keeps releases m \<Longrightarrow> (\<And>a. clean L (f a)) \<Longrightarrow> clean L (bindC m f)"
  by (rule clean_bind_post)

lemma clean_seq: "clean L m \<Longrightarrow> keeps releases m \<Longrightarrow> clean L n \<Longrightarrow> clean L (seqC m n)"
  unfolding seqC_def by (rule clean_bind)

text \<open>A locked region: inside, the mutex is no longer one of those known to be free.\<close>

lemma clean_lock:
  assumes "m \<in> L" and "clean (L - {m}) n"
  shows "clean L (seqC (lock m) n)"
  unfolding clean_def
proof (intro allI impI)
  fix w :: world
  assume free: "held w \<inter> L = {}"
  with assms(1) have "m \<notin> held w" by auto
  then have enter: "seqC (lock m) n w = n (w\<lparr>held := insert m (held w)\<rparr>)" by simp
  have "held (w\<lparr>held := insert m (held w)\<rparr>) \<inter> (L - {m}) = {}" using free by auto
  then show "seqC (lock m) n w \<noteq> Deadlocks \<and> (\<forall>k w'. seqC (lock m) n w = Exits k w' \<longrightarrow> k = 2)"
    unfolding enter using cleanD [OF assms(2)] by blast
qed

lemma clean_prims:
  "clean L (ret a)" "clean L (asks f)" "clean L (update g)" "clean L (faultC x)"
  "clean L (exitC 2)" "clean L (emit e)" "clean L (query q ev)" "clean L (alloc os n)"
  "clean L (unlock m)" "clean L (set_errno i)" "clean L (set_init_data h)"
  "clean L (deref p)" "clean L (free_str p)"
  by (cases p; auto simp: clean_def)+

lemma clean_branches:
  "clean L m \<Longrightarrow> clean L n \<Longrightarrow> clean L (if b then m else n)"
  "clean L m \<Longrightarrow> (\<And>x. clean L (g x)) \<Longrightarrow> clean L (case y of None \<Rightarrow> m | Some x \<Rightarrow> g x)"
  "(\<And>x y. clean L (h x y)) \<Longrightarrow> clean L (case p of (x, y) \<Rightarrow> h x y)"
  "(\<And>x. clean L (g x)) \<Longrightarrow> clean L (let x = e in g x)"
  by (auto split: option.split prod.split)

lemma releases_unlock: "keeps releases (unlock m)"
  by (rule keepsI) (auto simp: releases_def)

lemmas clean_rules = clean_bind clean_seq clean_prims clean_branches

text \<open>Commands that touch no mutex, for the side conditions.\<close>

lemma releases_prims:
  "keeps releases (emit e)" "keeps releases (query q ev)" "keeps releases (alloc os n)"
  "keeps releases (set_errno i)" "keeps releases (set_init_data h)" "keeps releases (deref p)"
  "keeps releases (free_str p)"
  by (rule held_releases, intro frame; simp)+

lemmas releases_rules = rel.rules releases_prims releases_unlock

lemma clean_output:
  assumes "Print_mutex u \<in> L"
  shows "clean L (ERROR_OUTPUT os u s as)" "clean L (DEBUG_OUTPUT os u s as)"
  unfolding output_defs
  by (intro clean_lock clean_rules releases_rules assms)+

lemma clean_loop: "clean L (run_loop (ssl_write_loop os buf n count tot))"
proof -
  have "r \<noteq> Deadlocks \<and> (\<forall>n w'. r = Exits n w' \<longrightarrow> n = 2)"
    if "ssl_write_loop os buf n count tot w = Some r" for w r
    using that
    by (rule ssl_write_loop_rule [where P = "\<lambda>_ _ _ r. r \<noteq> Deadlocks \<and> (\<forall>n w'. r = Exits n w' \<longrightarrow> n = 2)"])
      (auto simp: ssl_write_pass_def Let_def split: if_splits)
  then show ?thesis
    by (auto simp: clean_def run_loop_def split: option.split)
qed

lemma releases_pieces:
  "keeps releases (ERROR_OUTPUT os u s as)" "keeps releases (DEBUG_OUTPUT os u s as)"
  "keeps releases daapShutdownSSL"
  "keeps releases (daapTCPConnect os)" "keeps releases (run_loop (ssl_write_loop os buf n count tot))"
  "keeps releases (daapInitializeSSL os)" "keeps releases (snprintf_into cap bound s)"
  "keeps releases (format_message os m as)" "keeps releases (getmillisectime os)"
  "keeps releases (daapBuildInflux os ts m)" "keeps releases (daapBuildRawInflux os m)"
  "keeps releases (transmit os s)" "keeps releases (daapTCPLogWrite os s n)"
  by (rule held_releases, intro output_held frame daapInitializeSSL_held transmit_held
      daapTCPLogWrite_held; simp)+

lemma releases_updates:
  "keeps releases (update (\<lambda>w. w\<lparr>sockfd := fd\<rparr>))" "keeps releases (update (\<lambda>w. w\<lparr>cSSL := s\<rparr>))"
  "keeps releases (update (\<lambda>w. w\<lparr>sslctx := s\<rparr>))"
  by (simp_all add: keeps_def releases_def)

lemmas clean_steps = clean_rules releases_rules releases_pieces releases_updates

lemma clean_shutdown: "clean L daapShutdownSSL"
  unfolding daapShutdownSSL_def by (intro clean_steps)

lemma clean_connect: "clean L (daapTCPConnect os)"
  unfolding daapTCPConnect_def by (intro clean_shutdown clean_steps)

lemma clean_tcp_write: "Write_mutex \<in> L \<Longrightarrow> clean L (daapTCPLogWrite os s n)"
  unfolding daapTCPLogWrite_def by (intro clean_lock clean_connect clean_loop clean_steps)

lemma clean_ssl: "Print_mutex U_tcp \<in> L \<Longrightarrow> clean L (daapInitializeSSL os)"
  unfolding daapInitializeSSL_def snprintf_into_def
  by (intro clean_output clean_steps)

lemma clean_format: "Print_mutex U_log \<in> L \<Longrightarrow> clean L (format_message os m as)"
  unfolding format_message_def null_device_length_def
  by (intro clean_output clean_steps)

lemma clean_transmit:
  "Write_mutex \<in> L \<Longrightarrow> Print_mutex U_log \<in> L \<Longrightarrow> clean L (transmit os s)"
  unfolding transmit_def by (intro clean_tcp_write clean_output clean_steps)

lemma clean_build: "clean L (daapBuildInflux os ts m)" "clean L (daapBuildRawInflux os m)"
  "clean L (getmillisectime os)"
  unfolding daapBuildInflux_def daapBuildRawInflux_def getmillisectime_def
  by (intro clean_steps)+

lemma clean_writers:
  assumes "Write_mutex \<in> L" "Print_mutex U_log \<in> L"
  shows "clean L (daapLogWrite os m as)" "clean L (daapLogRawWrite os m as)"
    "clean L (daapLogHeartbeat os)" "clean L (daapLogJobStart os)"
    "clean L (daapLogJobDuration os)" "clean L (daapLogJobEnd os)"
  unfolding log_defs log_write_via_def log_raw_via_def
  by (intro clean_transmit clean_format clean_build clean_output clean_steps assms)+

lemma releases_init:
  "keeps releases (init_locked os app l g tt)" "keeps releases (init_hostname os)"
  "keeps releases (init_cluster os)" "keeps releases (init_transport os l tt)"
  "keeps releases (find_rank os)" "keeps releases (calloc_strcpy os s)"
  "keeps releases (strdup os s)" "keeps releases (daap_gethostname os)"
  "keeps releases (daapLogJobStart os)" "keeps releases (daapLogJobEnd os)"
  "keeps releases free_init_data"
  unfolding calloc_strcpy_def strdup_def
  by (rule held_releases, intro frame init_locked_held init_pieces_held writers_held; simp)+

lemma clean_gethostname: "clean L (daap_gethostname os)"
proof -
  have "clean L (gethostname_tries os n len)" for n len
  proof (induction n arbitrary: len)
    case (Suc n)
    show ?case unfolding gethostname_tries.simps Let_def by (intro clean_steps Suc)
  qed (simp, intro clean_steps)
  then show ?thesis unfolding daap_gethostname_def by (intro clean_steps)
qed

lemma clean_init_locked:
  assumes "Print_mutex U_tcp \<in> L"
  shows "clean L (init_locked os app l g tt)"
  unfolding init_locked_def init_rest_def init_hostname_def init_cluster_def init_transport_def
    calloc_strcpy_def strdup_def
  by (intro clean_ssl clean_gethostname clean_steps releases_init assms)
    (simp_all add: releases_def)

lemma clean_find_rank: "Print_mutex U_init \<in> L \<Longrightarrow> clean L (find_rank os)"
  unfolding find_rank_def take_rank_def by (intro clean_output clean_steps) (simp_all add: releases_def)

lemma init_locked_goes_on:
  assumes "init_locked os app l g tt w = Ret (r, True) w'"
  shows "r = DAAP_SUCCESS"
  using assms
  by (auto simp: init_locked_def init_rest_def bindC_def seqC_def split: outcome.splits if_splits)

lemma clean_init:
  assumes "{Init_mutex, Print_mutex U_init, Print_mutex U_tcp, Write_mutex, Print_mutex U_log} \<subseteq> L"
  shows "clean L (daapInit os app l g tt)"
  unfolding daapInit_def
proof (intro clean_lock clean_bind_post [where L = "L - {Init_mutex}"])
  show "Init_mutex \<in> L" "clean (L - {Init_mutex}) (init_locked os app l g tt)"
    using assms by (auto intro: clean_init_locked)
  show "keeps releases (init_locked os app l g tt)" by (rule releases_init)
  fix w a w'
  assume run: "init_locked os app l g tt w = Ret a w'"
  obtain r go_on where a: "a = (r, go_on)" by fastforce
  have tail: "clean (L - {Init_mutex}) (seqC (find_rank os)
      (bindC (asks daapRank_zero) (\<lambda>zero.
       if zero \<and> decouple_off os then
         bindC (daapLogJobStart os) (\<lambda>r'. ret (r + r'))
       else ret r)))"
    using assms by (intro clean_find_rank clean_writers clean_steps releases_init) auto
  have "go_on \<longrightarrow> \<not> r < 0"
    using run a init_locked_goes_on [of os app l g tt w r w'] by (auto simp: DAAP_SUCCESS_def)
  with tail show "clean (L - {Init_mutex}) (case a of (ret_val, go_on) \<Rightarrow>
     seqC (unlock Init_mutex)
    (if \<not> go_on then ret ret_val
     else if ret_val < 0 then
       seqC (emit (EvPerror ''Fatal error''))
      (exitC 1)
     else
       seqC (find_rank os)
      (bindC (asks daapRank_zero) (\<lambda>zero.
       if zero \<and> decouple_off os then
         bindC (daapLogJobStart os) (\<lambda>r.
         ret (ret_val + r))
       else ret ret_val))))"
    unfolding a prod.case by (cases go_on) (auto intro: clean_seq clean_prims releases_unlock)
qed

lemma clean_finalize:
  assumes "{Finalize_mutex, Write_mutex, Print_mutex U_log} \<subseteq> L"
  shows "clean L (daapFinalize os)"
  unfolding daapFinalize_def free_init_data_def
  using assms by (intro clean_lock clean_writers clean_shutdown clean_steps releases_init) auto

text \<open>The first mutex that a call may take, in the order of the mutexes.\<close>

fun lowest_mutex :: "api \<Rightarrow> mutex" where
  "lowest_mutex (Init app l g tt) = Init_mutex"
| "lowest_mutex Finalize = Finalize_mutex"
| "lowest_mutex (F_Init app len) = Init_mutex"
| "lowest_mutex F_Finalize = Finalize_mutex"
| "lowest_mutex c = Write_mutex"

lemma clean_exec: "clean {m. lowest_mutex c \<le> m} (exec os c)"
proof -
  have returns: "clean L (bindC m (\<lambda>r. ret (f r)))" if "clean L m" for L m f
    using that unfolding clean_def bindC_def by (auto split: outcome.split)
  show ?thesis
    by (cases c) (auto intro!: returns clean_init clean_finalize clean_writers
        simp: daapLogRead_def daapSetRank_def fortran_entries clean_prims mutex_order bindC_fault)
qed

section \<open>What every client may rely on\<close>

lemma reachable_unlocked: "reachable os w \<Longrightarrow> held w = {}"
  by (induction rule: reachable.induct) (auto simp: call_iff dest: preservesD [OF exec_held])

text \<open>
  C10: No sequence of calls that return, with any arguments and in any environment, leaves a mutex
  locked, and so no later call of any function deadlocks.
\<close>
theorem session_deadlock_free:
  assumes "reachable os w"
  shows "held w = {} \<and> exec os c w \<noteq> Deadlocks"
  using reachable_unlocked [OF assms] cleanD(1) [OF clean_exec] by simp

text \<open>
  What one call asks of the mutexes held around it: a call that starts while only mutexes
  below the first one it takes are held, by whichever thread, never waits for one of them, in
  any state and any environment. (This says nothing of threads that wait for each other.)
\<close>
lemma mutex_hierarchy:
  assumes "\<forall>m \<in> held w. m < lowest_mutex c"
  shows "exec os c w \<noteq> Deadlocks"
  by (rule cleanD(1) [OF clean_exec]) (use assms in auto)

lemma mutex_hierarchy_witness:
  "exec os_good (LogWrite ''step 1'' []) (world0\<lparr>held := {Init_mutex, Finalize_mutex}\<rparr>) \<noteq> Deadlocks"
  by (rule mutex_hierarchy) (simp add: mutex_order)

lemma tcp_error_exits:
  assumes "tls_up os" and "\<And>d h. os_ssl_write os d h = -1"
    and "buf \<noteq> []" and "Write_mutex \<notin> held w"
  obtains w' where "daapTCPLogWrite os buf (int (length buf)) w = Exits 2 w'"
proof -
  let ?w = "w\<lparr>held := insert Write_mutex (held w)\<rparr>"
  obtain v where conn: "daapTCPConnect os ?w = Ret 0 v"
    using connect_up [OF assms(1), of ?w] by (auto simp: wp_iff)
  have "\<exists>u. ssl_write_loop os buf (int (length buf)) 0 0 x = Some (Exits 2 u)" for x
    using assms(2,3) by (simp add: ssl_write_loop.simps [of _ _ _ 0] ssl_write_pass_def Let_def)
  then obtain u where
    "ssl_write_loop os buf (int (length buf)) 0 0 (v\<lparr>trace := trace v @ [EvErrClear]\<rparr>) = Some (Exits 2 u)"
    by blast
  with conn assms(4) that [of u] show ?thesis by (simp add: daapTCPLogWrite_def)
qed

lemma log_error_exits:
  assumes "env_ok os" and "tls_up os" and "\<And>d h. os_ssl_write os d h = -1"
    and "session_ready app host cluster w" and "transport_type (init_data w) = TCP"
    and "Write_mutex \<notin> held w" and "plain m" and "length m \<le> DAAP_MAX_MSG_LEN"
  shows "\<exists>w'. daapLogWrite os m [] w = Exits 2 w'"
proof -
  let ?s = "sent_line os app host cluster (mpi_rank (init_data w)) m (trace w)"
  let ?w = "w\<lparr>trace := line_history os (trace w)\<rparr>"
  have "Write_mutex \<notin> held ?w" using assms(6) by simp
  then obtain w' where "daapTCPLogWrite os ?s (int (length ?s)) ?w = Exits 2 w'"
    by (rule tcp_error_exits [OF assms(2,3) sent_line_length(1)])
  then show ?thesis
    using log_write_via_run [OF assms(1,4) format_plain [OF assms(7)] assms(8) refl] assms(5)
    by (simp add: daapLogWrite_def transmit_def)
qed

text \<open>
  C29: When the connection breaks during a write (\<open>SSL_write\<close> answers -1), \<open>daapLogWrite\<close> does
  not report an error: it ends the whole process with status 2.
\<close>
theorem write_error_ends_process:
  assumes "env_ok os" and "tls_up os" and "\<And>d h. os_ssl_write os d h = -1"
    and "session_ready app host cluster w" and "transport_type (init_data w) = TCP"
    and "Write_mutex \<notin> held w" and "plain m" and "length m \<le> DAAP_MAX_MSG_LEN"
  shows "\<exists>w'. daapLogWrite os m [] w = Exits 2 w'"
  by (rule log_error_exits [OF assms])

text \<open>A process of rank \<open>r\<close> whose connection breaks in every write.\<close>

definition os_broken :: "string \<Rightarrow> os" where
  "os_broken r = (os_rank r)\<lparr>os_ssl_write := (\<lambda>_ _. -1)\<rparr>"

lemma os_broken_simps [simp]:
  "env_ok (os_broken r)" "tls_up (os_broken r)" "os_ssl_write (os_broken r) d h = -1"
  "init_env (os_broken r) ''nid00042''" "rank_value (os_broken r) = atoi r"
  "reports_job (os_broken r) \<longleftrightarrow> r = ''0''" "env_cluster (os_broken r) = ''trinity''"
  by (simp_all add: os_broken_def os_rank_def init_env_def env_cluster_def env_rank_def
      rank_value_def reports_job_def decouple_off_def env_ok_def os_good_def c_consts tls_up_def)

theorem write_error_ends_process_witness:
  "\<exists>w'. daapLogWrite (os_broken ''7'') ''step 1'' [] (world_ready TCP) = Exits 2 w'"
  using write_error_ends_process [of "os_broken ''7''" "''vpic''" "''nid00042''" "''trinity''"
      "world_ready TCP" "''step 1''"]
  by (simp add: c_consts)

text \<open>
  A handshake that OpenSSL reports as refused (\<open>SSL_connect\<close> answers 0) is not noticed: the
  connection counts as made.
\<close>

definition handshake_refused :: "os \<Rightarrow> bool" where
  "handshake_refused os \<longleftrightarrow>
     (\<forall>h. 0 \<le> os_socket os h \<and> os_connect os h = 0 \<and> os_ssl_connect os h = 0) \<and>
     (\<forall>d h. os_ssl_write os d h = -1)"

lemma connect_refused:
  assumes "handshake_refused os"
  obtains v h where "daapTCPConnect os w = Ret 0 v" and "held v = held w"
    and "trace v = h @ [EvSslConnect (cSSL v) 0]"
proof -
  have "\<not> os_socket os h < 0" "os_connect os h = 0" "os_ssl_connect os h = 0" for h
    using assms by (simp_all add: handshake_refused_def not_less)
  then have "wp (daapTCPConnect os)
      (\<lambda>r v. r = 0 \<and> held v = held w \<and> trace v \<noteq> [] \<and> last (trace v) = EvSslConnect (cSSL v) 0) w"
    by (simp add: daapTCPConnect_def wp_eqs)
  then obtain v where "daapTCPConnect os w = Ret 0 v" "held v = held w"
    and "trace v \<noteq> []" "last (trace v) = EvSslConnect (cSSL v) 0"
    by (auto simp: wp_iff)
  with that [of v "butlast (trace v)"] append_butlast_last_id [of "trace v"] show ?thesis by simp
qed

lemma refused_write:
  assumes "handshake_refused os" and "buf \<noteq> []" and "Write_mutex \<notin> held w"
  obtains w' h where "daapTCPLogWrite os buf (int (length buf)) w = Exits 2 w'"
    and "Write_mutex \<in> held w'"
    and "trace w' = h @ [EvSslConnect (cSSL w') 0, EvErrClear, EvSslWrite (cSSL w') buf (-1), EvErrPrint]"
proof -
  let ?w = "w\<lparr>held := insert Write_mutex (held w)\<rparr>"
  obtain v h where v: "daapTCPConnect os ?w = Ret 0 v" "held v = held ?w"
    "trace v = h @ [EvSslConnect (cSSL v) 0]"
    by (rule connect_refused [OF assms(1)])
  have "ssl_write_loop os buf (int (length buf)) 0 0 x =
      Some (Exits 2 (x\<lparr>trace := trace x @ [EvSslWrite (cSSL x) buf (-1), EvErrPrint]\<rparr>))" for x
    using assms(1,2)
    by (simp add: ssl_write_loop.simps [of _ _ _ 0] ssl_write_pass_def Let_def handshake_refused_def)
  with v assms(3) that show ?thesis by (simp add: daapTCPLogWrite_def)
qed

text \<open>
  C30: When the TLS handshake is refused (the TCP connection is made, \<open>SSL_connect\<close> answers 0, which
  OpenSSL documents as a handshake that did not succeed, and \<open>SSL_write\<close> answers -1), the test
  \<open>ret_val < 0\<close> of \<open>daapTCPConnect\<close> does not see it: in an initialised TCP process of a release build
  with memory, null device and a 64-bit clock, with \<open>write_mutex\<close> free, \<open>daapLogWrite\<close> of a message without percent sign
  of at most \<open>DAAP_MAX_MSG_LEN\<close> bytes writes to the connection without a session and ends the
  whole process with status 2, \<open>write_mutex\<close> held, instead of reporting an error.
\<close>
theorem refused_handshake_ends_process:
  assumes "env_ok os" and "handshake_refused os"
    and "session_ready app host cluster w" and "transport_type (init_data w) = TCP"
    and "Write_mutex \<notin> held w" and "plain m" and "length m \<le> DAAP_MAX_MSG_LEN"
  shows "\<exists>w' h line. daapLogWrite os m [] w = Exits 2 w' \<and> Write_mutex \<in> held w' \<and>
           trace w' = h @ [EvSslConnect (cSSL w') 0, EvErrClear, EvSslWrite (cSSL w') line (-1), EvErrPrint]"
proof -
  let ?s = "sent_line os app host cluster (mpi_rank (init_data w)) m (trace w)"
  let ?w = "w\<lparr>trace := line_history os (trace w)\<rparr>"
  have "Write_mutex \<notin> held ?w" using assms(5) by simp
  then obtain w' h where "daapTCPLogWrite os ?s (int (length ?s)) ?w = Exits 2 w'"
    and "Write_mutex \<in> held w'"
    and "trace w' = h @ [EvSslConnect (cSSL w') 0, EvErrClear, EvSslWrite (cSSL w') ?s (-1), EvErrPrint]"
    by (rule refused_write [OF assms(2) sent_line_length(1)])
  then show ?thesis
    using log_write_via_run [OF assms(1,3) format_plain [OF assms(6)] assms(7) refl] assms(4)
    by (simp add: daapLogWrite_def transmit_def)
qed

theorem refused_handshake_ends_process_witness:
  "\<exists>w' h line. daapLogWrite ((os_broken ''7'')\<lparr>os_ssl_connect := (\<lambda>_. 0)\<rparr>) ''step 1'' [] (world_ready TCP) =
       Exits 2 w' \<and> Write_mutex \<in> held w' \<and>
     trace w' = h @ [EvSslConnect (cSSL w') 0, EvErrClear, EvSslWrite (cSSL w') line (-1), EvErrPrint]"
  using refused_handshake_ends_process [of "(os_broken ''7'')\<lparr>os_ssl_connect := (\<lambda>_. 0)\<rparr>" "''vpic''"
      "''nid00042''" "''trinity''" "world_ready TCP" "''step 1''"]
  by (simp add: handshake_refused_def os_broken_def os_rank_def os_good_def env_ok_def c_consts)

text \<open>
  C22: The only status with which a call ends the process is 2, from the write loop of
  \<open>daapTCPLogWrite\<close>: the \<open>exit(1)\<close> of \<open>daapInit\<close> is unreachable.
\<close>
theorem session_exit_status:
  assumes "reachable os w" and "exec os c w = Exits n w'"
  shows "n = 2"
  using reachable_unlocked [OF assms(1)] cleanD(2) [OF clean_exec _ assms(2)] by simp

text \<open>A session of that process reaches a call that ends it.\<close>

lemma broken_session:
  obtains w w' where "reachable (os_broken ''7'') w"
    and "exec (os_broken ''7'') LogHeartbeat w = Exits 2 w'"
proof -
  have "\<not> daapInit_called world0" "\<not> daapRank_zero world0"
    "init_env (os_broken ''7'') ''nid00042''" "held world0 = {}"
    "rank_value (os_broken ''7'') = Some 7" by simp_all
  then obtain v where run: "daapInit (os_broken ''7'') ''vpic'' 0 0 TCP world0 =
      (if reports_job (os_broken ''7'') then daapLogJobStart (os_broken ''7'') v else Ret DAAP_SUCCESS v)"
    and post: "init_post (os_broken ''7'') ''vpic'' ''nid00042'' 0 TCP world0 v"
    and ready: "session_ready ''vpic'' ''nid00042'' (env_cluster (os_broken ''7'')) v"
    by (rule daapInit_first)
  from run have "exec (os_broken ''7'') (Init ''vpic'' 0 0 TCP) world0 = Ret (Some DAAP_SUCCESS) v"
    by simp
  then have reach: "reachable (os_broken ''7'') v"
    by (blast intro: reachable.intros call.intros)
  have "\<exists>w'. daapLogWrite (os_broken ''7'') ''__daap_heartbeat'' [] v = Exits 2 w'"
    using log_error_exits [of "os_broken ''7''" _ _ _ v "''__daap_heartbeat''"] ready post
    by (simp add: init_post_def plain_def c_consts)
  then have "\<exists>w'. exec (os_broken ''7'') LogHeartbeat v = Exits 2 w'"
    by (auto simp: daapLogHeartbeat_def)
  with reach that show ?thesis by blast
qed

theorem session_deadlock_free_witness:
  "held world0 = {} \<and> exec os_good Finalize world0 \<noteq> Deadlocks"
  by (rule session_deadlock_free [OF reachable.start])

theorem session_exit_status_witness:
  "\<exists>w n w'. reachable (os_broken ''7'') w \<and> exec (os_broken ''7'') LogHeartbeat w = Exits n w' \<and> n = 2"
proof -
  obtain w w' where w: "reachable (os_broken ''7'') w"
    and run: "exec (os_broken ''7'') LogHeartbeat w = Exits 2 w'"
    by (rule broken_session)
  from session_exit_status [OF w run] w run show ?thesis by blast
qed

section \<open>What the transports may see\<close>

text \<open>
  The part of the state that an outside observer and the two invariants below depend on: the
  level, the flag, and the calls that hand a line to a transport.
\<close>

definition is_send :: "event \<Rightarrow> bool" where
  "is_send e = (case e of EvSyslog p m \<Rightarrow> True | EvSslWrite s d n \<Rightarrow> True | _ \<Rightarrow> False)"

definition observed :: "world \<Rightarrow> int \<times> bool \<times> event list" where
  "observed w = (level (init_data w), daapInit_called w, filter is_send (trace w))"

lemma is_send_simps [simp]:
  "is_send (EvSyslog p m)" "is_send (EvSslWrite s d n)"
  "\<not> is_send (EvAlloc k b)" "\<not> is_send (EvFree t)" "\<not> is_send (EvTime i)"
  "\<not> is_send (EvGettimeofday tv)" "\<not> is_send (EvGethostname k h)" "\<not> is_send (EvFopenNull b)"
  "\<not> is_send EvFclose" "\<not> is_send (EvErrorOutput t u)" "\<not> is_send (EvDebugOutput t u)" "\<not> is_send (EvStderr t)"
  "\<not> is_send (EvPerror t)" "\<not> is_send (EvOpenlog t b i)" "\<not> is_send (EvAccess t i)"
  "\<not> is_send (EvCtxNew c)" "\<not> is_send (EvClearOptions c i)" "\<not> is_send (EvCtxSetup c t u)"
  "\<not> is_send (EvCtxFree c)" "\<not> is_send EvSslLibInit" "\<not> is_send (EvSslShutdown k)"
  "\<not> is_send (EvSslFree k)" "\<not> is_send EvSslCleanup"
  by (simp_all add: is_send_def)

lemma silent_prims:
  "\<not> is_send e \<Longrightarrow> preserves observed (emit e)"
  "(\<And>r. \<not> is_send (ev r)) \<Longrightarrow> preserves observed (query q ev)"
  "preserves observed (alloc os n)" "preserves observed (lock m)" "preserves observed (unlock m)"
  "preserves observed (set_errno i)" "preserves observed (deref p)" "preserves observed (free_str p)"
  "(\<And>d. level (f d) = level d) \<Longrightarrow> preserves observed (set_init_data f)"
  "(\<And>w. observed (g w) = observed w) \<Longrightarrow> preserves observed (update g)"
  by (rule preservesI; auto simp: observed_def lock_def deref_def free_str_def
      split: if_splits strptr.splits)+

lemmas silent = same.rules(1-6,8-11) silent_prims

lemma silent_writer_parts:
  "preserves observed (ERROR_OUTPUT os u s as)" "preserves observed (DEBUG_OUTPUT os u s as)"
  "preserves observed (format_message os m as)"
  "preserves observed (getmillisectime os)" "preserves observed (daapBuildInflux os ts m)"
  "preserves observed (daapBuildRawInflux os m)" "preserves observed daapShutdownSSL"
proof -
  show out: "preserves observed (ERROR_OUTPUT os u s as)" "preserves observed (DEBUG_OUTPUT os u s as)"
    for os u s as
    unfolding output_defs by (intro silent; simp)+
  show "preserves observed (format_message os m as)"
    unfolding format_message_def null_device_length_def by (intro silent out) simp_all
qed (unfold getmillisectime_def daapBuildInflux_def daapBuildRawInflux_def daapShutdownSSL_def,
    (intro silent; simp)+)

lemma silent_init_parts:
  "preserves observed (calloc_strcpy os s)" "preserves observed (init_hostname os)"
  "preserves observed (init_cluster os)" "preserves observed (init_transport os l tt)"
  "preserves observed (find_rank os)" "preserves observed free_init_data"
proof -
  show dup: "preserves observed (calloc_strcpy os s)" for s
    unfolding calloc_strcpy_def by (intro silent)
  have "preserves observed (gethostname_tries os n len)" for n len
  proof (induction n arbitrary: len)
    case (Suc n)
    show ?case unfolding gethostname_tries.simps Let_def by (intro silent Suc) simp_all
  qed (simp, intro silent, simp)
  then have "preserves observed (daap_gethostname os)"
    unfolding daap_gethostname_def by (intro silent)
  then show "preserves observed (init_hostname os)"
    unfolding init_hostname_def strdup_def by (intro silent) simp_all
  have "preserves observed (daapInitializeSSL os)"
    unfolding daapInitializeSSL_def snprintf_into_def
    by (intro silent silent_writer_parts) (simp_all add: observed_def)
  then show "preserves observed (init_transport os l tt)"
    unfolding init_transport_def by (intro silent) simp_all
  show "preserves observed (init_cluster os)"
    unfolding init_cluster_def by (intro silent dup) simp_all
  show "preserves observed (find_rank os)"
    unfolding find_rank_def take_rank_def by (intro silent silent_writer_parts(2)) (simp_all add: observed_def)
  show "preserves observed free_init_data"
    unfolding free_init_data_def by (intro silent) simp_all
qed

section \<open>Priorities, and silence before daapInit\<close>

definition syslog_priorities :: "event list \<Rightarrow> int list" where
  "syslog_priorities h = concat (map (\<lambda>e. case e of EvSyslog p m \<Rightarrow> [p] | _ \<Rightarrow> []) h)"

lemma syslog_priorities_simps [simp]:
  "syslog_priorities [] = []"
  "syslog_priorities (e # h) = (case e of EvSyslog p m \<Rightarrow> [p] | _ \<Rightarrow> []) @ syslog_priorities h"
  "syslog_priorities (h @ h') = syslog_priorities h @ syslog_priorities h'"
  by (simp_all add: syslog_priorities_def)

definition log_ok :: "world \<Rightarrow> bool" where
  "log_ok w \<longleftrightarrow>
     level (init_data w) = 0 \<and> set (syslog_priorities (trace w)) \<subseteq> {0} \<and>
     (\<not> daapInit_called w \<longrightarrow> delivered (trace w) = [])"

definition running_ok :: "world \<Rightarrow> bool" where
  "running_ok w \<longleftrightarrow> log_ok w \<and> daapInit_called w"

text \<open>An invariant as an order, so that the rules for commands apply to it.\<close>

definition maintains :: "(world \<Rightarrow> bool) \<Rightarrow> world \<Rightarrow> world \<Rightarrow> bool" where
  "maintains I w w' \<longleftrightarrow> (I w \<longrightarrow> I w')"

interpretation inv: step_order "maintains I" for I
  by unfold_locales (auto simp: maintains_def)

lemma delivered_sends: "delivered (filter is_send h) = delivered h"
  by (induction h) (auto simp: is_send_def delivered_by_def split: event.splits)

lemma syslog_sends: "syslog_priorities (filter is_send h) = syslog_priorities h"
  by (induction h) (auto simp: is_send_def split: event.splits)

lemma observed_ok:
  assumes "observed w' = observed w"
  shows "log_ok w' = log_ok w" "running_ok w' = running_ok w"
  using assms unfolding observed_def log_ok_def running_ok_def
  by (metis (no_types, lifting) delivered_sends syslog_sends prod.inject)+

lemma silent_ok:
  assumes "preserves observed m"
  shows "keeps (maintains log_ok) m" "keeps (maintains running_ok) m"
  by (rule keepsI; use observed_ok [OF preservesD [OF assms]] in \<open>simp add: maintains_def\<close>)+

lemma running_append:
  "running_ok w \<Longrightarrow> set (syslog_priorities [e]) \<subseteq> {0} \<Longrightarrow> running_ok (w\<lparr>trace := trace w @ [e]\<rparr>)"
  by (simp add: running_ok_def log_ok_def)

lemma pass_running:
  "ssl_write_pass os buf n count tot w = Inr (c, t, w') \<Longrightarrow> running_ok w \<Longrightarrow> running_ok w'"
  "ssl_write_pass os buf n count tot w = Inl (Ret c w') \<Longrightarrow> running_ok w \<Longrightarrow> running_ok w'"
  by (auto simp: ssl_write_pass_def Let_def running_ok_def log_ok_def split: if_splits)

lemma loop_running: "keeps (maintains running_ok) (run_loop (ssl_write_loop os buf n count tot))"
proof (rule keepsI)
  fix w c w'
  assume "run_loop (ssl_write_loop os buf n count tot) w = Ret c w'"
  then have "ssl_write_loop os buf n count tot w = Some (Ret c w')"
    by (simp add: run_loop_def split: option.splits)
  then have "running_ok w \<longrightarrow> (\<forall>c' v. Ret c w' = Ret c' v \<longrightarrow> running_ok v)"
    by (rule ssl_write_loop_rule
        [where P = "\<lambda>_ _ w r. running_ok w \<longrightarrow> (\<forall>c' v. r = Ret c' v \<longrightarrow> running_ok v)"])
      (blast dest: pass_running)+
  then show "maintains running_ok w w'" by (simp add: maintains_def)
qed

lemma connect_silent: "preserves observed (daapTCPConnect os)"
  unfolding daapTCPConnect_def
  by (intro silent silent_writer_parts) (simp_all add: observed_def is_send_def)

lemma tcp_write_running: "keeps (maintains running_ok) (daapTCPLogWrite os s n)"
  unfolding daapTCPLogWrite_def
  by (intro inv.rules loop_running silent_ok connect_silent silent) (simp_all add: is_send_def)

lemma transmit_running: "keeps (maintains running_ok) (transmit os s)"
proof (rule keepsI)
  fix w a w'
  assume run: "transmit os s w = Ret a w'"
  show "maintains running_ok w w'"
  proof (cases "transport_type (init_data w)")
    case SYSLOG
    with run show ?thesis
      by (auto simp: transmit_def maintains_def running_ok_def log_ok_def)
  next
    case TCP
    have "keeps (maintains running_ok) (bindC (daapTCPLogWrite os s (int (length s))) (\<lambda>count.
        DEBUG_OUTPUT os U_log ''Writing message: %s, written: %d''
          [StrArg s, IntArg (word_of_int count)]))"
      by (intro inv.rules tcp_write_running silent_ok silent_writer_parts)
    from keepsD [OF this] run TCP show ?thesis by (simp add: transmit_def)
  next
    case NONE
    with run show ?thesis by (simp add: transmit_def maintains_def)
  qed
qed

lemma writers_ok:
  "keeps (maintains log_ok) (daapLogWrite os m as)" "keeps (maintains log_ok) (daapLogRawWrite os m as)"
proof -
  let ?logged = "bindC (format_message os m as) (\<lambda>full_message.
       bindC (getmillisectime os) (\<lambda>tstamp.
       bindC (daapBuildInflux os (sint tstamp) full_message) (\<lambda>influx_str.
       if influx_str = SNull then ret DAAP_SUCCESS
       else
         bindC (deref influx_str) (\<lambda>line.
         seqC (DEBUG_OUTPUT os U_log ''Complete influx string: %s'' [StrArg line])
        (seqC (transmit os line)
        (seqC (free_str influx_str)
        (ret DAAP_SUCCESS)))))))"
  let ?raw = "bindC (format_message os m as) (\<lambda>full_message.
       bindC (daapBuildRawInflux os full_message) (\<lambda>influx_str.
       if influx_str = SNull then ret 0
       else
         bindC (deref influx_str) (\<lambda>line.
         seqC (DEBUG_OUTPUT os U_log ''Complete influx string: %s'' [StrArg line])
        (seqC (transmit os line)
        (seqC (free_str influx_str)
        (ret 0))))))"
  have run: "keeps (maintains running_ok) ?logged" "keeps (maintains running_ok) ?raw"
    by (intro inv.rules transmit_running silent_ok silent silent_writer_parts; simp)+
  have "maintains log_ok w w'"
    if "daapLogWrite os m as w = Ret r w' \<or> daapLogRawWrite os m as w = Ret r w'" for w r w'
  proof (cases "daapInit_called w")
    case True
    then have "?logged w = Ret r w' \<or> ?raw w = Ret r w'"
      using that by (simp add: daapLogWrite_def daapLogRawWrite_def log_write_via_def log_raw_via_def)
    then have "maintains running_ok w w'" using keepsD [OF run(1)] keepsD [OF run(2)] by blast
    with True show ?thesis by (simp add: maintains_def running_ok_def)
  next
    case False
    with that show ?thesis
      by (auto simp: daapLogWrite_def daapLogRawWrite_def log_write_via_def log_raw_via_def
          maintains_def log_ok_def delivered_by_def)
  qed
  then show "keeps (maintains log_ok) (daapLogWrite os m as)"
    "keeps (maintains log_ok) (daapLogRawWrite os m as)"
    by (auto intro: keepsI)
qed

lemma job_messages_ok:
  "keeps (maintains log_ok) (daapLogHeartbeat os)" "keeps (maintains log_ok) (daapLogJobStart os)"
  "keeps (maintains log_ok) (daapLogJobDuration os)" "keeps (maintains log_ok) (daapLogJobEnd os)"
  unfolding daapLogHeartbeat_def daapLogJobStart_def daapLogJobDuration_def daapLogJobEnd_def
  by (intro inv.rules writers_ok silent_ok silent; simp)+

lemma init_ok: "keeps (maintains log_ok) (daapInit os app l g tt)"
proof -
  have called: "keeps (maintains log_ok) (update (\<lambda>w. w\<lparr>daapInit_called := True\<rparr>))"
    by (rule keepsI) (auto simp: maintains_def log_ok_def)
  have name: "keeps (maintains log_ok) (update (\<lambda>w. w\<lparr>daap_hostname := f w\<rparr>))" for f
    by (rule keepsI) (auto simp: maintains_def log_ok_def)
  have rest: "keeps (maintains log_ok) (init_rest os l tt r)" for r
    unfolding init_rest_def
    by (intro inv.rules called name silent_ok silent_init_parts silent_prims; simp)
  have locked: "keeps (maintains log_ok) (init_locked os app l g tt)"
    unfolding init_locked_def
    by (intro inv.rules rest silent_ok silent_init_parts silent_prims; simp)
  show ?thesis
    unfolding daapInit_def
    by (intro inv.rules locked job_messages_ok silent_ok silent_init_parts silent_prims; simp)
qed

lemma finalize_ok: "keeps (maintains log_ok) (daapFinalize os)"
  unfolding daapFinalize_def
  by (intro inv.rules job_messages_ok silent_ok silent_init_parts silent_writer_parts silent_prims)

lemma exec_ok: "keeps (maintains log_ok) (exec os c)"
proof (rule exec_keeps [OF inv.step_order_axioms])
  show "keeps (maintains log_ok) (daapSetRank r)" for r
    unfolding daapSetRank_def by (intro silent_ok silent) simp
qed (rule init_ok finalize_ok writers_ok job_messages_ok)+

lemma reachable_log_ok: "reachable os w \<Longrightarrow> log_ok w"
proof (induction rule: reachable.induct)
  case start
  show ?case by (simp add: log_ok_def)
next
  case (step w c r w')
  then show ?case using keepsD [OF exec_ok, of os c w _ w'] by (auto simp: call_iff maintains_def)
qed

text \<open>
  C23: Whatever message level a client passes to \<open>daapInit\<close>, the level of the library stays 0,
  and every line it ever sends to syslog has priority 0, the highest one.
\<close>
theorem session_priority_zero:
  assumes "reachable os w"
  shows "level (init_data w) = 0 \<and> set (syslog_priorities (trace w)) \<subseteq> {0}"
  using reachable_log_ok [OF assms] by (simp add: log_ok_def)

text \<open>A session over syslog that has sent its job start message.\<close>

lemma syslog_session:
  obtains w where "call (os_rank ''0'') world0 (Init ''vpic'' 5 0 SYSLOG) (Some DAAP_SUCCESS) w"
    and "delivered (trace w) \<noteq> []"
proof -
  have "env_ok (os_rank ''0'')" "transport_works (os_rank ''0'') SYSLOG"
    "init_env (os_rank ''0'') ''nid00042''" "\<not> daapInit_called world0" "\<not> daapRank_zero world0"
    "held world0 = {}" "rank_value (os_rank ''0'') = Some 0" "tag_safe ''vpic''"
    "tag_safe ''nid00042''" "tag_safe (env_cluster (os_rank ''0''))"
    "reports_job (os_rank ''0'') \<Longrightarrow>
       fits ''vpic'' ''nid00042'' (env_cluster (os_rank ''0'')) 0 ''__daap_jobstart''"
    by (simp_all add: transport_works_def fits_def influx_head_def dec_int_def dec.simps max_size_def)
  then obtain v lines where run: "daapInit (os_rank ''0'') ''vpic'' 5 0 SYSLOG world0 = Ret DAAP_SUCCESS v"
    and "delivered (trace v) = delivered (trace world0) @ lines"
      "list_all2 (reads_as ''vpic'' ''nid00042'' (env_cluster (os_rank ''0'')) 0)
         (if reports_job (os_rank ''0'') then [''__daap_jobstart''] else []) lines"
    by (rule job_start)
  then have "delivered (trace v) \<noteq> []" by auto
  moreover from run have "exec (os_rank ''0'') (Init ''vpic'' 5 0 SYSLOG) world0 = Ret (Some DAAP_SUCCESS) v"
    by simp
  then have "call (os_rank ''0'') world0 (Init ''vpic'' 5 0 SYSLOG) (Some DAAP_SUCCESS) v"
    by (rule call.intros)
  ultimately show ?thesis using that by blast
qed

theorem session_priority_zero_witness:
  "\<exists>w :: world. delivered (trace w) \<noteq> [] \<and> level (init_data w) = 0 \<and>
       set (syslog_priorities (trace w)) \<subseteq> {0}"
proof -
  obtain w where "call (os_rank ''0'') world0 (Init ''vpic'' 5 0 SYSLOG) (Some DAAP_SUCCESS) w"
    and sent: "delivered (trace w) \<noteq> []"
    by (rule syslog_session)
  then have w: "reachable (os_rank ''0'') w" by (blast intro: reachable.intros)
  from session_priority_zero [OF w] sent show ?thesis by blast
qed

text \<open>
  Until a call of \<open>daapInit\<close> has succeeded, no sequence of calls delivers anything.
\<close>
lemma session_silent_before_init:
  assumes "reachable os w" and "\<not> daapInit_called w"
  shows "delivered (trace w) = []"
  using reachable_log_ok [OF assms(1)] assms(2) by (simp add: log_ok_def)

lemma failed_write_reachable:
  "reachable os_good (world0\<lparr>errno := EPERM\<rparr>)"
proof -
  have "daapLogHeartbeat os_good w = Ret DAAP_ERROR (w\<lparr>errno := EPERM\<rparr>)"
    if "\<not> daapInit_called w" for w
    using that by (simp add: daapLogHeartbeat_def daapLogWrite_def log_write_via_def)
  then have "daapLogHeartbeat os_good world0 = Ret DAAP_ERROR (world0\<lparr>errno := EPERM\<rparr>)"
    by simp
  then have "exec os_good LogHeartbeat world0 = Ret (Some DAAP_ERROR) (world0\<lparr>errno := EPERM\<rparr>)"
    by simp
  then show ?thesis by (blast intro: reachable.intros call.intros)
qed

lemma session_silent_before_init_witness:
  "delivered (trace (world0\<lparr>errno := EPERM\<rparr>)) = []"
  by (rule session_silent_before_init [OF failed_write_reachable]) simp

section \<open>The history\<close>

lemma grows_updates:
  "(\<And>w. trace (g w) = trace w) \<Longrightarrow> keeps grows (update g)"
  by (simp add: keeps_def grows_def)

lemma init_parts_grow:
  "keeps grows (init_hostname os)" "keeps grows (init_cluster os)"
  "keeps grows (init_transport os l tt)" "keeps grows (find_rank os)" "keeps grows free_init_data"
proof -
  have "keeps grows (gethostname_tries os n len)" for n len
  proof (induction n arbitrary: len)
    case (Suc n)
    show ?case unfolding gethostname_tries.simps Let_def by (intro grows_rules Suc)
  qed (simp, intro grows_rules)
  then have host: "keeps grows (daap_gethostname os)"
    unfolding daap_gethostname_def by (intro grows_rules)
  show "keeps grows (init_hostname os)"
    unfolding init_hostname_def strdup_def by (intro host grows_rules)
  have ssl: "keeps grows (daapInitializeSSL os)"
    unfolding daapInitializeSSL_def snprintf_into_def
    by (intro hist.rules(1-6,8-11) grows_prims sockets_grow output_grows)
  show "keeps grows (init_transport os l tt)"
    unfolding init_transport_def by (intro ssl grows_rules)
  show "keeps grows (init_cluster os)" "keeps grows (find_rank os)" "keeps grows free_init_data"
    unfolding init_cluster_def calloc_strcpy_def find_rank_def take_rank_def free_init_data_def
    by (intro hist.rules(1-6,8-11) grows_prims output_grows grows_updates; simp)+
qed

lemma exec_grows: "keeps grows (exec os c)"
proof (rule exec_keeps [OF hist.step_order_axioms])
  have "keeps grows (init_rest os l tt r)" for l tt r
    unfolding init_rest_def
    by (intro hist.rules(1-6,8-11) grows_prims grows_updates init_parts_grow; simp)
  then have "keeps grows (init_locked os app l g tt)" for app l g tt
    unfolding init_locked_def calloc_strcpy_def
    by (intro grows_rules init_parts_grow)
  then show "keeps grows (daapInit os app l g tt)" for app l g tt
    unfolding daapInit_def by (intro grows_rules init_parts_grow writers_grow)
  show "keeps grows (daapFinalize os)"
    unfolding daapFinalize_def
    by (intro grows_rules init_parts_grow writers_grow daapShutdownSSL_grows)
  show "keeps grows (daapSetRank r)" for r
    unfolding daapSetRank_def by (intro grows_rules)
qed (rule writers_grow)+

text \<open>
  Lines once delivered stay delivered: over any call, the delivered lines and the bytes on
  the wire are only extended.
\<close>
lemma session_append_only:
  assumes "call os w c r w'"
  shows "prefix (delivered (trace w)) (delivered (trace w')) \<and>
         prefix (wire (trace w)) (wire (trace w'))"
proof -
  have "grows w w'" using assms keepsD [OF exec_grows] by (auto simp: call_iff)
  then show ?thesis by (auto simp: grows_def prefix_def)
qed

lemma session_append_only_witness:
  "prefix (delivered (trace world0)) (delivered (trace (world0\<lparr>init_data := init_data0\<lparr>mpi_rank := 3\<rparr>\<rparr>))) \<and>
   prefix (wire (trace world0)) (wire (trace (world0\<lparr>init_data := init_data0\<lparr>mpi_rank := 3\<rparr>\<rparr>)))"
proof -
  have "exec os_good (SetRank 3) world0 = Ret None (world0\<lparr>init_data := init_data0\<lparr>mpi_rank := 3\<rparr>\<rparr>)"
    by (simp add: daapSetRank_def world0_def)
  then have "call os_good world0 (SetRank 3) None (world0\<lparr>init_data := init_data0\<lparr>mpi_rank := 3\<rparr>\<rparr>)"
    by (rule call.intros)
  then show ?thesis by (rule session_append_only)
qed

end
