(* ===== verification/Threads.thy ===== *)
theory Threads
  imports Lifecycle
begin

text \<open>
  Several threads of one process that log through a TLS connection, with \<open>daapLogWrite\<close> and
  \<open>daapLogRawWrite\<close> of \<open>src/daap_log.c\<close> in any mixture (\<open>request\<close>). A call is cut at the places
  where another thread can run in between (\<open>advance\<close>, one step of a thread from one program
  point to the next); a single thread that takes these steps computes the sequential code
  (\<open>perform\<close>). The two writers share all points from \<open>Dispatching\<close> on. The step relation \<open>sys_step\<close> lets any thread take its next step.
  A mutex that another thread holds shows up as a step that is not possible yet.

  The locale \<open>mutex_client\<close> is the discipline of code that takes a mutex before a region and
  gives it back after; its interpretation on \<open>advance\<close> gives mutual exclusion for
  \<open>write_mutex\<close>. On top of it: lines of different threads never mix on the wire, every
  thread's calls arrive in its own order, no state is stuck, and every run is finite.
  The last section has the race that \<open>write_mutex\<close> does not exclude, the one with
  \<open>daapFinalize\<close>; those of \<open>daapInit\<close> are in \<open>InitThreads\<close>.
\<close>

section \<open>The program points of the writers\<close>

text \<open>A call of one of the two writers.\<close>

datatype request =
    Log string "arg list"
  | LogRaw string "arg list"

fun perform :: "os \<Rightarrow> request \<Rightarrow> (world, int) cmd" where
  "perform os (Log message args) = daapLogWrite os message args"
| "perform os (LogRaw message args) = daapLogRawWrite os message args"

datatype point =
    Entering request
  | Stamping string
  | Building "64 word" string
  | BuildingRaw string
  | Dispatching string
  | Locking string
  | Connecting string
  | Sending string int int
  | Closing string int
  | Unlocking string int
  | Freeing string
  | Returned int

text \<open>
  One step. \<open>Entering\<close> checks the initialisation and formats the message, \<open>Stamping\<close> reads
  the clock, \<open>Building\<close> and \<open>BuildingRaw\<close> make the line, \<open>Dispatching\<close> chooses the
  transport; \<open>Locking\<close> to \<open>Unlocking\<close> are \<open>daapTCPLogWrite\<close>, with one step for each pass of
  its loop and its result carried to the diagnostic that follows it; \<open>Freeing\<close> releases the
  line.
\<close>

fun advance :: "os \<Rightarrow> point \<Rightarrow> (world, point) cmd" where
  "advance os (Entering (Log message args)) =
     bindC (asks daapInit_called) (\<lambda>called.
     if \<not> called then
       seqC (set_errno EPERM)
      (ret (Returned DAAP_ERROR))
     else
       bindC (format_message os message args) (\<lambda>full_message.
       ret (Stamping full_message)))"
| "advance os (Entering (LogRaw message args)) =
     bindC (asks daapInit_called) (\<lambda>called.
     if \<not> called then
       seqC (set_errno EPERM)
      (seqC (emit (EvPerror ''Initialize with daapInit() before calling daapLogRawWrite()''))
      (ret (Returned DAAP_ERROR)))
     else
       bindC (format_message os message args) (\<lambda>full_message.
       ret (BuildingRaw full_message)))"
| "advance os (Stamping full_message) =
     bindC (getmillisectime os) (\<lambda>tstamp. ret (Building tstamp full_message))"
| "advance os (Building tstamp full_message) =
     bindC (daapBuildInflux os (sint tstamp) full_message) (\<lambda>influx_str.
     if influx_str = SNull then ret (Returned DAAP_SUCCESS)
     else
       bindC (deref influx_str) (\<lambda>line.
       seqC (DEBUG_OUTPUT os U_log ''Complete influx string: %s'' [StrArg line])
      (ret (Dispatching line))))"
| "advance os (BuildingRaw full_message) =
     bindC (daapBuildRawInflux os full_message) (\<lambda>influx_str.
     if influx_str = SNull then ret (Returned 0)
     else
       bindC (deref influx_str) (\<lambda>line.
       seqC (DEBUG_OUTPUT os U_log ''Complete influx string: %s'' [StrArg line])
      (ret (Dispatching line))))"
| "advance os (Dispatching line) =
     bindC (asks init_data) (\<lambda>d.
     if transport_type d = SYSLOG then
       seqC (emit (EvSyslog (level d) line))
      (ret (Freeing line))
     else if transport_type d = TCP then ret (Locking line)
     else ret (Freeing line))"
| "advance os (Locking line) = seqC (lock Write_mutex) (ret (Connecting line))"
| "advance os (Connecting line) =
     bindC (daapTCPConnect os) (\<lambda>r.
     if r < 0 then ret (Unlocking line DAAP_ERROR)
     else seqC (emit EvErrClear) (ret (Sending line 0 0)))"
| "advance os (Sending line count total_count) =
     (\<lambda>w. case ssl_write_pass os line (int (length line)) count total_count w of
            Inl r \<Rightarrow> bindC (\<lambda>_. r) (\<lambda>c. ret (Closing line c)) w
          | Inr (c, t, w') \<Rightarrow> Ret (Sending line c t) w')"
| "advance os (Closing line count) =
     bindC (asks sockfd) (\<lambda>fd.
     seqC (emit (EvClose fd))
    (ret (Unlocking line count)))"
| "advance os (Unlocking line count) =
     seqC (unlock Write_mutex)
    (seqC (DEBUG_OUTPUT os U_log ''Writing message: %s, written: %d''
             [StrArg line, IntArg (word_of_int count)])
    (ret (Freeing line)))"
| "advance os (Freeing line) = seqC (emit (EvFree line)) (ret (Returned DAAP_SUCCESS))"
| "advance os (Returned r) = ret (Returned r)"

text \<open>What is left of a call at each point, as sequential code.\<close>

fun load :: "point \<Rightarrow> nat" where
  "load (Entering c) = 11"
| "load (Stamping full_message) = 10"
| "load (Building tstamp full_message) = 9"
| "load (BuildingRaw full_message) = 9"
| "load (Dispatching line) = 8"
| "load (Locking line) = 7"
| "load (Connecting line) = 6"
| "load (Sending line count total_count) = (if total_count = int (length line) then 4 else 5)"
| "load (Closing line count) = 3"
| "load (Unlocking line count) = 2"
| "load (Freeing line) = 1"
| "load (Returned r) = 0"

function (sequential) rest :: "os \<Rightarrow> point \<Rightarrow> (world, int) cmd" where
  "rest os (Entering c) = perform os c"
| "rest os (Stamping full_message) =
     bindC (getmillisectime os) (\<lambda>tstamp. rest os (Building tstamp full_message))"
| "rest os (Building tstamp full_message) =
     bindC (daapBuildInflux os (sint tstamp) full_message) (\<lambda>influx_str.
     if influx_str = SNull then ret DAAP_SUCCESS
     else
       bindC (deref influx_str) (\<lambda>line.
       seqC (DEBUG_OUTPUT os U_log ''Complete influx string: %s'' [StrArg line])
      (rest os (Dispatching line))))"
| "rest os (BuildingRaw full_message) =
     bindC (daapBuildRawInflux os full_message) (\<lambda>influx_str.
     if influx_str = SNull then ret 0
     else
       bindC (deref influx_str) (\<lambda>line.
       seqC (DEBUG_OUTPUT os U_log ''Complete influx string: %s'' [StrArg line])
      (rest os (Dispatching line))))"
| "rest os (Dispatching line) = seqC (transmit os line) (rest os (Freeing line))"
| "rest os (Locking line) = seqC (lock Write_mutex) (rest os (Connecting line))"
| "rest os (Connecting line) =
     bindC (daapTCPConnect os) (\<lambda>r.
     if r < 0 then rest os (Unlocking line DAAP_ERROR)
     else seqC (emit EvErrClear) (rest os (Sending line 0 0)))"
| "rest os (Sending line count total_count) =
     bindC (run_loop (ssl_write_loop os line (int (length line)) count total_count)) (\<lambda>c.
     rest os (Closing line c))"
| "rest os (Closing line count) =
     bindC (asks sockfd) (\<lambda>fd. seqC (emit (EvClose fd)) (rest os (Unlocking line count)))"
| "rest os (Unlocking line count) =
     seqC (unlock Write_mutex)
    (seqC (DEBUG_OUTPUT os U_log ''Writing message: %s, written: %d''
             [StrArg line, IntArg (word_of_int count)])
    (rest os (Freeing line)))"
| "rest os (Freeing line) = seqC (emit (EvFree line)) (ret DAAP_SUCCESS)"
| "rest os (Returned r) = ret r"
  by pat_completeness auto
termination by (relation "measure (\<lambda>(os, p). load p)") auto

declare rest.simps [simp del]

declare bindC_ret [simp]

lemma run_loop_unfold:
  "run_loop (ssl_write_loop os buf n count tot) w =
     (case ssl_write_pass os buf n count tot w of
        Inl r \<Rightarrow> r
      | Inr (c, t, w') \<Rightarrow> run_loop (ssl_write_loop os buf n c t) w')"
  by (simp add: run_loop_def ssl_write_loop.simps [of os buf n count tot w]
      split: sum.split prod.split)

lemmas run_eqs = bindC_def seqC_def ret_def asks_def

lemma advance_sending:
  "bindC (advance os (Sending line c t)) (rest os) w = rest os (Sending line c t) w"
  by (simp add: rest.simps(8) run_loop_unfold [of os line _ c t w] bindC_def ret_def
      split: sum.split prod.split outcome.split)

lemma advance_dispatching:
  "bindC (advance os (Dispatching line)) (rest os) w = rest os (Dispatching line) w"
  by (simp add: rest.simps transmit_def daapTCPLogWrite_def emit_def unlock_def update_def run_eqs
      split: outcome.split)

lemma advance_entering:
  "bindC (advance os (Entering c)) (rest os) w = rest os (Entering c) w"
  by (cases c)
    (simp_all add: rest.simps daapLogWrite_def log_write_via_def daapLogRawWrite_def log_raw_via_def
      set_errno_def emit_def update_def run_eqs deref_def faultC_def free_str_def DAAP_SUCCESS_def
      split: outcome.split strptr.split)

lemma advance_rest: "bindC (advance os p) (rest os) = rest os p"
proof (rule ext)
  fix w
  show "bindC (advance os p) (rest os) w = rest os p w"
  proof (cases p)
    case (Building tstamp full_message)
    then show ?thesis
      by (simp add: rest.simps run_eqs deref_def faultC_def split: outcome.split strptr.split)
  next
    case (BuildingRaw full_message)
    then show ?thesis
      by (simp add: rest.simps run_eqs deref_def faultC_def split: outcome.split strptr.split)
  next
    case (Entering c)
    show ?thesis unfolding Entering by (rule advance_entering)
  next
    case (Dispatching line)
    show ?thesis unfolding Dispatching by (rule advance_dispatching)
  next
    case (Sending line c t)
    show ?thesis unfolding Sending by (rule advance_sending)
  qed (simp_all add: rest.simps run_eqs split: outcome.split)
qed

section \<open>Threads\<close>

record thread =
  pc :: point
  todo :: "request list"

record sys =
  shared :: world
  threads :: "thread list"

text \<open>
  A thread that is between two calls starts the next one of its list; a thread inside a call
  takes the next step of it. A blocked \<open>pthread_mutex_lock\<close> is a step that does not return in
  the present state.
\<close>

inductive sys_step :: "os \<Rightarrow> sys \<Rightarrow> sys \<Rightarrow> bool" for os where
  Call: "i < length (threads s) \<Longrightarrow> pc (threads s ! i) = Returned r \<Longrightarrow>
     todo (threads s ! i) = c # cs \<Longrightarrow>
     sys_step os s (s\<lparr>threads := (threads s)[i := \<lparr>pc = Entering c, todo = cs\<rparr>]\<rparr>)"
| Step: "i < length (threads s) \<Longrightarrow> 0 < load (pc (threads s ! i)) \<Longrightarrow>
     advance os (pc (threads s ! i)) (shared s) = Ret q w \<Longrightarrow>
     sys_step os s (s\<lparr>shared := w, threads := (threads s)[i := (threads s ! i)\<lparr>pc := q\<rparr>]\<rparr>)"

definition start :: "world \<Rightarrow> request list list \<Rightarrow> sys" where
  "start w jobs = \<lparr>shared = w, threads = map (\<lambda>ms. \<lparr>pc = Returned 0, todo = ms\<rparr>) jobs\<rparr>"

abbreviation reaches :: "os \<Rightarrow> sys \<Rightarrow> sys \<Rightarrow> bool" where
  "reaches os \<equiv> (sys_step os)\<^sup>*\<^sup>*"

lemma start_simps [simp]:
  "shared (start w jobs) = w"
  "threads (start w jobs) = map (\<lambda>ms. \<lparr>pc = Returned 0, todo = ms\<rparr>) jobs"
  by (simp_all add: start_def)

section \<open>The discipline of a mutex\<close>

text \<open>
  At most one thread is in the region that the mutex guards, and then the mutex is locked;
  with no thread in the region it is free.
\<close>

definition exclusive :: "('p \<Rightarrow> bool) \<Rightarrow> mutex \<Rightarrow> 'p list \<Rightarrow> world \<Rightarrow> bool" where
  "exclusive inside m ps w \<longleftrightarrow> length (filter inside ps) = of_bool (m \<in> held w)"

lemma length_filter_update:
  "i < length ps \<Longrightarrow>
     length (filter P (ps[i := q])) + of_bool (P (ps ! i)) =
     length (filter P ps) + of_bool (P q)"
proof (induction ps arbitrary: i)
  case (Cons p ps)
  then show ?case by (cases i) auto
qed simp

lemma two_in_filter:
  assumes "i < j" and "j < length ps" and "P (ps ! i)" and "P (ps ! j)"
  shows "2 \<le> length (filter P ps)"
proof -
  have "ps = take j ps @ ps ! j # drop (Suc j) ps"
    using assms(2) by (rule id_take_nth_drop)
  then have split: "filter P ps = filter P (take j ps) @ ps ! j # filter P (drop (Suc j) ps)"
    using assms(4) by (metis filter.simps(2) filter_append)
  have "ps ! i \<in> set (filter P (take j ps))"
    using assms by (auto simp: in_set_conv_nth)
  then have "0 < length (filter P (take j ps))" by (rule length_pos_if_in_set)
  moreover have "length (filter P ps) =
      length (filter P (take j ps)) + Suc (length (filter P (drop (Suc j) ps)))"
    by (rule trans [OF arg_cong [OF split, of length]]) simp
  ultimately show ?thesis by linarith
qed

locale mutex_client =
  fixes step :: "'p \<Rightarrow> (world, 'p) cmd"
    and inside :: "'p \<Rightarrow> bool"
    and m :: mutex
  assumes enter: "step p w = Ret q w' \<Longrightarrow> \<not> inside p \<Longrightarrow> inside q \<Longrightarrow> m \<notin> held w \<and> m \<in> held w'"
    and leave: "step p w = Ret q w' \<Longrightarrow> inside p \<Longrightarrow> \<not> inside q \<Longrightarrow> m \<notin> held w'"
    and stay: "step p w = Ret q w' \<Longrightarrow> inside q = inside p \<Longrightarrow> (m \<in> held w') = (m \<in> held w)"
begin

lemma exclusive_step:
  assumes "exclusive inside m ps w" and "i < length ps" and "step (ps ! i) w = Ret q w'"
  shows "exclusive inside m (ps[i := q]) w'"
proof -
  note count = length_filter_update [OF assms(2), of inside q]
  show ?thesis
  proof (cases "inside q = inside (ps ! i)")
    case True
    with count stay [OF assms(3)] assms(1) show ?thesis by (simp add: exclusive_def)
  next
    case False
    with count enter [OF assms(3)] leave [OF assms(3)] assms(1) show ?thesis
      by (cases "inside q") (auto simp: exclusive_def of_bool_def split: if_splits)
  qed
qed

lemma exclusive_one:
  assumes "exclusive inside m ps w" and "i < length ps" "j < length ps"
    and "inside (ps ! i)" "inside (ps ! j)"
  shows "i = j"
proof (rule ccontr)
  assume "i \<noteq> j"
  then have "2 \<le> length (filter inside ps)"
    using two_in_filter [of i j ps inside] two_in_filter [of j i ps inside] assms(2-) by linarith
  with assms(1) show False by (auto simp: exclusive_def of_bool_def split: if_splits)
qed

lemma exclusive_owner:
  assumes "exclusive inside m ps w"
  shows "m \<in> held w \<longleftrightarrow> (\<exists>i < length ps. inside (ps ! i))"
proof -
  have "m \<in> held w \<longleftrightarrow> filter inside ps \<noteq> []"
    using assms by (auto simp: exclusive_def of_bool_def split: if_splits)
  also have "\<dots> \<longleftrightarrow> (\<exists>i < length ps. inside (ps ! i))"
    by (force simp: filter_empty_conv in_set_conv_nth)
  finally show ?thesis .
qed

end

text \<open>The region of \<open>write_mutex\<close> in the writer.\<close>

fun writing :: "point \<Rightarrow> bool" where
  "writing (Connecting line) = True"
| "writing (Sending line count total_count) = True"
| "writing (Closing line count) = True"
| "writing (Unlocking line count) = True"
| "writing p = False"

text \<open>What a step does to the mutexes.\<close>

fun mutexes_after :: "point \<Rightarrow> mutex set \<Rightarrow> mutex set" where
  "mutexes_after (Locking line) h = insert Write_mutex h"
| "mutexes_after (Unlocking line count) h = h - {Write_mutex}"
| "mutexes_after p h = h"

lemma send_step:
  assumes "advance os (Sending line c t) w = Ret q w'"
  shows "\<exists>es. w' = w\<lparr>trace := trace w @ es\<rparr>"
    and "(\<exists>c. q = Closing line c) \<or> (\<exists>c t. q = Sending line c t)"
  using assms
  by (auto simp: bindC_def ret_def split: sum.splits prod.splits outcome.splits
      dest: ssl_write_pass_trace)

lemma advance_keeps_held:
  "preserves held (advance os (Entering (Log message args)))"
  "preserves held (advance os (Entering (LogRaw message args)))"
  "preserves held (advance os (Stamping full_message))"
  "preserves held (advance os (Building tstamp full_message))"
  "preserves held (advance os (BuildingRaw full_message))"
  "preserves held (advance os (Dispatching line))"
  "preserves held (advance os (Connecting line))"
  "preserves held (advance os (Closing line count))"
  "preserves held (advance os (Freeing line))"
  "preserves held (advance os (Returned r))"
  unfolding advance.simps by (intro output_held format_message_held frame; simp)+

lemma advance_held:
  assumes "advance os p w = Ret q w'"
  shows "held w' = mutexes_after p (held w)"
proof (cases p)
  case (Sending line c t)
  with send_step(1) assms show ?thesis by fastforce
next
  case (Locking line)
  with assms show ?thesis by (auto simp: seqC_def bindC_def lock_def split: if_splits)
next
  case (Unlocking line count)
  with assms obtain v where
    "DEBUG_OUTPUT os U_log ''Writing message: %s, written: %d'' [StrArg line, IntArg (word_of_int count)]
       (w\<lparr>held := held w - {Write_mutex}\<rparr>) = Ret () v" and "w' = v"
    by (auto simp: seqC_def bindC_def ret_def split: outcome.splits)
  from preservesD [OF output_held(2) this(1)] this(2) Unlocking show ?thesis by simp
next
  case (Entering c)
  with assms show ?thesis
    using preservesD [OF advance_keeps_held(1)] preservesD [OF advance_keeps_held(2)]
    by (cases c) (auto simp del: advance.simps)
qed (use assms in \<open>auto simp del: advance.simps dest: advance_keeps_held(3-) [THEN preservesD]\<close>)

text \<open>Where a step leads.\<close>

lemma advance_writing:
  assumes "advance os p w = Ret q w'"
  shows "writing q \<longleftrightarrow> (case p of Locking line \<Rightarrow> True | Unlocking line c \<Rightarrow> False | _ \<Rightarrow> writing p)"
proof (cases p)
  case (Sending line c t)
  with send_step(2) assms show ?thesis by fastforce
next
  case (Entering c)
  with assms show ?thesis by (cases c) (auto simp: run_eqs split: if_splits outcome.splits)
qed (use assms in \<open>auto simp: run_eqs deref_def faultC_def
       split: if_splits outcome.splits strptr.splits\<close>)

interpretation writer: mutex_client "advance os" writing Write_mutex for os
proof unfold_locales
  fix p q :: point and w w' :: world
  assume step: "advance os p w = Ret q w'"
  note eqs = advance_held [OF step] advance_writing [OF step]
  show "\<not> writing p \<Longrightarrow> writing q \<Longrightarrow> Write_mutex \<notin> held w \<and> Write_mutex \<in> held w'"
    using eqs step by (cases p) (auto simp: seqC_def bindC_def lock_def split: if_splits)
  show "writing p \<Longrightarrow> \<not> writing q \<Longrightarrow> Write_mutex \<notin> held w'"
    using eqs by (cases p) auto
  show "writing q = writing p \<Longrightarrow> (Write_mutex \<in> held w') = (Write_mutex \<in> held w)"
    using eqs by (cases p) auto
qed

section \<open>One thread alone\<close>

text \<open>\<open>steps n\<close> lets one thread take \<open>n\<close> steps with no other thread in between.\<close>

fun steps :: "os \<Rightarrow> nat \<Rightarrow> point \<Rightarrow> (world, point) cmd" where
  "steps os 0 p = ret p"
| "steps os (Suc n) p = bindC (advance os p) (steps os n)"

lemma steps_rest: "bindC (steps os n p) (rest os) = rest os p"
proof (induction n arbitrary: p)
  case (Suc n)
  then have "(\<lambda>q. bindC (steps os n q) (rest os)) = rest os" by (rule ext)
  then show ?case by (simp add: bindC_assoc advance_rest)
qed simp

lemma steps_add: "steps os (k + n) p = bindC (steps os k p) (steps os n)"
proof (induction k arbitrary: p)
  case (Suc k)
  then have "steps os (k + n) = (\<lambda>q. bindC (steps os k q) (steps os n))" by (rule ext)
  then show ?case by (simp add: bindC_assoc)
qed simp

lemma advance_load:
  assumes "advance os p w = Ret q w'" and "0 < load p" and "\<nexists>line c t. p = Sending line c t"
  shows "load q < load p"
  using assms
  by (cases "(os, p)" rule: advance.cases) (auto simp: run_eqs deref_def faultC_def
      split: if_splits outcome.splits strptr.splits)

lemma steps_loop:
  assumes "run_loop (ssl_write_loop os line (int (length line)) c t) w = Ret r w'"
  shows "\<exists>n. steps os n (Sending line c t) w = Ret (Closing line r) w'"
proof -
  from assms have "ssl_write_loop os line (int (length line)) c t w = Some (Ret r w')"
    by (simp add: run_loop_def split: option.splits)
  then have "\<forall>r' v. Ret r w' = Ret r' v \<longrightarrow>
      (\<exists>n. steps os n (Sending line c t) w = Ret (Closing line r') v)"
  proof (rule ssl_write_loop_rule [where P = "\<lambda>c t w q. \<forall>r' v. q = Ret r' v \<longrightarrow>
      (\<exists>n. steps os n (Sending line c t) w = Ret (Closing line r') v)"])
    fix c t w q
    assume "ssl_write_pass os line (int (length line)) c t w = Inl q"
    then have "q = Ret r' v \<Longrightarrow> steps os (Suc 0) (Sending line c t) w = Ret (Closing line r') v" for r' v
      by (simp add: bindC_def ret_def)
    then show "\<forall>r' v. q = Ret r' v \<longrightarrow>
        (\<exists>n. steps os n (Sending line c t) w = Ret (Closing line r') v)" by blast
  next
    fix c t w c' t' v q
    assume pass: "ssl_write_pass os line (int (length line)) c t w = Inr (c', t', v)"
      and IH: "\<forall>r' u. q = Ret r' u \<longrightarrow>
        (\<exists>n. steps os n (Sending line c' t') v = Ret (Closing line r') u)"
    have "steps os (Suc n) (Sending line c t) w = steps os n (Sending line c' t') v" for n
      by (simp add: bindC_def pass)
    with IH show "\<forall>r' u. q = Ret r' u \<longrightarrow>
        (\<exists>n. steps os n (Sending line c t) w = Ret (Closing line r') u)" by metis
  qed
  then show ?thesis by blast
qed

lemma rest_steps:
  "rest os p w = Ret r w' \<Longrightarrow> \<exists>n. steps os n p w = Ret (Returned r) w'"
proof (induction "load p" arbitrary: p w rule: less_induct)
  case less
  show ?case
  proof (cases "\<exists>line c t. p = Sending line c t")
    case True
    then obtain line c t where p: "p = Sending line c t" by blast
    with less.prems obtain k v
      where loop: "run_loop (ssl_write_loop os line (int (length line)) c t) w = Ret k v"
        and "rest os (Closing line k) v = Ret r w'"
      by (auto simp: rest.simps(8) bindC_def split: outcome.splits)
    moreover have "load (Closing line k) < load p" by (simp add: p)
    ultimately obtain n where "steps os n (Closing line k) v = Ret (Returned r) w'"
      using less.hyps by blast
    moreover obtain j where "steps os j (Sending line c t) w = Ret (Closing line k) v"
      using steps_loop [OF loop] by blast
    ultimately have "steps os (j + n) p w = Ret (Returned r) w'" by (simp add: steps_add p)
    then show ?thesis by blast
  next
    case not_loop: False
    show ?thesis
    proof (cases "load p = 0")
      case True
      then obtain x where "p = Returned x" by (cases p) (auto split: if_splits)
      with less.prems have "steps os 0 p w = Ret (Returned r) w'" by (simp add: rest.simps)
      then show ?thesis by blast
    next
      case False
      have "bindC (advance os p) (rest os) w = Ret r w'"
        using less.prems by (simp only: advance_rest)
      then obtain q v where step: "advance os p w = Ret q v" and "rest os q v = Ret r w'"
        by (auto simp: bindC_def split: outcome.splits)
      with less.hyps advance_load [OF step] not_loop False
      obtain n where "steps os n q v = Ret (Returned r) w'" by blast
      then have "steps os (Suc n) p w = Ret (Returned r) w'" by (simp add: step)
      then show ?thesis by blast
    qed
  qed
qed

text \<open>
  C18: A thread that is not interrupted reaches the end of a call exactly when the sequential
  code of the writer returns (\<open>daapLogWrite\<close> or \<open>daapLogRawWrite\<close>), with the same value and in
  the same state: the step relation is a refinement of the sequential code, in every
  environment, in debug and in release builds.
\<close>
theorem steps_compute_log_write:
  "(\<exists>n. steps os n (Entering c) w = Ret (Returned r) w') \<longleftrightarrow> perform os c w = Ret r w'"
proof
  assume "\<exists>n. steps os n (Entering c) w = Ret (Returned r) w'"
  then obtain n where run: "steps os n (Entering c) w = Ret (Returned r) w'" ..
  have "bindC (steps os n (Entering c)) (rest os) w = perform os c w"
    by (simp only: steps_rest rest.simps)
  with run show "perform os c w = Ret r w'" by (simp add: rest.simps)
next
  assume "perform os c w = Ret r w'"
  then show "\<exists>n. steps os n (Entering c) w = Ret (Returned r) w'"
    by (intro rest_steps) (simp add: rest.simps)
qed

section \<open>Mutual exclusion\<close>

definition points :: "sys \<Rightarrow> point list" where
  "points s = map pc (threads s)"

lemma points_step:
  assumes "sys_step os s s'"
  obtains (call) i r c where "i < length (points s)" "points s ! i = Returned r"
      "points s' = (points s)[i := Entering c]" "shared s' = shared s"
  | (step) i q where "i < length (points s)" "0 < load (points s ! i)"
      "advance os (points s ! i) (shared s) = Ret q (shared s')" "points s' = (points s)[i := q]"
  using assms
proof cases
  case (Call i r c cs)
  then show thesis
    by (intro call [of i r c]) (simp_all add: points_def map_update)
next
  case (Step i q w)
  then show thesis
    by (intro step [of i q]) (simp_all add: points_def map_update)
qed

lemma reaches_exclusive:
  assumes "reaches os (start w jobs) s" and "Write_mutex \<notin> held w"
  shows "exclusive writing Write_mutex (points s) (shared s)"
  using assms(1)
proof (induction rule: rtranclp_induct)
  case base
  show ?case using assms(2) by (simp add: exclusive_def points_def)
next
  case (step s s')
  from \<open>sys_step os s s'\<close> show ?case
  proof (cases rule: points_step)
    case (call i r c)
    with step.IH length_filter_update [OF call(1), of writing "Entering c"]
    show ?thesis by (simp add: exclusive_def)
  next
    case (step i q)
    then show ?thesis using writer.exclusive_step [OF step.IH] by simp
  qed
qed

text \<open>Two threads, one for each writer.\<close>

definition two_jobs :: "request list list" where
  "two_jobs = [[Log ''step 1'' []], [LogRaw ''%s'' [StrArg ''step 2'']]]"

lemma two_jobs_started:
  obtains s where "reaches os_good (start (world_ready TCP) two_jobs) s"
    and "pc (threads s ! 1) = Entering (two_jobs ! 1 ! 0)"
proof (rule that)
  let ?s = "start (world_ready TCP) two_jobs"
  let ?t = "?s\<lparr>threads := (threads ?s)[1 := \<lparr>pc = Entering (two_jobs ! 1 ! 0), todo = []\<rparr>]\<rparr>"
  have "sys_step os_good ?s ?t" by (rule Call) (simp_all add: two_jobs_def)
  then show "reaches os_good ?s ?t" by (rule r_into_rtranclp)
  show "pc (threads ?t ! 1) = Entering (two_jobs ! 1 ! 0)" by (simp add: two_jobs_def)
qed

text \<open>
  C20: In every environment and for any number of threads that log any messages, at most one
  thread is between taking and releasing \<open>write_mutex\<close>, and the mutex is locked exactly when
  one is: so no two threads share the socket and the connection in the global variables.
\<close>
theorem threads_exclude:
  assumes "reaches os (start w jobs) s" and "Write_mutex \<notin> held w"
  shows "(Write_mutex \<in> held (shared s) \<longleftrightarrow>
            (\<exists>i < length (threads s). writing (pc (threads s ! i)))) \<and>
         (\<forall>i < length (threads s). \<forall>j < length (threads s).
            writing (pc (threads s ! i)) \<longrightarrow> writing (pc (threads s ! j)) \<longrightarrow> i = j)"
proof -
  note ex = reaches_exclusive [OF assms]
  have "points s ! i = pc (threads s ! i)" if "i < length (threads s)" for i
    using that by (simp add: points_def)
  moreover have "length (points s) = length (threads s)" by (simp add: points_def)
  ultimately show ?thesis
    using writer.exclusive_owner [OF ex] writer.exclusive_one [OF ex] by metis
qed

theorem threads_exclude_witness:
  "\<exists>s. reaches os_good (start (world_ready TCP) two_jobs) s \<and>
     pc (threads s ! 1) = Entering (two_jobs ! 1 ! 0) \<and>
     (Write_mutex \<in> held (shared s) \<longleftrightarrow>
        (\<exists>i < length (threads s). writing (pc (threads s ! i))))"
proof -
  obtain s where run: "reaches os_good (start (world_ready TCP) two_jobs) s"
    and at: "pc (threads s ! 1) = Entering (two_jobs ! 1 ! 0)"
    by (rule two_jobs_started)
  have "Write_mutex \<notin> held (world_ready TCP)" by (simp add: world_ready_def world0_def)
  from threads_exclude [OF run this] run at show ?thesis by blast
qed

section \<open>Delivery by several threads\<close>

text \<open>
  The environment of a working session, a line that the write loop can take, and what is
  known of a thread at each point: \<open>u\<close> is its call whose line has not been delivered yet (none
  or one).
\<close>

definition working :: "os \<Rightarrow> bool" where
  "working os \<longleftrightarrow> env_ok os \<and> tls_up os \<and> writes_whole os"

definition sendable :: "string \<Rightarrow> bool" where
  "sendable line \<longleftrightarrow> line \<noteq> [] \<and> int (length line) \<le> INT_MAX"

fun carries ::
  "(request \<Rightarrow> bool) \<Rightarrow> (request \<Rightarrow> string \<Rightarrow> bool) \<Rightarrow> os \<Rightarrow> point \<Rightarrow> request list \<Rightarrow> bool" where
  "carries G R os (Entering c) u = (G c \<and> u = [c])"
| "carries G R os (Stamping out) u =
     (\<exists>m as. u = [Log m as] \<and> G (Log m as) \<and> format m as = Some out)"
| "carries G R os (Building t out) u =
     (\<exists>m as. u = [Log m as] \<and> G (Log m as) \<and> format m as = Some out \<and>
        (\<exists>h. t = millisec (os_gettimeofday os h)))"
| "carries G R os (BuildingRaw out) u =
     (\<exists>m as. u = [LogRaw m as] \<and> G (LogRaw m as) \<and> format m as = Some out)"
| "carries G R os (Dispatching line) u = (sendable line \<and> (\<exists>c. u = [c] \<and> R c line))"
| "carries G R os (Locking line) u = (sendable line \<and> (\<exists>c. u = [c] \<and> R c line))"
| "carries G R os (Connecting line) u = (sendable line \<and> (\<exists>c. u = [c] \<and> R c line))"
| "carries G R os (Sending line n t) u =
     (sendable line \<and>
        (n = 0 \<and> t = 0 \<and> (\<exists>c. u = [c] \<and> R c line) \<or> t = int (length line) \<and> u = []))"
| "carries G R os p u = (u = [])"

text \<open>
  A step of a working thread: it returns, comes closer to the end of the call, keeps the
  session, and either delivers nothing or the whole line of its call.
\<close>

definition works ::
  "(request \<Rightarrow> bool) \<Rightarrow> (request \<Rightarrow> string \<Rightarrow> bool) \<Rightarrow> os \<Rightarrow> request list \<Rightarrow> world \<Rightarrow> point \<Rightarrow> world \<Rightarrow> bool" where
  "works G R os u w q w' \<longleftrightarrow>
     init_data w' = init_data w \<and> daapInit_called w' = daapInit_called w \<and>
     (delivered (trace w') = delivered (trace w) \<and> wire (trace w') = wire (trace w) \<and>
        carries G R os q u
      \<or> (\<exists>c line. u = [c] \<and> R c line \<and> carries G R os q [] \<and>
           delivered (trace w') = delivered (trace w) @ [line] \<and>
           wire (trace w') = wire (trace w) @ line))"

text \<open>
  The calls whose line can be told from its message: the formatted message of \<open>daapLogWrite\<close> has
  no quote and its line fits the buffer; that of \<open>daapLogRawWrite\<close> is not truncated. What then
  arrives: a line that the collector reads, or the raw line of the message.
\<close>

fun loggable :: "string \<Rightarrow> string \<Rightarrow> string \<Rightarrow> int \<Rightarrow> request \<Rightarrow> bool" where
  "loggable app host cluster rank (Log m as) =
     (case format m as of
        None \<Rightarrow> False
      | Some out \<Rightarrow> field_safe out \<and> fits app host cluster rank out)"
| "loggable app host cluster rank (LogRaw m as) =
     (case format m as of
        None \<Rightarrow> False
      | Some out \<Rightarrow> length out \<le> DAAP_MAX_MSG_LEN)"

fun arrives_as :: "string \<Rightarrow> string \<Rightarrow> string \<Rightarrow> int \<Rightarrow> request \<Rightarrow> string \<Rightarrow> bool" where
  "arrives_as app host cluster rank (Log m as) line \<longleftrightarrow>
     (case format m as of
        None \<Rightarrow> False
      | Some out \<Rightarrow> reads_as app host cluster rank out line)"
| "arrives_as app host cluster rank (LogRaw m as) line \<longleftrightarrow>
     (case format m as of
        None \<Rightarrow> False
      | Some out \<Rightarrow> line = snprintf_str max_size (''daap,'' @ out))"

abbreviation good_in :: "string \<Rightarrow> string \<Rightarrow> string \<Rightarrow> world \<Rightarrow> request \<Rightarrow> bool" where
  "good_in app host cluster w \<equiv> loggable app host cluster (mpi_rank (init_data w))"

abbreviation reads_in ::
  "string \<Rightarrow> string \<Rightarrow> string \<Rightarrow> world \<Rightarrow> request \<Rightarrow> string \<Rightarrow> bool" where
  "reads_in app host cluster w \<equiv> arrives_as app host cluster (mpi_rank (init_data w))"

lemma loggable_formats:
  "loggable app host cluster rank (Log m as) \<Longrightarrow>
     \<exists>out. format m as = Some out \<and> length out \<le> DAAP_MAX_MSG_LEN"
  "loggable app host cluster rank (LogRaw m as) \<Longrightarrow>
     \<exists>out. format m as = Some out \<and> length out \<le> DAAP_MAX_MSG_LEN"
  by (auto simp: fits_def c_consts max_size_def split: option.splits)

text \<open>The points at which a working thread does more than move on.\<close>

lemma entering_works:
  assumes "working os" and "session_ready app host cluster w"
    and "carries (good_in app host cluster w) (reads_in app host cluster w) os (Entering c) u"
  shows "\<exists>q v. advance os (Entering c) w = Ret q v \<and> load q < load (Entering c) \<and>
           works (good_in app host cluster w) (reads_in app host cluster w) os u w q v"
proof -
  from assms have good: "good_in app host cluster w c" and u: "u = [c]"
    and called: "daapInit_called w" and env: "\<And>h. os_fopen_null os h" "\<not> os_debug os"
    by (simp_all add: session_ready_def working_def)
  show ?thesis
  proof (cases c)
    case (Log m as)
    with good obtain out where out: "format m as = Some out" "length out \<le> DAAP_MAX_MSG_LEN"
      using loggable_formats(1) by blast
    with format_message_short [OF env(1) out env(2)] good u called Log show ?thesis
      by (simp add: works_def delivered_by_def accepted_def)
  next
    case (LogRaw m as)
    with good obtain out where out: "format m as = Some out" "length out \<le> DAAP_MAX_MSG_LEN"
      using loggable_formats(2) by blast
    with format_message_short [OF env(1) out env(2)] good u called LogRaw show ?thesis
      by (simp add: works_def delivered_by_def accepted_def)
  qed
qed

lemma building_works:
  assumes "working os" and "tag_safe app" "tag_safe host" "tag_safe cluster"
    and "session_ready app host cluster w"
    and "carries (good_in app host cluster w) (reads_in app host cluster w) os (Building ts out) u"
  shows "\<exists>line v. advance os (Building ts out) w = Ret (Dispatching line) v \<and>
           works (good_in app host cluster w) (reads_in app host cluster w) os u w (Dispatching line) v"
proof -
  from assms(6) obtain m as h where m: "u = [Log m as]" "good_in app host cluster w (Log m as)"
    "format m as = Some out" and ts: "ts = millisec (os_gettimeofday os h)" by auto
  let ?line = "snprintf_str max_size
      (influx_line app host cluster (mpi_rank (init_data w)) out (clock_ns os h))"
  have "daapBuildInflux os (sint ts) out w =
      Ret (SPtr ?line) (w\<lparr>trace := trace w @ [EvAlloc max_size True]\<rparr>)"
    using assms(1,5) clock_ns_range [of os h]
    by (subst daapBuildInflux_run) (simp_all add: session_ready_def ts clock_ns_def working_def)
  moreover have "reads_as app host cluster (mpi_rank (init_data w)) out ?line"
    using assms(1-4) m(2,3) by (intro short_line_reads) (simp_all add: working_def)
  moreover have "sendable ?line"
    by (simp add: sendable_def snprintf_str_def max_size_def influx_line_def influx_head_def c_consts)
  moreover have "\<not> os_debug os" using assms(1) by (simp add: working_def)
  ultimately show ?thesis
    using m(1,3) by (simp add: works_def delivered_by_def accepted_def)
qed

lemma building_raw_works:
  assumes "working os"
    and "carries (good_in app host cluster w) (reads_in app host cluster w) os (BuildingRaw out) u"
  shows "\<exists>line v. advance os (BuildingRaw out) w = Ret (Dispatching line) v \<and>
           works (good_in app host cluster w) (reads_in app host cluster w) os u w (Dispatching line) v"
proof -
  from assms(2) obtain m as where m: "u = [LogRaw m as]" "format m as = Some out" by auto
  have "sendable (snprintf_str max_size (''daap,'' @ out))"
    by (simp add: sendable_def snprintf_str_def max_size_def c_consts)
  then show ?thesis
    using m assms(1)
    by (simp add: daapBuildRawInflux_run working_def works_def delivered_by_def accepted_def)
qed

lemma connecting_works:
  assumes "working os"
    and "carries (good_in app host cluster w) (reads_in app host cluster w) os (Connecting line) u"
  shows "\<exists>v. advance os (Connecting line) w = Ret (Sending line 0 0) v \<and>
           works (good_in app host cluster w) (reads_in app host cluster w) os u w (Sending line 0 0) v"
proof -
  obtain v where "daapTCPConnect os w = Ret 0 v"
    and "wire (trace v) = wire (trace w)" "delivered (trace v) = delivered (trace w)"
    using connect_up [of os w] assms(1) by (auto simp: wp_iff working_def)
  moreover from this have "init_data v = init_data w" "daapInit_called v = daapInit_called w"
    using preservesD [of init_data "daapTCPConnect os"] preservesD [of daapInit_called "daapTCPConnect os"]
      daapTCPConnect_frame [of init_data os] daapTCPConnect_frame [of daapInit_called os]
    by simp_all
  ultimately show ?thesis
    using assms(2) by (auto simp: works_def delivered_by_def accepted_def sendable_def)
qed

lemma sending_works:
  assumes "working os"
    and "carries (good_in app host cluster w) (reads_in app host cluster w) os (Sending line c t) u"
  shows "\<exists>q v. advance os (Sending line c t) w = Ret q v \<and> load q < load (Sending line c t) \<and>
           works (good_in app host cluster w) (reads_in app host cluster w) os u w q v"
proof (cases "t = int (length line)")
  case True
  with assms(2) show ?thesis
    by (auto simp: ssl_write_pass_def works_def sendable_def bindC_def ret_def)
next
  case False
  with assms(2) obtain m where at: "c = 0" "t = 0" "u = [m]" "sendable line"
    and reads: "reads_in app host cluster w m line" by auto
  moreover have "os_ssl_write os line (trace w) = int (length line)"
    using assms(1) at by (simp add: working_def writes_whole_def sendable_def)
  ultimately show ?thesis
    by (simp add: ssl_write_pass_def Let_def sendable_def works_def)
qed

lemma advance_works:
  assumes "working os" and "tag_safe app" "tag_safe host" "tag_safe cluster"
    and "session_ready app host cluster w" and "transport_type (init_data w) = TCP"
    and "carries (good_in app host cluster w) (reads_in app host cluster w) os p u"
    and "0 < load p" and "\<forall>line. p = Locking line \<longrightarrow> Write_mutex \<notin> held w"
  shows "\<exists>q w'. advance os p w = Ret q w' \<and> load q < load p \<and>
           works (good_in app host cluster w) (reads_in app host cluster w) os u w q w'"
proof (cases p)
  case (Entering c)
  with entering_works [OF assms(1,5)] assms(7) show ?thesis by blast
next
  case (Stamping m)
  with assms(7) show ?thesis
    by (auto simp: getmillisectime_run works_def delivered_by_def accepted_def)
next
  case (Building ts m)
  with building_works [OF assms(1-5)] assms(7) show ?thesis by fastforce
next
  case (BuildingRaw m)
  with building_raw_works [OF assms(1)] assms(7) show ?thesis by fastforce
next
  case (Unlocking line c)
  moreover have "\<not> os_debug os" using assms(1) by (simp add: working_def)
  ultimately show ?thesis using assms(7) by (simp add: works_def)
next
  case (Dispatching line)
  with assms(6,7) show ?thesis by (simp add: works_def)
next
  case (Locking line)
  with assms(7,9) show ?thesis by (simp add: works_def)
next
  case (Connecting line)
  with connecting_works [OF assms(1)] assms(7) show ?thesis by fastforce
next
  case (Sending line c t)
  with sending_works [OF assms(1)] assms(7) show ?thesis by blast
next
  case (Returned r)
  with assms(8) show ?thesis by simp
qed (use assms(7) in \<open>simp_all add: works_def delivered_by_def accepted_def\<close>)

text \<open>
  The state of the whole: \<open>tagged\<close> lists the delivered lines, each with the thread that sent
  it; thread \<open>i\<close> has had the lines of its first calls delivered, in their order, carries at most one
  and has the others before it.
\<close>

definition lines_of :: "nat \<Rightarrow> (nat \<times> string) list \<Rightarrow> string list" where
  "lines_of i tagged = map snd (filter (\<lambda>x. fst x = i) tagged)"

lemma lines_of_simps [simp]:
  "lines_of i [] = []"
  "lines_of i (tagged @ [(j, line)]) = lines_of i tagged @ (if j = i then [line] else [])"
  by (simp_all add: lines_of_def)

definition served ::
  "(request \<Rightarrow> bool) \<Rightarrow> (request \<Rightarrow> string \<Rightarrow> bool) \<Rightarrow> os \<Rightarrow> request list \<Rightarrow> string list \<Rightarrow>
     thread \<Rightarrow> bool" where
  "served G R os cs lines th \<longleftrightarrow>
     (\<exists>sent u left. cs = sent @ u @ left \<and> todo th = left \<and> (\<forall>c \<in> set left. G c) \<and>
        carries G R os (pc th) u \<and> list_all2 R sent lines)"

definition serving ::
  "(request \<Rightarrow> bool) \<Rightarrow> (request \<Rightarrow> string \<Rightarrow> bool) \<Rightarrow> os \<Rightarrow> world \<Rightarrow> request list list \<Rightarrow>
     (nat \<times> string) list \<Rightarrow> sys \<Rightarrow> bool" where
  "serving G R os w jobs tagged s \<longleftrightarrow>
     init_data (shared s) = init_data w \<and> daapInit_called (shared s) = daapInit_called w \<and>
     delivered (trace (shared s)) = delivered (trace w) @ map snd tagged \<and>
     wire (trace (shared s)) = wire (trace w) @ concat (map snd tagged) \<and>
     fst ` set tagged \<subseteq> {..<length jobs} \<and>
     length (threads s) = length jobs \<and>
     (\<forall>i < length jobs. served G R os (jobs ! i) (lines_of i tagged) (threads s ! i))"

lemma served_call:
  assumes "served G R os cs lines th" and "pc th = Returned r" and "todo th = c # later"
  shows "served G R os cs lines \<lparr>pc = Entering c, todo = later\<rparr>"
proof -
  from assms obtain sent where "cs = sent @ c # later" "\<forall>c \<in> set (c # later). G c"
    "list_all2 R sent lines"
    by (auto simp: served_def)
  then show ?thesis
    unfolding served_def by (intro exI [of _ sent] exI [of _ "[c]"] exI [of _ later]) simp
qed

lemma served_works:
  assumes "served G R os ms lines th" and "\<And>u. carries G R os (pc th) u \<Longrightarrow> works G R os u w q w'"
  shows "delivered (trace w') = delivered (trace w) \<and> wire (trace w') = wire (trace w) \<and>
           served G R os ms lines (th\<lparr>pc := q\<rparr>)
       \<or> (\<exists>line. delivered (trace w') = delivered (trace w) @ [line] \<and>
            wire (trace w') = wire (trace w) @ line \<and>
            served G R os ms (lines @ [line]) (th\<lparr>pc := q\<rparr>))"
proof -
  from assms(1) obtain sent u left where parts: "ms = sent @ u @ left" "todo th = left"
      "\<forall>m \<in> set left. G m" "list_all2 R sent lines" and "carries G R os (pc th) u"
    by (auto simp: served_def)
  then have "works G R os u w q w'" by (intro assms(2))
  then consider (quiet) "delivered (trace w') = delivered (trace w)" "wire (trace w') = wire (trace w)"
      "carries G R os q u"
    | (sends) m line where "u = [m]" "R m line" "carries G R os q []"
        "delivered (trace w') = delivered (trace w) @ [line]" "wire (trace w') = wire (trace w) @ line"
    by (auto simp: works_def)
  then show ?thesis
  proof cases
    case quiet
    with parts have "served G R os ms lines (th\<lparr>pc := q\<rparr>)"
      unfolding served_def by (intro exI [of _ sent] exI [of _ u] exI [of _ left]) simp
    with quiet show ?thesis by simp
  next
    case sends
    with parts have "served G R os ms (lines @ [line]) (th\<lparr>pc := q\<rparr>)"
      unfolding served_def
      by (intro exI [of _ "sent @ [m]"] exI [of _ "[]"] exI [of _ left])
        (simp add: list_all2_appendI)
    with sends show ?thesis by blast
  qed
qed

definition tcp_session :: "os \<Rightarrow> string \<Rightarrow> string \<Rightarrow> string \<Rightarrow> world \<Rightarrow> bool" where
  "tcp_session os app host cluster w \<longleftrightarrow>
     working os \<and> tag_safe app \<and> tag_safe host \<and> tag_safe cluster \<and>
     session_ready app host cluster w \<and> transport_type (init_data w) = TCP"

lemma session_thread_step:
  assumes "tcp_session os app host cluster w" and "init_data v = init_data w"
    and "daapInit_called v = daapInit_called w" and "0 < load p"
    and "carries (good_in app host cluster w) (reads_in app host cluster w) os p u"
    and "\<forall>line. p = Locking line \<longrightarrow> Write_mutex \<notin> held v"
  shows "\<exists>q v'. advance os p v = Ret q v' \<and> load q < load p \<and>
           works (good_in app host cluster w) (reads_in app host cluster w) os u v q v'"
  using advance_works [of os app host cluster v p u] assms
  by (simp add: tcp_session_def session_ready_def)

lemma locking_step: "advance os p v = Ret q v' \<Longrightarrow> p = Locking line \<Longrightarrow> Write_mutex \<notin> held v"
  by (cases "Write_mutex \<in> held v") simp_all

lemma serving_step:
  assumes "serving (good_in app host cluster w) (reads_in app host cluster w) os w jobs tagged s"
    and "tcp_session os app host cluster w" and "sys_step os s s'"
  shows "\<exists>tagged'. serving (good_in app host cluster w) (reads_in app host cluster w) os w jobs tagged' s'"
  using assms(3)
proof cases
  case (Call i r c cs)
  let ?th = "\<lparr>pc = Entering c, todo = cs\<rparr>"
  have "served (good_in app host cluster w) (reads_in app host cluster w) os (jobs ! i)
      (lines_of i tagged) ?th"
    using assms(1) Call(2-) by (intro served_call) (auto simp: serving_def)
  with assms(1) Call show ?thesis
    by (intro exI [of _ tagged]) (simp add: serving_def nth_list_update)
next
  case (Step i q v)
  let ?th = "threads s ! i"
  have i: "i < length jobs" and len: "length (threads s) = length jobs"
    using assms(1) Step(2) by (simp_all add: serving_def)
  have works: "works (good_in app host cluster w) (reads_in app host cluster w) os u (shared s) q v"
    if "carries (good_in app host cluster w) (reads_in app host cluster w) os (pc ?th) u" for u
    using session_thread_step [OF assms(2) _ _ Step(3) that, of "shared s"] assms(1) Step(4)
      locking_step [OF Step(4)]
    by (auto simp: serving_def)
  have th: "served (good_in app host cluster w) (reads_in app host cluster w) os (jobs ! i)
      (lines_of i tagged) ?th"
    using assms(1) i by (simp add: serving_def)
  then have keep: "init_data v = init_data w" "daapInit_called v = daapInit_called w"
    using works assms(1) by (auto simp: works_def served_def serving_def)
  have "delivered (trace v) = delivered (trace (shared s)) \<and>
           wire (trace v) = wire (trace (shared s)) \<and>
           served (good_in app host cluster w) (reads_in app host cluster w) os (jobs ! i)
             (lines_of i tagged) (?th\<lparr>pc := q\<rparr>)
       \<or> (\<exists>line. delivered (trace v) = delivered (trace (shared s)) @ [line] \<and>
            wire (trace v) = wire (trace (shared s)) @ line \<and>
            served (good_in app host cluster w) (reads_in app host cluster w) os (jobs ! i)
              (lines_of i tagged @ [line]) (?th\<lparr>pc := q\<rparr>))"
    using works by (rule served_works [OF th])
  then show ?thesis
  proof (elim disjE conjE exE)
    assume "delivered (trace v) = delivered (trace (shared s))"
      "wire (trace v) = wire (trace (shared s))"
      "served (good_in app host cluster w) (reads_in app host cluster w) os (jobs ! i)
        (lines_of i tagged) (?th\<lparr>pc := q\<rparr>)"
    with assms(1) Step keep i show ?thesis
      by (intro exI [of _ tagged]) (simp add: serving_def nth_list_update)
  next
    fix line
    assume "delivered (trace v) = delivered (trace (shared s)) @ [line]"
      "wire (trace v) = wire (trace (shared s)) @ line"
      "served (good_in app host cluster w) (reads_in app host cluster w) os (jobs ! i)
        (lines_of i tagged @ [line]) (?th\<lparr>pc := q\<rparr>)"
    with assms(1) Step keep i show ?thesis
      by (intro exI [of _ "tagged @ [(i, line)]"]) (simp add: serving_def nth_list_update)
  qed
qed

lemma serving_start:
  assumes "\<forall>ms \<in> set jobs. \<forall>m \<in> set ms. G m"
  shows "serving G R os w jobs [] (start w jobs)"
proof -
  have "served G R os ms [] \<lparr>pc = Returned 0, todo = ms\<rparr>" if "ms \<in> set jobs" for ms
    using assms that unfolding served_def
    by (intro exI [of _ "[]"] exI [of _ ms]) simp
  then show ?thesis by (simp add: serving_def)
qed

lemma reaches_serving:
  assumes "tcp_session os app host cluster w"
    and "\<forall>ms \<in> set jobs. \<forall>m \<in> set ms. good_in app host cluster w m"
    and "reaches os (start w jobs) s"
  shows "\<exists>tagged. serving (good_in app host cluster w) (reads_in app host cluster w) os w jobs tagged s"
  using assms(3)
proof (induction rule: rtranclp_induct)
  case base
  show ?case using serving_start [OF assms(2)] by blast
next
  case (step s s')
  then show ?case using serving_step [OF _ assms(1)] by blast
qed

definition finished :: "sys \<Rightarrow> bool" where
  "finished s \<longleftrightarrow> (\<forall>th \<in> set (threads s). load (pc th) = 0 \<and> todo th = [])"

lemma two_jobs_loggable:
  "\<forall>cs \<in> set two_jobs. \<forall>c \<in> set cs.
     loggable ''vpic'' ''nid00042'' ''trinity'' (mpi_rank (init_data (world_ready TCP))) c"
  by (simp add: two_jobs_def format_plain format.simps directive_def strip_prefix_def c_consts)

lemma two_jobs_session: "tcp_session os_good ''vpic'' ''nid00042'' ''trinity'' (world_ready TCP)"
  by (simp add: tcp_session_def working_def)

text \<open>
  C3: Threads that log at the same time do not disturb each other, when the TLS connection works
  (handshakes succeed, writes are whole), in an initialised process of a release build with memory,
  null device, a 64-bit clock and tag-safe names, and when every call is loggable: its format matches its arguments, and the
  formatted text has no quote or backslash and fits the 2048-byte line (for the raw writer: is
  no longer than \<open>DAAP_MAX_MSG_LEN\<close>). Then, whatever the interleaving, what has arrived is a sequence of
  whole lines, and the lines of each thread are those of its first calls of the two writers, in
  its order, readable for the collector (or, from the raw writer, the raw line of the message); when
  all threads have finished, the line of every call of every thread has arrived.
\<close>
theorem threads_deliver:
  assumes "tcp_session os app host cluster w"
    and "\<forall>ms \<in> set jobs. \<forall>m \<in> set ms. loggable app host cluster (mpi_rank (init_data w)) m"
    and "reaches os (start w jobs) s"
  shows "\<exists>tagged. delivered (trace (shared s)) = delivered (trace w) @ map snd tagged \<and>
           wire (trace (shared s)) = wire (trace w) @ concat (map snd tagged) \<and>
           fst ` set tagged \<subseteq> {..<length jobs} \<and>
           (\<forall>i < length jobs. \<exists>sent left. jobs ! i = sent @ left \<and> (finished s \<longrightarrow> left = []) \<and>
              list_all2 (arrives_as app host cluster (mpi_rank (init_data w))) sent (lines_of i tagged))"
proof -
  obtain tagged where inv:
    "serving (good_in app host cluster w) (reads_in app host cluster w) os w jobs tagged s"
    using reaches_serving [OF assms] by blast
  have "\<exists>sent left. jobs ! i = sent @ left \<and> (finished s \<longrightarrow> left = []) \<and>
      list_all2 (reads_in app host cluster w) sent (lines_of i tagged)" if i: "i < length jobs" for i
  proof -
    from inv i obtain sent u left where parts: "jobs ! i = sent @ u @ left"
      "todo (threads s ! i) = left"
      "carries (good_in app host cluster w) (reads_in app host cluster w) os (pc (threads s ! i)) u"
      "list_all2 (reads_in app host cluster w) sent (lines_of i tagged)"
      by (auto simp: serving_def served_def)
    have "u @ left = []" if "finished s"
    proof -
      from that inv i have "load (pc (threads s ! i)) = 0" and "todo (threads s ! i) = []"
        by (auto simp: finished_def serving_def)
      with parts show ?thesis by (cases "pc (threads s ! i)") (auto simp: split: if_splits)
    qed
    with parts show ?thesis by blast
  qed
  with inv show ?thesis by (intro exI [of _ tagged]) (simp add: serving_def)
qed

theorem threads_deliver_witness:
  "\<exists>s tagged. reaches os_good (start (world_ready TCP) two_jobs) s \<and>
     pc (threads s ! 1) = Entering (two_jobs ! 1 ! 0) \<and>
     delivered (trace (shared s)) = map snd tagged \<and>
     (\<forall>i < 2. \<exists>sent left. two_jobs ! i = sent @ left \<and> (finished s \<longrightarrow> left = []) \<and>
        list_all2 (arrives_as ''vpic'' ''nid00042'' ''trinity'' 7) sent (lines_of i tagged))"
proof -
  have two: "length two_jobs = 2" by (simp add: two_jobs_def)
  obtain s where run: "reaches os_good (start (world_ready TCP) two_jobs) s"
    and at: "pc (threads s ! 1) = Entering (two_jobs ! 1 ! 0)"
    by (rule two_jobs_started)
  have "delivered (trace (world_ready TCP)) = []" "mpi_rank (init_data (world_ready TCP)) = 7"
    by (simp_all add: world_ready_def world0_def)
  with threads_deliver [OF two_jobs_session two_jobs_loggable run]
  obtain tagged where "delivered (trace (shared s)) = map snd tagged"
    and "\<forall>i < 2. \<exists>sent left. two_jobs ! i = sent @ left \<and> (finished s \<longrightarrow> left = []) \<and>
        list_all2 (arrives_as ''vpic'' ''nid00042'' ''trinity'' 7) sent (lines_of i tagged)"
    by (simp only: two append_Nil) (elim exE conjE, simp only: simp_thms)
  with run at show ?thesis by blast
qed

section \<open>Progress and termination\<close>

lemma sum_list_update:
  fixes f :: "'a \<Rightarrow> nat"
  shows "i < length xs \<Longrightarrow>
     sum_list (map f (xs[i := x])) + f (xs ! i) = sum_list (map f xs) + f x"
proof (induction xs arbitrary: i)
  case (Cons y ys)
  then show ?case by (cases i) (auto simp: add.assoc add.commute add.left_commute)
qed simp

text \<open>The steps that are left: a call takes at most twelve, counting its start.\<close>

definition remaining :: "sys \<Rightarrow> nat" where
  "remaining s = sum_list (map (\<lambda>th. load (pc th) + 12 * length (todo th)) (threads s))"

lemma remaining_update:
  assumes "i < length (threads s)"
    and "load (pc th) + 12 * length (todo th) <
      load (pc (threads s ! i)) + 12 * length (todo (threads s ! i))"
  shows "remaining (s\<lparr>threads := (threads s)[i := th]\<rparr>) < remaining s"
    and "remaining (s\<lparr>shared := v, threads := (threads s)[i := th]\<rparr>) < remaining s"
  using sum_list_update [OF assms(1), of "\<lambda>th. load (pc th) + 12 * length (todo th)" th] assms(2)
  by (simp_all add: remaining_def)

lemma thread_returns:
  assumes "serving (good_in app host cluster w) (reads_in app host cluster w) os w jobs tagged s"
    and "tcp_session os app host cluster w" and "i < length (threads s)"
    and "0 < load (pc (threads s ! i))"
    and "\<forall>line. pc (threads s ! i) = Locking line \<longrightarrow> Write_mutex \<notin> held (shared s)"
  shows "\<exists>q v. advance os (pc (threads s ! i)) (shared s) = Ret q v \<and> load q < load (pc (threads s ! i))"
proof -
  from assms(1,3) obtain u
    where "carries (good_in app host cluster w) (reads_in app host cluster w) os (pc (threads s ! i)) u"
    by (auto simp: serving_def served_def)
  then show ?thesis
    using session_thread_step [OF assms(2) _ _ assms(4) _ assms(5)] assms(1)
    by (fastforce simp: serving_def)
qed

lemma step_remaining:
  assumes "serving (good_in app host cluster w) (reads_in app host cluster w) os w jobs tagged s"
    and "tcp_session os app host cluster w" and "sys_step os s s'"
  shows "remaining s' < remaining s"
  using assms(3)
proof cases
  case (Call i r c cs)
  then show ?thesis by (simp add: remaining_update)
next
  case (Step i q v)
  have "\<forall>line. pc (threads s ! i) = Locking line \<longrightarrow> Write_mutex \<notin> held (shared s)"
    using locking_step [OF Step(4)] by blast
  then have "load q < load (pc (threads s ! i))"
    using thread_returns [OF assms(1,2) Step(2,3)] Step(4) by auto
  with Step show ?thesis by (simp add: remaining_update)
qed

text \<open>
  C17: Every run of threads that log over a working TLS connection is finite, when every call is
  loggable (its format matches, its text fits a line): it has at most twelve steps per call.
\<close>
theorem threads_terminate:
  assumes "tcp_session os app host cluster w"
    and "\<forall>ms \<in> set jobs. \<forall>m \<in> set ms. loggable app host cluster (mpi_rank (init_data w)) m"
    and "(sys_step os ^^ n) (start w jobs) s"
  shows "n \<le> 12 * sum_list (map length jobs)"
proof -
  have inv: "\<exists>tagged. serving (good_in app host cluster w) (reads_in app host cluster w) os w jobs tagged t"
    if "(sys_step os ^^ k) (start w jobs) t" for k t
    using reaches_serving [OF assms(1,2)] that by (meson relpowp_imp_rtranclp)
  have "n + remaining s \<le> remaining (start w jobs)"
    using assms(3)
  proof (induction n arbitrary: s)
    case (Suc n)
    then obtain t where t: "(sys_step os ^^ n) (start w jobs) t" "sys_step os t s" by auto
    obtain tagged
      where "serving (good_in app host cluster w) (reads_in app host cluster w) os w jobs tagged t"
      using inv [OF t(1)] by blast
    then have "remaining s < remaining t" by (rule step_remaining [OF _ assms(1) t(2)])
    with Suc.IH [OF t(1)] show ?case by simp
  qed simp
  also have "remaining (start w jobs) = 12 * sum_list (map length jobs)"
    by (simp add: remaining_def comp_def sum_list_const_mult)
  finally show ?thesis by simp
qed

theorem threads_terminate_witness:
  "\<not> (\<exists>s. (sys_step os_good ^^ 25) (start (world_ready TCP) two_jobs) s)"
proof
  assume "\<exists>s. (sys_step os_good ^^ 25) (start (world_ready TCP) two_jobs) s"
  then have "25 \<le> 12 * sum_list (map length two_jobs)"
    using threads_terminate [OF two_jobs_session two_jobs_loggable] by blast
  then show False by (simp add: two_jobs_def)
qed

text \<open>Thread \<open>i\<close> can take its next step, or it waits for \<open>write_mutex\<close>.\<close>

definition thread_free :: "os \<Rightarrow> sys \<Rightarrow> nat \<Rightarrow> bool" where
  "thread_free os s i \<longleftrightarrow>
     (\<exists>q v. advance os (pc (threads s ! i)) (shared s) = Ret q v) \<or>
     (\<exists>line. pc (threads s ! i) = Locking line \<and> Write_mutex \<in> held (shared s))"

lemma returned_or_busy: "load q = 0 \<Longrightarrow> \<exists>r. q = Returned r"
  by (cases q) (auto split: if_splits)

lemma served_thread_free:
  assumes "serving (good_in app host cluster w) (reads_in app host cluster w) os w jobs tagged s"
    and "tcp_session os app host cluster w" and "i < length (threads s)"
  shows "thread_free os s i"
proof (cases "load (pc (threads s ! i)) = 0")
  case True
  then show ?thesis by (auto simp: thread_free_def dest: returned_or_busy)
next
  case False
  with thread_returns [OF assms] show ?thesis by (auto simp: thread_free_def)
qed

text \<open>
  When the mutex is taken, its owner can move; when it is not, every thread that is not at the
  end of its jobs can.
\<close>

lemma free_threads_step:
  assumes "exclusive writing Write_mutex (points s) (shared s)"
    and safe: "\<And>i. i < length (threads s) \<Longrightarrow> thread_free os s i" and "\<not> finished s"
  shows "\<exists>s'. sys_step os s s'"
proof (cases "Write_mutex \<in> held (shared s)")
  case True
  then obtain i where i: "i < length (threads s)" "writing (pc (threads s ! i))"
    using writer.exclusive_owner [OF assms(1)] by (auto simp: points_def)
  then have "0 < load (pc (threads s ! i))" by (cases "pc (threads s ! i)") auto
  with safe [OF i(1)] i show ?thesis by (auto simp: thread_free_def intro: Step)
next
  case False
  obtain i where i: "i < length (threads s)"
    and busy: "load (pc (threads s ! i)) \<noteq> 0 \<or> todo (threads s ! i) \<noteq> []"
    using assms(3) by (auto simp: finished_def in_set_conv_nth)
  show ?thesis
  proof (cases "load (pc (threads s ! i)) = 0")
    case True
    then obtain r where "pc (threads s ! i) = Returned r" by (blast dest: returned_or_busy)
    moreover obtain c cs where "todo (threads s ! i) = c # cs"
      using busy True by (cases "todo (threads s ! i)") auto
    ultimately show ?thesis using i by (cases c) (auto intro: Call)
  next
    case nonzero: False
    with safe [OF i] False i show ?thesis by (auto simp: thread_free_def intro: Step)
  qed
qed

text \<open>
  C4: Under the conditions of \<open>threads_deliver\<close> (a TLS connection that works with whole writes, an
  initialised process of a release build, loggable calls only), and with \<open>write_mutex\<close> free at the
  start, no interleaving gets stuck: as long as a thread has something left to do, some thread can
  take a step; and the only step that does not return is the one that waits for \<open>write_mutex\<close>
  while another thread has it, so there is no fault, no exit and no endless loop. Without these
  conditions there are: \<open>write_error_ends_process\<close>, \<open>tcp_zero_writes_diverge\<close> and
  \<open>message_is_a_format\<close> show them.
\<close>
theorem threads_progress:
  assumes "tcp_session os app host cluster w" and "Write_mutex \<notin> held w"
    and "\<forall>ms \<in> set jobs. \<forall>m \<in> set ms. loggable app host cluster (mpi_rank (init_data w)) m"
    and "reaches os (start w jobs) s"
  shows "(finished s \<or> (\<exists>s'. sys_step os s s')) \<and>
     (\<forall>i < length (threads s).
        (\<exists>q v. advance os (pc (threads s ! i)) (shared s) = Ret q v) \<or>
        (\<exists>line. pc (threads s ! i) = Locking line \<and> Write_mutex \<in> held (shared s)))"
proof -
  obtain tagged where inv:
    "serving (good_in app host cluster w) (reads_in app host cluster w) os w jobs tagged s"
    using reaches_serving [OF assms(1,3,4)] by blast
  have safe: "thread_free os s i" if "i < length (threads s)" for i
    by (rule served_thread_free [OF inv assms(1) that])
  moreover have "finished s \<or> (\<exists>s'. sys_step os s s')"
    using free_threads_step [OF reaches_exclusive [OF assms(4,2)] safe] by blast
  ultimately show ?thesis by (simp add: thread_free_def)
qed

theorem threads_progress_witness:
  "\<exists>s'. sys_step os_good (start (world_ready TCP) two_jobs) s'"
  using threads_progress [OF two_jobs_session _ two_jobs_loggable rtranclp.rtrancl_refl]
  by (simp add: finished_def two_jobs_def)

section \<open>The race with daapFinalize\<close>

text \<open>Steps of one thread are a run of the whole in which only that thread moves.\<close>

lemma idle_update:
  "i < length (threads s) \<Longrightarrow>
     s\<lparr>shared := shared s, threads := (threads s)[i := (threads s ! i)\<lparr>pc := pc (threads s ! i)\<rparr>]\<rparr> = s"
  by (simp add: list_update_same_conv)

lemma steps_reaches:
  assumes "i < length (threads s)" and "steps os n (pc (threads s ! i)) (shared s) = Ret q v"
  shows "reaches os s (s\<lparr>shared := v, threads := (threads s)[i := (threads s ! i)\<lparr>pc := q\<rparr>]\<rparr>)"
  using assms
proof (induction n arbitrary: s)
  case 0
  then have "q = pc (threads s ! i)" "v = shared s" by simp_all
  then show ?case by (simp only: idle_update [OF 0(1)] rtranclp.rtrancl_refl)
next
  case (Suc n)
  let ?next = "\<lambda>q v. s\<lparr>shared := v, threads := (threads s)[i := (threads s ! i)\<lparr>pc := q\<rparr>]\<rparr>"
  from Suc.prems(2) obtain p u where first: "advance os (pc (threads s ! i)) (shared s) = Ret p u"
    and later: "steps os n p u = Ret q v"
    by (auto simp: bindC_def split: outcome.splits)
  have "reaches os s (?next p u)"
  proof (cases "load (pc (threads s ! i)) = 0")
    case True
    then have "p = pc (threads s ! i)" "u = shared s"
      using first by (cases "pc (threads s ! i)"; auto split: if_splits)+
    then show ?thesis by (simp only: idle_update [OF Suc.prems(1)] rtranclp.rtrancl_refl)
  next
    case False
    with Suc.prems(1) first have "sys_step os s (?next p u)" by (intro Step) simp_all
    then show ?thesis by (rule r_into_rtranclp)
  qed
  also have "reaches os (?next p u) (?next q v)"
    using Suc.IH [of "?next p u"] Suc.prems(1) later by simp
  finally show ?case .
qed

text \<open>A call of a working session, up to the clock and up to the lock.\<close>

lemma two_steps:
  assumes "working os" and "session_ready app host cluster w" and "plain m"
    and "length m \<le> DAAP_MAX_MSG_LEN"
  shows "\<exists>v t. steps os 2 (Entering (Log m [])) w = Ret (Building t m) v \<and>
           init_data v = init_data w \<and> daapInit_called v = daapInit_called w \<and>
           daapRank_zero v = daapRank_zero w \<and> held v = held w \<and>
           (\<exists>h. t = millisec (os_gettimeofday os h))"
proof -
  have "format_message os m [] w = Ret m (w\<lparr>trace := trace w @ [EvFopenNull True, EvFclose]\<rparr>)"
    using assms by (intro format_message_short) (simp_all add: working_def format_plain)
  then show ?thesis
    using assms(2) by (auto simp: numeral_2_eq_2 session_ready_def getmillisectime_run)
qed

lemma three_steps:
  assumes "working os" and "session_ready app host cluster w"
    and "transport_type (init_data w) = TCP" and "Write_mutex \<notin> held w"
    and "t = millisec (os_gettimeofday os h)"
  shows "\<exists>v line. steps os 3 (Building t m) w = Ret (Connecting line) v \<and> sendable line \<and>
           init_data v = init_data w \<and> daapInit_called v = daapInit_called w \<and>
           daapRank_zero v = daapRank_zero w \<and> held v = insert Write_mutex (held w)"
proof -
  let ?line = "snprintf_str max_size
      (influx_line app host cluster (mpi_rank (init_data w)) m (clock_ns os h))"
  have "daapBuildInflux os (sint t) m w =
      Ret (SPtr ?line) (w\<lparr>trace := trace w @ [EvAlloc max_size True]\<rparr>)"
    using assms(1,2) clock_ns_range [of os h]
    by (subst daapBuildInflux_run)
      (simp_all add: session_ready_def assms(5) clock_ns_def working_def)
  moreover have "sendable ?line"
    by (simp add: sendable_def snprintf_str_def max_size_def influx_line_def influx_head_def c_consts)
  moreover have "\<not> os_debug os" using assms(1) by (simp add: working_def)
  ultimately show ?thesis
    using assms(3,4) by (simp add: numeral_3_eq_3)
qed

lemma connecting_step:
  assumes "tls_up os" and "\<And>c h. os_ssl_new os c h \<noteq> None"
  shows "\<exists>v p. advance os (Connecting line) w = Ret (Sending line 0 0) v \<and> cSSL v = Some p \<and>
           init_data v = init_data w \<and> daapInit_called v = daapInit_called w \<and>
           daapRank_zero v = daapRank_zero w \<and> held v = held w"
  using assms(2) by (auto simp: tls_upD [OF assms(1)] daapTCPConnect_def)

text \<open>The connections given up and not made again, and a history that ends in a write to one.\<close>

fun track_ssl :: "nat list \<Rightarrow> event \<Rightarrow> nat list" where
  "track_ssl gone (EvSslFree p) = p # gone"
| "track_ssl gone (EvSslNew c (Some p)) = removeAll p gone"
| "track_ssl gone e = gone"

definition freed_ssl :: "event list \<Rightarrow> nat list" where
  "freed_ssl es = foldl track_ssl [] es"

definition writes_freed :: "event list \<Rightarrow> bool" where
  "writes_freed es =
     (case rev es of
        EvSslWrite (Some p) d n # h \<Rightarrow> p \<in> set (freed_ssl (rev h))
      | _ \<Rightarrow> False)"

text \<open>
  One thread that logs a message, stopped at two points: when it is about to make the line, and
  when it is about to send it over the connection that it has opened.
\<close>

lemma two_stops:
  assumes "working os" and "session_ready app host cluster w"
    and "transport_type (init_data w) = TCP" and "held w = {}"
    and "\<And>c h. os_ssl_new os c h \<noteq> None" and "plain m" and "length m \<le> DAAP_MAX_MSG_LEN"
  obtains w1 h line w3 p where
    "reaches os (start w [[Log m []]])
       \<lparr>shared = w1, threads = [\<lparr>pc = Building (millisec (os_gettimeofday os h)) m, todo = []\<rparr>]\<rparr>"
    "session_ready app host cluster w1" "daapRank_zero w1 = daapRank_zero w" "held w1 = {}"
    "reaches os (start w [[Log m []]])
       \<lparr>shared = w3, threads = [\<lparr>pc = Sending line 0 0, todo = []\<rparr>]\<rparr>"
    "session_ready app host cluster w3" "daapRank_zero w3 = daapRank_zero w"
    "held w3 = {Write_mutex}" "cSSL w3 = Some p" "sendable line"
proof -
  let ?at = "\<lambda>q v. \<lparr>shared = v, threads = [\<lparr>pc = q, todo = []\<rparr>]\<rparr>"
  have go: "reaches os (?at p x) (?at q y)" if "steps os n p x = Ret q y" for p q x y n
    using steps_reaches [of 0 "?at p x" os n q y] that by simp
  have "sys_step os (start w [[Log m []]])
      (start w [[Log m []]]\<lparr>threads := (threads (start w [[Log m []]]))[0 := \<lparr>pc = Entering (Log m []), todo = []\<rparr>]\<rparr>)"
    by (rule Call) simp_all
  then have run0: "reaches os (start w [[Log m []]]) (?at (Entering (Log m [])) w)"
    by (simp add: start_def)
  obtain w1 t where s1: "steps os 2 (Entering (Log m [])) w = Ret (Building t m) w1"
    and w1: "init_data w1 = init_data w" "daapInit_called w1 = daapInit_called w"
      "daapRank_zero w1 = daapRank_zero w" "held w1 = held w"
    and t: "\<exists>h. t = millisec (os_gettimeofday os h)"
    using two_steps [OF assms(1,2,6,7)] by blast
  obtain h where h: "t = millisec (os_gettimeofday os h)" using t ..
  from assms(2) w1 have ready1: "session_ready app host cluster w1" by (simp add: session_ready_def)
  obtain w2 line where s2: "steps os 3 (Building t m) w1 = Ret (Connecting line) w2"
    and line: "sendable line" and w2: "init_data w2 = init_data w" "daapInit_called w2 = daapInit_called w"
      "daapRank_zero w2 = daapRank_zero w" "held w2 = {Write_mutex}"
    using three_steps [OF assms(1) ready1 _ _ h, of m] w1 assms(3,4) by auto
  obtain w3 p where s3: "advance os (Connecting line) w2 = Ret (Sending line 0 0) w3"
    and w3: "cSSL w3 = Some p" "init_data w3 = init_data w" "daapInit_called w3 = daapInit_called w"
      "daapRank_zero w3 = daapRank_zero w" "held w3 = {Write_mutex}"
    using connecting_step [of os line w2] assms(1,5) w2 by (auto simp: working_def)
  have "steps os (Suc 0) (Connecting line) w2 = Ret (Sending line 0 0) w3" using s3 by simp
  with run0 go s1 s2
  have run1: "reaches os (start w [[Log m []]]) (?at (Building t m) w1)"
    and run3: "reaches os (start w [[Log m []]]) (?at (Sending line 0 0) w3)"
    by (meson rtranclp_trans)+
  have ready3: "session_ready app host cluster w3" using assms(2) w3 by (simp add: session_ready_def)
  show ?thesis
    by (rule that) (use run1 run3 ready1 ready3 w1 w3 line h assms(4) in \<open>simp_all\<close>)
qed

text \<open>
  C21: \<open>write_mutex\<close> does not protect a writer from \<open>daapFinalize\<close>, which takes a mutex of its
  own: in a process that does not report the job and has a TLS connection that works, if one
  thread logs a message without percent sign while another finalizes, there is an interleaving in which the
  next \<open>SSL_write\<close> uses the connection that was just freed, and one in which the line is
  built from the freed names.
\<close>
theorem finalize_races:
  assumes "working os" and "session_ready app host cluster w"
    and "transport_type (init_data w) = TCP" and "held w = {}"
    and "\<not> (daapRank_zero w \<and> decouple_off os)" and "\<And>c h. os_ssl_new os c h \<noteq> None"
    and "plain m" and "length m \<le> DAAP_MAX_MSG_LEN"
  shows "(\<exists>s r v q u. reaches os (start w [[Log m []]]) s \<and> daapFinalize os (shared s) = Ret r v \<and>
            advance os (pc (threads s ! 0)) v = Ret q u \<and> writes_freed (trace u)) \<and>
         (\<exists>s r v. reaches os (start w [[Log m []]]) s \<and> daapFinalize os (shared s) = Ret r v \<and>
            advance os (pc (threads s ! 0)) v = Faults UseAfterFree)"
proof -
  obtain w1 h line w3 p where
    run1: "reaches os (start w [[Log m []]])
       \<lparr>shared = w1, threads = [\<lparr>pc = Building (millisec (os_gettimeofday os h)) m, todo = []\<rparr>]\<rparr>"
    and w1: "session_ready app host cluster w1" "daapRank_zero w1 = daapRank_zero w" "held w1 = {}"
    and run3: "reaches os (start w [[Log m []]])
       \<lparr>shared = w3, threads = [\<lparr>pc = Sending line 0 0, todo = []\<rparr>]\<rparr>"
    and w3: "session_ready app host cluster w3" "daapRank_zero w3 = daapRank_zero w"
      "held w3 = {Write_mutex}" "cSSL w3 = Some p" and line: "sendable line"
    by (rule two_stops [OF assms(1-4,6-8)])
  have fin1: "daapFinalize os w1 = Ret (os_indet os (trace w1)) (finalized app host cluster w1)"
    by (rule daapFinalize_silent [OF w1(1)]) (use assms(5) w1 in simp_all)
  have fin3: "daapFinalize os w3 = Ret (os_indet os (trace w3)) (finalized app host cluster w3)"
    by (rule daapFinalize_silent [OF w3(1)]) (use assms(5) w3 in simp_all)
  have "os_ssl_write os line h = int (length line)" for h
    using assms(1) line by (simp add: working_def writes_whole_def sendable_def)
  then have "\<exists>q u. advance os (Sending line 0 0) (finalized app host cluster w3) = Ret q u \<and>
      writes_freed (trace u)"
    using line w3(4)
    by (simp add: ssl_write_pass_def Let_def sendable_def finalized_def writes_freed_def
        freed_ssl_def shutdown_events_def)
  moreover have "advance os (Building (millisec (os_gettimeofday os h)) m) (finalized app host cluster w1) =
      Faults UseAfterFree"
    using assms(1) clock_ns_range [of os h]
    by (simp add: daapBuildInflux_def finalized_def working_def clock_ns_def)
  ultimately show ?thesis
    using run1 run3 fin1 fin3 by fastforce
qed

theorem finalize_races_witness:
  "\<exists>s r v q u. reaches os_good (start (world_ready TCP) [[Log ''step 1'' []]]) s \<and>
     daapFinalize os_good (shared s) = Ret r v \<and>
     advance os_good (pc (threads s ! 0)) v = Ret q u \<and> writes_freed (trace u)"
proof -
  have "os_ssl_new os_good c h \<noteq> None" for c h by (simp add: os_good_def)
  moreover have "\<not> daapRank_zero (world_ready TCP)" by (simp add: world_ready_def world0_def)
  ultimately show ?thesis
    using finalize_races [of os_good "''vpic''" "''nid00042''" "''trinity''" "world_ready TCP" "''step 1''"]
    by (simp add: working_def DAAP_MAX_MSG_LEN_def)
qed

end
