(* ===== verification/Connections.thy ===== *)
theory Connections
  imports Session Threads
begin

text \<open>
  The protocol of the TLS connection as an automaton over the history: a socket is opened and
  connected, a TLS object is made and bound to that socket, the handshake succeeds, every
  \<open>SSL_write\<close> goes to that object, and the socket is closed; no TLS object is freed in
  between. \<open>conn_run\<close> runs the automaton over a history and fails at the first event out of
  order. The history of every session is a sequence of such connections.
\<close>

section \<open>The automaton\<close>

text \<open>
  As in \<open>daapTCPConnect\<close> (\<open>daap_tcp.c\<close>, lines 172 to 181), whatever \<open>SSL_new\<close> answers is taken for an
  object, and an answer of \<open>SSL_connect\<close> that is not negative for a handshake: a \<open>Ready\<close> connection
  is one that the code takes to be ready.
\<close>

datatype conn =
    Idle
  | Opened int
  | Connected int
  | Created int "nat option"
  | Bound int "nat option"
  | Ready int "nat option"

fun conn_step :: "conn \<Rightarrow> event \<Rightarrow> conn option" where
  "conn_step c (EvSocket fd) =
     (if c = Idle then Some (if fd < 0 then Idle else Opened fd) else None)"
| "conn_step c (EvConnect fd r) =
     (if c = Opened fd then Some (if r = 0 then Connected fd else Idle) else None)"
| "conn_step c (EvSslNew ctx s) =
     (case c of Connected fd \<Rightarrow> Some (Created fd s) | _ \<Rightarrow> None)"
| "conn_step c (EvSetFd s fd) = (if c = Created fd s then Some (Bound fd s) else None)"
| "conn_step c (EvSslConnect s r) =
     (case c of
        Bound fd s' \<Rightarrow> if s = s' then Some (if r < 0 then Idle else Ready fd s) else None
      | _ \<Rightarrow> None)"
| "conn_step c (EvSslWrite s d n) =
     (case c of Ready fd s' \<Rightarrow> if s = s' then Some c else None | _ \<Rightarrow> None)"
| "conn_step c (EvClose fd) =
     (case c of Ready fd' s \<Rightarrow> if fd = fd' then Some Idle else None | _ \<Rightarrow> None)"
| "conn_step c (EvSslFree p) = (if c = Idle then Some Idle else None)"
| "conn_step c e = Some c"

definition conn_run :: "conn \<Rightarrow> event list \<Rightarrow> conn option" where
  "conn_run c es = foldl (\<lambda>s e. Option.bind s (\<lambda>c. conn_step c e)) (Some c) es"

lemma foldl_stuck: "foldl (\<lambda>s e. Option.bind s (\<lambda>c. conn_step c e)) None es = None"
  by (induction es) simp_all

lemma conn_run_append [simp]:
  "conn_run c (es @ fs) = Option.bind (conn_run c es) (\<lambda>d. conn_run d fs)"
  by (cases "conn_run c es") (simp_all add: conn_run_def foldl_stuck)

lemma conn_run_simps [simp]:
  "conn_run c [] = Some c"
  "conn_run c (e # es) = Option.bind (conn_step c e) (\<lambda>d. conn_run d es)"
  by (cases "conn_step c e"; simp add: conn_run_def foldl_stuck)+

text \<open>Between calls no connection is in progress.\<close>

definition settled :: "world \<Rightarrow> bool" where
  "settled w \<longleftrightarrow> conn_run Idle (trace w) = Some Idle"

text \<open>
  Where the process may end: in the write loop, with status 2, on a ready connection and with
  \<open>write_mutex\<close> locked.
\<close>

definition mid_write :: "int \<Rightarrow> world \<Rightarrow> bool" where
  "mid_write n w \<longleftrightarrow>
     n = 2 \<and> Write_mutex \<in> held w \<and> (\<exists>fd. conn_run Idle (trace w) = Some (Ready fd (cSSL w)))"

section \<open>Every call settles\<close>

abbreviation settles :: "(world, 'a) cmd \<Rightarrow> bool" where
  "settles \<equiv> guards settled mid_write"

lemma settles_prims:
  "conn_step Idle e = Some Idle \<Longrightarrow> settles (emit e)"
  "(\<And>r. conn_step Idle (ev r) = Some Idle) \<Longrightarrow> settles (query q ev)"
  "settles (alloc os n)" "settles (lock m)" "settles (unlock m)" "settles (set_errno i)"
  "settles (deref p)" "settles (free_str p)" "settles (set_init_data f)"
  by (rule guardsI; auto simp: settled_def lock_def deref_def free_str_def
      split: if_splits strptr.splits)+

lemma settles_update: "(\<And>w. trace (g w) = trace w) \<Longrightarrow> settles (update g)"
  by (rule guardsI) (auto simp: settled_def)

lemmas settles_rules =
  guards_bind guards_seq guards_prims(1-3) guards_branches settles_prims settles_update

lemma settles_writer_parts:
  "settles (ERROR_OUTPUT os u s as)" "settles (DEBUG_OUTPUT os u s as)"
  "settles (format_message os m as)" "settles (getmillisectime os)"
  "settles (daapBuildInflux os ts m)" "settles (daapBuildRawInflux os m)"
  "settles daapShutdownSSL"
proof -
  show out: "settles (ERROR_OUTPUT os u s as)" "settles (DEBUG_OUTPUT os u s as)" for os u s as
    unfolding output_defs by (intro settles_rules; simp)+
  show "settles (format_message os m as)"
    unfolding format_message_def null_device_length_def
    by (intro out settles_rules) simp_all
qed (unfold getmillisectime_def daapBuildInflux_def daapBuildRawInflux_def daapShutdownSSL_def,
    (intro settles_rules; simp)+)

text \<open>The loop writes on the connection that is ready when it starts.\<close>

definition on_line :: "int \<Rightarrow> mutex set \<Rightarrow> world \<Rightarrow> bool" where
  "on_line fd h w \<longleftrightarrow>
     conn_run Idle (trace w) = Some (Ready fd (cSSL w)) \<and> sockfd w = fd \<and> held w = h"

lemma pass_on_line:
  assumes "on_line fd h w"
  shows "ssl_write_pass os buf n count tot w = Inr (c, t, w') \<Longrightarrow> on_line fd h w'"
    and "ssl_write_pass os buf n count tot w = Inl r \<Longrightarrow>
           wlx (\<lambda>_. r) (\<lambda>_. on_line fd h) (\<lambda>k v. k = 2 \<and> on_line fd h v) w"
  using assms by (auto simp: ssl_write_pass_def Let_def on_line_def wlx_def split: if_splits)

lemma loop_on_line:
  "guards (on_line fd h) (\<lambda>k v. k = 2 \<and> on_line fd h v) (run_loop (ssl_write_loop os buf n count tot))"
proof -
  let ?ok = "\<lambda>r. wlx (\<lambda>_. r) (\<lambda>_. on_line fd h) (\<lambda>k v. k = 2 \<and> on_line fd h v)"
  have "on_line fd h w \<longrightarrow> ?ok r w"
    if "ssl_write_loop os buf n count tot w = Some r" for w and r :: "(int, world) outcome"
    using that
    by (rule ssl_write_loop_rule [where P = "\<lambda>_ _ w r. on_line fd h w \<longrightarrow> ?ok r w"])
      (auto simp: wlx_def dest: pass_on_line)
  then show ?thesis
    by (auto simp: guards_iff run_loop_def wlx_def split: option.split)
qed

text \<open>A connection attempt ends settled when it fails, and with a ready connection otherwise.\<close>

lemma connect_ready:
  assumes "settled w" and "daapTCPConnect os w = Ret r w'"
  shows "if r < 0 then settled w' else on_line (sockfd w') (held w) w'"
  using assms
  by (auto simp: daapTCPConnect_def Let_def settled_def on_line_def bindC_def seqC_def
      daapShutdownSSL_run shutdown_events_def split: if_splits option.splits)

lemma connect_no_exit: "daapTCPConnect os w \<noteq> Exits n w'"
  by (simp add: daapTCPConnect_def bindC_def seqC_def daapShutdownSSL_run)

lemma connect_wlx:
  assumes "settled w"
  shows "wlx (daapTCPConnect os)
           (\<lambda>r w'. if r < 0 then settled w' else on_line (sockfd w') (held w) w') (\<lambda>_ _. False) w"
  using connect_ready [OF assms] connect_no_exit
  by (auto simp: wlx_def split: outcome.split)

lemma settles_tcp_write: "settles (daapTCPLogWrite os buf n)"
  unfolding guards_iff
proof (intro allI impI)
  fix w :: world
  assume "settled w"
  then have free: "settled (w\<lparr>held := insert Write_mutex (held w)\<rparr>)" by (simp add: settled_def)
  have sending: "wlx (seqC (emit EvErrClear)
      (bindC (run_loop (ssl_write_loop os buf n 0 0)) (\<lambda>count.
       bindC (asks sockfd) (\<lambda>fd.
       seqC (emit (EvClose fd))
      (seqC (unlock Write_mutex)
      (ret count)))))) (\<lambda>_. settled) mid_write v"
    if "on_line fd h v" and "Write_mutex \<in> h" for v fd h
  proof -
    have "on_line fd h (v\<lparr>trace := trace v @ [EvErrClear]\<rparr>)"
      using that(1) by (simp add: on_line_def)
    then have "wlx (run_loop (ssl_write_loop os buf n 0 0)) (\<lambda>_. on_line fd h)
        (\<lambda>k v. k = 2 \<and> on_line fd h v) (v\<lparr>trace := trace v @ [EvErrClear]\<rparr>)"
      using loop_on_line by (auto simp: guards_iff)
    then have "wlx (run_loop (ssl_write_loop os buf n 0 0))
        (\<lambda>c. wlx (bindC (asks sockfd) (\<lambda>fd.
           seqC (emit (EvClose fd)) (seqC (unlock Write_mutex) (ret c)))) (\<lambda>_. settled) mid_write)
        mid_write (v\<lparr>trace := trace v @ [EvErrClear]\<rparr>)"
      by (rule wlx_mono)
        (use that(2) in \<open>simp_all add: wlx_def on_line_def settled_def mid_write_def\<close>)
    then show ?thesis by (simp add: wlx_eqs world_prim_wlx)
  qed
  have stop: "wlx (seqC (unlock Write_mutex) (ret DAAP_ERROR)) (\<lambda>_. settled) mid_write v"
    if "settled v" for v
    using that by (simp add: wlx_eqs world_prim_wlx settled_def)
  have "wlx (daapTCPConnect os) (\<lambda>r.
       wlx (if r < 0 then
         seqC (unlock Write_mutex)
        (ret DAAP_ERROR)
       else
         seqC (emit EvErrClear)
        (bindC (run_loop (ssl_write_loop os buf n 0 0)) (\<lambda>count.
         bindC (asks sockfd) (\<lambda>fd.
         seqC (emit (EvClose fd))
        (seqC (unlock Write_mutex)
        (ret count)))))) (\<lambda>_. settled) mid_write) mid_write
        (w\<lparr>held := insert Write_mutex (held w)\<rparr>)"
    by (rule wlx_mono [OF connect_wlx [OF free]])
      (auto intro: stop sending split: if_splits)
  then show "wlx (daapTCPLogWrite os buf n) (\<lambda>_. settled) mid_write w"
    by (simp add: daapTCPLogWrite_def wlx_eqs world_prim_wlx)
qed

lemma settles_transmit: "settles (transmit os s)"
  unfolding transmit_def by (intro settles_writer_parts settles_rules settles_tcp_write) simp

lemma settles_writers:
  "settles (daapLogWrite os m as)" "settles (daapLogRawWrite os m as)"
  "settles (daapLogHeartbeat os)" "settles (daapLogJobStart os)"
  "settles (daapLogJobDuration os)" "settles (daapLogJobEnd os)"
  unfolding log_defs log_write_via_def log_raw_via_def
  by (intro settles_transmit settles_writer_parts settles_rules; simp)+

lemma settles_init_parts:
  "settles (init_hostname os)" "settles (init_cluster os)" "settles (init_transport os l tt)"
  "settles (find_rank os)" "settles free_init_data"
proof -
  have "settles (gethostname_tries os n len)" for n len
  proof (induction n arbitrary: len)
    case (Suc n)
    show ?case unfolding gethostname_tries.simps Let_def by (intro settles_rules Suc) simp_all
  qed (simp, intro settles_rules, simp)
  then have host: "settles (daap_gethostname os)"
    unfolding daap_gethostname_def by (intro settles_rules)
  show "settles (init_hostname os)"
    unfolding init_hostname_def strdup_def by (intro host settles_rules)
  have ssl: "settles (daapInitializeSSL os)"
    unfolding daapInitializeSSL_def snprintf_into_def
    by (intro settles_rules settles_writer_parts) simp_all
  show "settles (init_transport os l tt)"
    unfolding init_transport_def by (intro ssl settles_rules) simp_all
  show "settles (init_cluster os)" "settles (find_rank os)" "settles free_init_data"
    unfolding init_cluster_def calloc_strcpy_def find_rank_def take_rank_def free_init_data_def
    by (intro settles_writer_parts settles_rules; simp)+
qed

lemma settles_locked: "settles (init_locked os app l g tt)"
  unfolding init_locked_def init_rest_def calloc_strcpy_def
  by (intro settles_rules settles_init_parts) simp_all

lemma settles_init: "settles (daapInit os app l g tt)"
  unfolding daapInit_def
proof (intro guards_seq settles_prims guards_bind_post settles_locked)
  fix w a w'
  assume run: "init_locked os app l g tt w = Ret a w'"
  obtain r go_on where a: "a = (r, go_on)" by fastforce
  have tail: "settles (seqC (find_rank os)
      (bindC (asks daapRank_zero) (\<lambda>zero.
       if zero \<and> decouple_off os then
         bindC (daapLogJobStart os) (\<lambda>r'. ret (r + r'))
       else ret r)))"
    by (intro settles_init_parts settles_writers settles_rules)
  have "go_on \<longrightarrow> \<not> r < 0"
    using run a init_locked_goes_on [of os app l g tt w r w'] by (auto simp: DAAP_SUCCESS_def)
  with tail show "settles (case a of (ret_val, go_on) \<Rightarrow>
     seqC (unlock Init_mutex)
    (if \<not> go_on then ret ret_val
     else if ret_val < 0 then
       seqC (emit (EvPerror ''Fatal error''))
      (exitC 1)
     else
       seqC (find_rank os)
      (bindC (asks daapRank_zero) (\<lambda>zero.
       if zero \<and> decouple_off os then
         bindC (daapLogJobStart os) (\<lambda>r.
         ret (ret_val + r))
       else ret ret_val))))"
    unfolding a prod.case by (cases go_on) (auto intro: settles_rules)
qed

lemma settles_exec: "settles (exec os c)"
proof -
  have fin: "settles (daapFinalize os)"
    unfolding daapFinalize_def
    by (intro settles_init_parts settles_writers settles_writer_parts settles_rules)
  show ?thesis
    by (cases c) (auto simp: daapLogRead_def daapSetRank_def fortran_entries guards_prims(1) [unfolded ret_def]
        intro!: settles_rules settles_init fin settles_writers)
qed

section \<open>Every session is a sequence of connections\<close>

lemma reachable_settled: "reachable os w \<Longrightarrow> settled w"
proof (induction rule: reachable.induct)
  case start
  show ?case by (simp add: settled_def)
qed (auto simp: call_iff dest: guardsD(1) [OF settles_exec])

section \<open>What OpenSSL means by its answers\<close>

text \<open>
  The code looks at the sign of what \<open>SSL_connect\<close> returned (\<open>ret_val < 0\<close>) and not at what
  \<open>SSL_new\<close> returned, and \<open>conn_step\<close> follows the code. OpenSSL documents more: the result 0 of
  \<open>SSL_connect\<close> is a handshake that did not succeed, and the result NULL of \<open>SSL_new\<close> is no object.
  \<open>overlooked\<close> are the events in which such an answer was taken for success, \<open>checked_run\<close> is
  the automaton that refuses them, and in an environment that is \<open>honest\<close> there are none.
\<close>

fun overlooked :: "event \<Rightarrow> bool" where
  "overlooked (EvSslNew ctx s) \<longleftrightarrow> s = None"
| "overlooked (EvSslConnect s r) \<longleftrightarrow> r = 0"
| "overlooked e \<longleftrightarrow> False"

definition checked_run :: "conn \<Rightarrow> event list \<Rightarrow> conn option" where
  "checked_run c es = (if list_ex overlooked es then None else conn_run c es)"

definition honest :: "os \<Rightarrow> bool" where
  "honest os \<longleftrightarrow> (\<forall>h. os_ssl_connect os h \<noteq> 0) \<and> (\<forall>c h. os_ssl_new os c h \<noteq> None)"

definition taken_overlooked :: "world \<Rightarrow> event list" where
  "taken_overlooked w = filter overlooked (trace w)"

lemma checked_prims:
  "\<not> overlooked e \<Longrightarrow> preserves taken_overlooked (emit e)"
  "(\<And>h. \<not> overlooked (ev (q h))) \<Longrightarrow> preserves taken_overlooked (query q ev)"
  "preserves taken_overlooked (alloc os n)" "preserves taken_overlooked (lock m)"
  "preserves taken_overlooked (unlock m)" "preserves taken_overlooked (set_errno i)"
  "preserves taken_overlooked (deref p)" "preserves taken_overlooked (free_str p)"
  "preserves taken_overlooked (set_init_data f)"
  "(\<And>w. trace (g w) = trace w) \<Longrightarrow> preserves taken_overlooked (update g)"
  by (rule preservesI; auto simp: taken_overlooked_def lock_def deref_def free_str_def
      split: if_splits strptr.splits)+

lemmas checked_rules = same.rules(1-6,8-11) checked_prims

lemma checked_writer_parts:
  "preserves taken_overlooked (ERROR_OUTPUT os u s as)"
  "preserves taken_overlooked (DEBUG_OUTPUT os u s as)"
  "preserves taken_overlooked (format_message os m as)"
  "preserves taken_overlooked (getmillisectime os)"
  "preserves taken_overlooked (daapBuildInflux os ts m)"
  "preserves taken_overlooked (daapBuildRawInflux os m)"
  "preserves taken_overlooked daapShutdownSSL"
proof -
  show out: "preserves taken_overlooked (ERROR_OUTPUT os u s as)"
    "preserves taken_overlooked (DEBUG_OUTPUT os u s as)" for os u s as
    unfolding output_defs by (intro checked_rules; simp)+
  show "preserves taken_overlooked (format_message os m as)"
    unfolding format_message_def null_device_length_def by (intro out checked_rules) simp_all
qed (unfold getmillisectime_def daapBuildInflux_def daapBuildRawInflux_def daapShutdownSSL_def,
    (intro checked_rules; simp)+)

lemma checked_loop: "preserves taken_overlooked (run_loop (ssl_write_loop os buf n count tot))"
proof (rule preservesI)
  fix w c w'
  assume "run_loop (ssl_write_loop os buf n count tot) w = Ret c w'"
  then have "ssl_write_loop os buf n count tot w = Some (Ret c w')"
    by (simp add: run_loop_def split: option.splits)
  then have "\<forall>c' v. Ret c w' = Ret c' v \<longrightarrow> taken_overlooked v = taken_overlooked w"
    by (rule ssl_write_loop_rule
        [where P = "\<lambda>_ _ w r. \<forall>c' v. r = Ret c' v \<longrightarrow> taken_overlooked v = taken_overlooked w"])
      (auto simp: ssl_write_pass_def Let_def taken_overlooked_def split: if_splits)
  then show "taken_overlooked w' = taken_overlooked w" by simp
qed

lemma checked_tcp_write:
  assumes "honest os"
  shows "preserves taken_overlooked (daapTCPLogWrite os s n)"
proof -
  have "preserves taken_overlooked (daapTCPConnect os)"
    unfolding daapTCPConnect_def
    by (intro checked_writer_parts checked_rules) (use assms in \<open>simp_all add: honest_def\<close>)
  then show ?thesis
    unfolding daapTCPLogWrite_def by (intro checked_loop checked_rules) simp_all
qed

lemma checked_writers:
  assumes "honest os"
  shows "preserves taken_overlooked (daapLogWrite os m as)"
    "preserves taken_overlooked (daapLogRawWrite os m as)"
    "preserves taken_overlooked (daapLogHeartbeat os)" "preserves taken_overlooked (daapLogJobStart os)"
    "preserves taken_overlooked (daapLogJobDuration os)" "preserves taken_overlooked (daapLogJobEnd os)"
  unfolding log_defs log_write_via_def log_raw_via_def transmit_def
  by (intro checked_tcp_write checked_writer_parts checked_rules assms; simp)+

lemma checked_init_parts:
  "preserves taken_overlooked (init_hostname os)" "preserves taken_overlooked (init_cluster os)"
  "preserves taken_overlooked (init_transport os l tt)" "preserves taken_overlooked (find_rank os)"
  "preserves taken_overlooked free_init_data"
proof -
  have "preserves taken_overlooked (gethostname_tries os n len)" for n len
  proof (induction n arbitrary: len)
    case (Suc n)
    show ?case unfolding gethostname_tries.simps Let_def by (intro checked_rules Suc) simp_all
  qed (simp, intro checked_rules, simp)
  then have host: "preserves taken_overlooked (daap_gethostname os)"
    unfolding daap_gethostname_def by (intro checked_rules)
  show "preserves taken_overlooked (init_hostname os)"
    unfolding init_hostname_def strdup_def by (intro host checked_rules)
  have ssl: "preserves taken_overlooked (daapInitializeSSL os)"
    unfolding daapInitializeSSL_def snprintf_into_def
    by (intro checked_writer_parts checked_rules; simp)
  show "preserves taken_overlooked (init_transport os l tt)"
    unfolding init_transport_def by (intro ssl checked_rules; simp)
  show "preserves taken_overlooked (init_cluster os)" "preserves taken_overlooked (find_rank os)"
    "preserves taken_overlooked free_init_data"
    unfolding init_cluster_def calloc_strcpy_def find_rank_def take_rank_def free_init_data_def
    by (intro checked_writer_parts checked_rules; simp)+
qed

lemma checked_exec:
  assumes "honest os"
  shows "preserves taken_overlooked (exec os c)"
proof (rule exec_keeps [OF same.step_order_axioms])
  show "preserves taken_overlooked (daapInit os app l g tt)" for app l g tt
    unfolding daapInit_def init_locked_def init_rest_def calloc_strcpy_def
    by (intro checked_init_parts checked_writers [OF assms] checked_rules; simp)
  show "preserves taken_overlooked (daapFinalize os)"
    unfolding daapFinalize_def
    by (intro checked_init_parts checked_writers [OF assms] checked_writer_parts checked_rules)
  show "preserves taken_overlooked (daapSetRank r)" for r
    unfolding daapSetRank_def by (intro checked_rules)
qed (rule checked_writers [OF assms])+

lemma reachable_checked:
  assumes "honest os" and "reachable os w"
  shows "\<not> list_ex overlooked (trace w)"
proof -
  from assms(2) have "taken_overlooked w = []"
  proof (induction rule: reachable.induct)
    case start
    show ?case by (simp add: taken_overlooked_def)
  qed (auto simp: call_iff dest: preservesD [OF checked_exec [OF assms(1)]])
  then show ?thesis by (simp add: taken_overlooked_def filter_empty_conv list_ex_iff)
qed

text \<open>
  C7: After any calls that returned, with any arguments and in any environment, the history is
  a sequence of complete connections in the sense of the code's own tests: each \<open>SSL_write\<close>
  goes to the pointer that \<open>SSL_new\<close> answered since the last connection ended, that was bound
  to a connected socket and for which \<open>SSL_connect\<close> answered no negative number; that socket is
  closed after the message, and no TLS object is freed in between. The code tests neither
  for NULL from \<open>SSL_new\<close> nor for 0 from \<open>SSL_connect\<close> (a handshake that did not succeed);
  where the environment gives neither answer, every \<open>SSL_write\<close> goes to a real object whose
  handshake succeeded. A call that ends the process does so with status 2 in the
  middle of such a connection, with \<open>write_mutex\<close> held.
\<close>
theorem session_connections:
  assumes "reachable os w"
  shows "conn_run Idle (trace w) = Some Idle \<and>
         (honest os \<longrightarrow> checked_run Idle (trace w) = Some Idle) \<and>
         (\<forall>n w'. exec os c w = Exits n w' \<longrightarrow>
            n = 2 \<and> Write_mutex \<in> held w' \<and>
            (\<exists>fd. conn_run Idle (trace w') = Some (Ready fd (cSSL w'))))"
  using reachable_settled [OF assms] reachable_checked [OF _ assms] guardsD(2) [OF settles_exec, of w]
  by (auto simp: settled_def mid_write_def checked_run_def)

theorem session_connections_witness:
  "\<exists>w w' fd. reachable (os_broken ''7'') w \<and>
     exec (os_broken ''7'') LogHeartbeat w = Exits 2 w' \<and> Write_mutex \<in> held w' \<and>
     conn_run Idle (trace w) = Some Idle \<and> checked_run Idle (trace w) = Some Idle \<and>
     conn_run Idle (trace w') = Some (Ready fd (cSSL w'))"
proof -
  obtain w w' where w: "reachable (os_broken ''7'') w"
    and run: "exec (os_broken ''7'') LogHeartbeat w = Exits 2 w'"
    by (rule broken_session)
  have "honest (os_broken ''7'')"
    by (simp add: honest_def os_broken_def os_rank_def os_good_def)
  with session_connections [OF w, of LogHeartbeat] w run show ?thesis by auto
qed

section \<open>Connections of several threads\<close>

text \<open>
  The state of the connection that a thread inside the locked region relies on, and the steps
  outside that region, which do not touch the connection.
\<close>

fun line_state :: "point \<Rightarrow> world \<Rightarrow> conn" where
  "line_state (Sending line count total_count) w = Ready (sockfd w) (cSSL w)"
| "line_state (Closing line count) w = Ready (sockfd w) (cSSL w)"
| "line_state p w = Idle"

definition connection :: "world \<Rightarrow> conn option \<times> int \<times> nat option" where
  "connection w = (conn_run Idle (trace w), sockfd w, cSSL w)"

lemma connection_prims:
  "(\<And>c. conn_step c e = Some c) \<Longrightarrow> preserves connection (emit e)"
  "(\<And>c r. conn_step c (ev r) = Some c) \<Longrightarrow> preserves connection (query q ev)"
  "preserves connection (alloc os n)" "preserves connection (lock m)"
  "preserves connection (unlock m)" "preserves connection (set_errno i)"
  "preserves connection (deref p)"
  by (rule preservesI; auto simp: connection_def lock_def deref_def split: if_splits strptr.splits)+

lemmas connection_rules = same.rules(1-6,8-11) connection_prims

lemma connection_parts:
  "preserves connection (ERROR_OUTPUT os u s as)" "preserves connection (DEBUG_OUTPUT os u s as)"
  "preserves connection (format_message os m as)" "preserves connection (getmillisectime os)"
  "preserves connection (daapBuildInflux os ts m)" "preserves connection (daapBuildRawInflux os m)"
proof -
  show out: "preserves connection (ERROR_OUTPUT os u s as)"
    "preserves connection (DEBUG_OUTPUT os u s as)" for os u s as
    unfolding output_defs by (intro connection_rules; simp)+
  show "preserves connection (format_message os m as)"
    unfolding format_message_def null_device_length_def
    by (intro out connection_rules) simp_all
qed (unfold getmillisectime_def daapBuildInflux_def daapBuildRawInflux_def,
    (intro connection_rules; simp)+)

lemma debug_history:
  assumes "DEBUG_OUTPUT os u f as w = Ret r w'"
  shows "conn_run Idle (trace w') = conn_run Idle (trace w)"
  using preservesD [OF connection_parts(2) assms] by (simp add: connection_def)

lemma outside_connection:
  assumes "\<not> writing p"
  shows "preserves connection (advance os p)"
  using assms
  by (cases "(os, p)" rule: advance.cases; simp only: advance.simps writing.simps prod.inject simp_thms;
      intro connection_parts connection_rules; simp)

lemma settled_iff: "settled w \<longleftrightarrow> conn_run Idle (trace w) = Some Idle"
  by (simp add: settled_def)

text \<open>A step inside the region moves the connection from one point to the next.\<close>

lemma inside_connection:
  assumes "writing p" and "conn_run Idle (trace w) = Some (line_state p w)"
    and "advance os p w = Ret q w'"
  shows "conn_run Idle (trace w') = Some (line_state q w')"
proof (cases p)
  case (Connecting line)
  with assms obtain r v where conn: "daapTCPConnect os w = Ret r v"
    and q: "if r < 0 then q = Unlocking line DAAP_ERROR \<and> w' = v
      else q = Sending line 0 0 \<and> w' = v\<lparr>trace := trace v @ [EvErrClear]\<rparr>"
    by (cases "daapTCPConnect os w") (auto split: if_splits)
  have "settled w" using assms(2) Connecting by (simp add: settled_def)
  from connect_ready [OF this conn] q show ?thesis
    by (auto simp: settled_def on_line_def split: if_splits)
next
  case (Sending line c t)
  then have on: "on_line (sockfd w) (held w) w" using assms(2) by (simp add: on_line_def)
  show ?thesis
  proof (cases "ssl_write_pass os line (int (length line)) c t w")
    case (Inl r)
    with assms(3) Sending obtain k where "r = Ret k w'" and "q = Closing line k"
      by (cases r) (auto simp: bindC_def ret_def)
    with pass_on_line(2) [OF on Inl] show ?thesis by (simp add: wlx_def on_line_def)
  next
    case (Inr next')
    with assms(3) Sending obtain c' t' where "next' = (c', t', w')" and "q = Sending line c' t'"
      by (cases next') auto
    with pass_on_line(1) [OF on] Inr show ?thesis by (simp add: on_line_def)
  qed
next
  case (Closing line k)
  with assms show ?thesis by auto
next
  case (Unlocking line k)
  with assms obtain v where
    out: "DEBUG_OUTPUT os U_log ''Writing message: %s, written: %d'' [StrArg line, IntArg (word_of_int k)]
       (w\<lparr>held := held w - {Write_mutex}\<rparr>) = Ret () v" and "w' = v" and "q = Freeing line"
    by (auto simp: seqC_def bindC_def ret_def split: outcome.splits)
  with assms(2) Unlocking debug_history [OF out] show ?thesis by simp
qed (use assms(1) in simp_all)

text \<open>
  The invariant: with no thread in the region the history is settled, and with one thread in
  it the connection is the one this thread relies on.
\<close>

definition in_turn :: "point list \<Rightarrow> world \<Rightarrow> bool" where
  "in_turn ps w \<longleftrightarrow>
     conn_run Idle (trace w) =
       Some (case filter writing ps of [] \<Rightarrow> Idle | p # qs \<Rightarrow> line_state p w)"

lemma filter_update:
  assumes "i < length ps" and "length (filter P ps) \<le> 1" and "P (ps ! i) \<or> filter P ps = []"
  shows "filter P ps = (if P (ps ! i) then [ps ! i] else [])"
    and "filter P (ps[i := q]) = (if P q then [q] else [])"
proof -
  note split = id_take_nth_drop [OF assms(1)]
  have parts: "filter P ps = filter P (take i ps) @ filter P (ps ! i # drop (Suc i) ps)"
    using split by (metis filter_append)
  with assms(2,3) have "filter P (take i ps) = []" "filter P (drop (Suc i) ps) = []"
    by (auto split: if_splits)
  with parts show "filter P ps = (if P (ps ! i) then [ps ! i] else [])"
    "filter P (ps[i := q]) = (if P q then [q] else [])"
    using assms(1) by (simp_all add: upd_conv_take_nth_drop)
qed

lemma filter_update_out:
  assumes "i < length ps" and "\<not> P (ps ! i)" and "\<not> P q"
  shows "filter P (ps[i := q]) = filter P ps"
proof -
  have "filter P ps = filter P (take i ps @ ps ! i # drop (Suc i) ps)"
    by (rule arg_cong [OF id_take_nth_drop [OF assms(1)]])
  with assms show ?thesis by (simp add: upd_conv_take_nth_drop)
qed

lemma in_turn_step:
  assumes "in_turn ps w" and "exclusive writing Write_mutex ps w"
    and "i < length ps" and "advance os (ps ! i) w = Ret q w'"
  shows "in_turn (ps[i := q]) w'"
proof -
  have one: "length (filter writing ps) \<le> 1" using assms(2) by (simp add: exclusive_def)
  have idle: "\<not> writing q \<Longrightarrow> line_state q v = Idle" for v by (cases q) auto
  show ?thesis
  proof (cases "writing (ps ! i)")
    case True
    note here = filter_update(1) [where P = writing, OF assms(3) one disjI1 [OF True]]
      filter_update(2) [where P = writing, OF assms(3) one disjI1 [OF True], of q]
    have "conn_run Idle (trace w') = Some (line_state q w')"
      using assms(1) here(1) True
      by (intro inside_connection [OF True _ assms(4)]) (simp add: in_turn_def)
    with here(2) True idle show ?thesis by (simp add: in_turn_def)
  next
    case False
    then have same: "connection w' = connection w"
      using preservesD [OF outside_connection [OF False] assms(4)] by simp
    then have state: "conn_run Idle (trace w') = conn_run Idle (trace w)"
      "line_state p w' = line_state p w" for p
      by (cases p; simp add: connection_def)+
    show ?thesis
    proof (cases "writing q")
      case True
      have "Write_mutex \<notin> held w" using writer.enter [OF assms(4) False True] by simp
      then have none: "filter writing ps = []"
        using assms(2) by (simp add: exclusive_def)
      have "line_state q w' = Idle"
        using advance_writing [OF assms(4)] True False assms(4)
        by (cases "ps ! i") (auto simp: seqC_def bindC_def lock_def split: if_splits)
      with none state assms(1) True filter_update(2) [OF assms(3) one disjI2 [OF none], of q]
      show ?thesis by (simp add: in_turn_def)
    next
      case out: False
      with assms(1) state filter_update_out [OF assms(3) False out] show ?thesis
        by (simp add: in_turn_def split: list.split)
    qed
  qed
qed

lemma reaches_in_turn:
  assumes "reaches os (start w jobs) s" and "Write_mutex \<notin> held w" and "settled w"
  shows "in_turn (points s) (shared s)"
  using assms(1)
proof (induction rule: rtranclp_induct)
  case base
  show ?case using assms(3) by (simp add: in_turn_def settled_def points_def)
next
  case (step s s')
  note ex = reaches_exclusive [OF step.hyps(1) assms(2)]
  from \<open>sys_step os s s'\<close> show ?case
  proof (cases rule: points_step)
    case (call i r c)
    then have "filter writing (points s') = filter writing (points s)"
      using filter_update_out [of i "points s" writing] by simp
    with step.IH call(4) show ?thesis by (simp add: in_turn_def)
  next
    case (step i q)
    then show ?thesis using in_turn_step [OF \<open>in_turn (points s) (shared s)\<close> ex] by simp
  qed
qed

text \<open>
  C8: Threads that log at the same time, in any environment, never mix their connections: the
  shared history is a sequence of complete connections followed by at most one unfinished
  one, which is the connection in the global variables and belongs to the one thread that
  is sending.
\<close>
theorem threads_connections:
  assumes "reaches os (start w jobs) s" and "Write_mutex \<notin> held w"
    and "conn_run Idle (trace w) = Some Idle"
  shows "conn_run Idle (trace (shared s)) = Some Idle \<or>
         conn_run Idle (trace (shared s)) = Some (Ready (sockfd (shared s)) (cSSL (shared s))) \<and>
         (\<exists>!i. i < length (threads s) \<and> writing (pc (threads s ! i)))"
proof -
  have turn: "in_turn (points s) (shared s)"
    using assms(3) by (intro reaches_in_turn [OF assms(1,2)]) (simp add: settled_def)
  note ex = reaches_exclusive [OF assms(1,2)]
  show ?thesis
  proof (cases "filter writing (points s)")
    case (Cons p ps)
    then have "p \<in> set (filter writing (points s))" by simp
    then have "p \<in> set (points s)" and "writing p" by auto
    then obtain i where i: "i < length (points s)" "writing (points s ! i)"
      by (auto simp: in_set_conv_nth)
    then have "\<exists>!i. i < length (threads s) \<and> writing (pc (threads s ! i))"
      using writer.exclusive_one [OF ex] by (intro ex1I [of _ i]) (auto simp: points_def)
    moreover have "conn_run Idle (trace (shared s)) = Some (line_state p (shared s))"
      using turn Cons by (simp add: in_turn_def)
    ultimately show ?thesis by (cases p) simp_all
  qed (use turn in \<open>simp add: in_turn_def\<close>)
qed

theorem threads_connections_witness:
  "\<exists>s. reaches os_good (start (world_ready TCP) two_jobs) s \<and>
     pc (threads s ! 1) = Entering (two_jobs ! 1 ! 0) \<and>
     (conn_run Idle (trace (shared s)) = Some Idle \<or>
      conn_run Idle (trace (shared s)) = Some (Ready (sockfd (shared s)) (cSSL (shared s))))"
proof -
  obtain s where run: "reaches os_good (start (world_ready TCP) two_jobs) s"
    and at: "pc (threads s ! 1) = Entering (two_jobs ! 1 ! 0)"
    by (rule two_jobs_started)
  from threads_connections [OF run] have "conn_run Idle (trace (shared s)) = Some Idle \<or>
      conn_run Idle (trace (shared s)) = Some (Ready (sockfd (shared s)) (cSSL (shared s)))"
    by (auto simp: world_ready_def world0_def)
  with run at show ?thesis by blast
qed

end
