(* ===== verification/Types.thy ===== *)
theory Types
  imports Session
begin

text \<open>
  The C types of the interface. The model keeps integers as \<open>int\<close> and strings without their
  terminator; here is the discipline that makes this exact: every value that the library stores, hands
  to its environment or returns fits the C type that holds it. \<open>typed T m\<close> is the typing
  judgement of a command, with a rule for each construct; the type of a value is a predicate.
  Session soundness is preservation: from a well typed state, a call with arguments of
  their declared types, in an environment that answers in the types of its prototypes,
  returns a value of its type in a well typed state.
\<close>

section \<open>Types of values, events and states\<close>

definition fits_int :: "int \<Rightarrow> bool" where
  "fits_int i \<longleftrightarrow> INT_MIN \<le> i \<and> i \<le> INT_MAX"

text \<open>A string that fits an array of \<open>n\<close> bytes with its terminator.\<close>

definition fits_array :: "nat \<Rightarrow> string \<Rightarrow> bool" where
  "fits_array n s \<longleftrightarrow> is_cstr s \<and> length s < n"

definition typed_ptr :: "strptr \<Rightarrow> bool" where
  "typed_ptr p = (case p of SPtr s \<Rightarrow> is_cstr s | _ \<Rightarrow> True)"

definition typed_event :: "event \<Rightarrow> bool" where
  "typed_event e =
     (case e of
        EvSyslog p line \<Rightarrow> fits_int p \<and> fits_array max_size line
      | EvSslWrite c chunk n \<Rightarrow> fits_array max_size chunk \<and> fits_int n
      | EvDebugOutput host msg \<Rightarrow> fits_array LOCAL_MAXHOSTNAMELEN host \<and> fits_array PRINT_MAX msg
      | EvErrorOutput host msg \<Rightarrow> fits_array LOCAL_MAXHOSTNAMELEN host \<and> fits_array PRINT_MAX msg
      | EvOpenlog app b facility \<Rightarrow> is_cstr app \<and> fits_int facility
      | EvAccess path n \<Rightarrow> fits_array PATH_MAX path \<and> fits_int n
      | EvCtxSetup c cert key \<Rightarrow> fits_array PATH_MAX cert \<and> fits_array PATH_MAX key
      | EvSocket fd \<Rightarrow> fits_int fd
      | EvConnect fd n \<Rightarrow> fits_int fd \<and> fits_int n
      | EvSetFd c fd \<Rightarrow> fits_int fd
      | EvSslConnect c n \<Rightarrow> fits_int n
      | EvClose fd \<Rightarrow> fits_int fd
      | EvFree s \<Rightarrow> is_cstr s
      | EvStdout s \<Rightarrow> is_cstr s
      | EvStderr s \<Rightarrow> is_cstr s
      | EvPerror s \<Rightarrow> is_cstr s
      | _ \<Rightarrow> True)"

definition typed_data :: "daap_init_t \<Rightarrow> bool" where
  "typed_data d \<longleftrightarrow>
     typed_ptr (appname d) \<and> typed_ptr (hostname d) \<and> typed_ptr (cluster_name d) \<and>
     fits_int (mpi_rank d) \<and> fits_int (level d) \<and> fits_int (agg_val d) \<and> fits_int (alloc_size d)"

definition typed_world :: "world \<Rightarrow> bool" where
  "typed_world w \<longleftrightarrow>
     typed_data (init_data w) \<and> fits_array LOCAL_MAXHOSTNAMELEN (daap_hostname w) \<and>
     fits_int (sockfd w) \<and> fits_int (errno w) \<and> list_all typed_event (trace w)"

text \<open>
  The environment answers in the types of its prototypes; \<open>SSL_write\<close> is given the number of
  bytes as an \<open>int\<close>. What \<open>gethostname\<close> leaves in the buffer may be any bytes.
\<close>

definition typed_os :: "os \<Rightarrow> bool" where
  "typed_os os \<longleftrightarrow>
     (\<forall>v s. os_getenv os v = Some s \<longrightarrow> is_cstr s) \<and>
     (\<forall>h. fits_int (fst (snd (os_gethostname os h))) \<and> fits_int (os_socket os h) \<and>
          fits_int (os_connect os h) \<and> fits_int (os_ssl_connect os h) \<and> fits_int (os_indet os h) \<and>
          (\<forall>path. fits_int (os_access os path h)) \<and>
          (\<forall>d. fits_int (int (length d)) \<longrightarrow> fits_int (os_ssl_write os d h)))"

fun typed_call :: "api \<Rightarrow> bool" where
  "typed_call (Init app l g tt) \<longleftrightarrow> is_cstr app \<and> fits_int l \<and> fits_int g"
| "typed_call (LogWrite m as) \<longleftrightarrow> is_cstr m \<and> list_all clean_arg as"
| "typed_call (LogRawWrite m as) \<longleftrightarrow> is_cstr m \<and> list_all clean_arg as"
| "typed_call (SetRank r) \<longleftrightarrow> fits_int r"
| "typed_call (F_SetRank r) \<longleftrightarrow> fits_int r"
| "typed_call _ \<longleftrightarrow> True"

fun returns_int :: "api \<Rightarrow> bool" where
  "returns_int (SetRank r) \<longleftrightarrow> False"
| "returns_int (F_Init app len) \<longleftrightarrow> False"
| "returns_int (F_LogWrite m len) \<longleftrightarrow> False"
| "returns_int F_LogHeartbeat \<longleftrightarrow> False"
| "returns_int F_LogJobStart \<longleftrightarrow> False"
| "returns_int F_LogJobDuration \<longleftrightarrow> False"
| "returns_int F_LogJobEnd \<longleftrightarrow> False"
| "returns_int (F_SetRank r) \<longleftrightarrow> False"
| "returns_int F_Finalize \<longleftrightarrow> False"
| "returns_int c \<longleftrightarrow> True"

definition typed_result :: "api \<Rightarrow> int option \<Rightarrow> bool" where
  "typed_result c r = (case r of None \<Rightarrow> \<not> returns_int c | Some i \<Rightarrow> returns_int c \<and> fits_int i)"

text \<open>A session of a client that respects the prototypes.\<close>

inductive typed_session :: "os \<Rightarrow> world \<Rightarrow> bool" for os where
  start: "typed_session os world0"
| step: "typed_session os w \<Longrightarrow> typed_call c \<Longrightarrow> call os w c r w' \<Longrightarrow> typed_session os w'"

section \<open>The typing judgement\<close>

abbreviation typed :: "('a \<Rightarrow> bool) \<Rightarrow> (world, 'a) cmd \<Rightarrow> bool" where
  "typed T \<equiv> yields typed_world T (\<lambda>_. typed_world)"

text \<open>Reading a variable gives a value of its type.\<close>

lemma typed_asks:
  "typed typed_data (asks init_data)"
  "typed (fits_array LOCAL_MAXHOSTNAMELEN) (asks daap_hostname)"
  "typed fits_int (asks sockfd)"
  "typed anything (asks sslctx)" "typed anything (asks cSSL)"
  "typed anything (asks daapInit_called)" "typed anything (asks daapRank_zero)"
  by (rule yieldsI; simp add: typed_world_def)+

lemma typed_emit: "typed_event e \<Longrightarrow> typed anything (emit e)"
  by (rule yieldsI) (auto simp: typed_world_def)

lemma typed_query:
  "(\<And>h. T (f h)) \<Longrightarrow> (\<And>h. typed_event (ev (f h))) \<Longrightarrow> typed T (query f ev)"
  by (rule yieldsI) (auto simp: typed_world_def)

lemma typed_prims:
  "typed anything (alloc os n)" "typed anything (lock m)" "typed anything (unlock m)"
  "fits_int i \<Longrightarrow> typed anything (set_errno i)"
  "(\<And>d. typed_data d \<Longrightarrow> typed_data (g d)) \<Longrightarrow> typed anything (set_init_data g)"
  by (rule yieldsI; auto simp: typed_world_def typed_event_def lock_def split: if_splits)+

lemma typed_strings:
  "typed_ptr p \<Longrightarrow> typed is_cstr (deref p)"
  "typed_ptr p \<Longrightarrow> typed anything (free_str p)"
  by (cases p; simp add: typed_ptr_def typed_event_def yields_prims typed_emit)+

text \<open>
  The rules in the order in which they are tried: a \<open>ret\<close> whose type is still open has any type.
\<close>

lemmas typing = guards_prims(1) yields_rules typed_asks typed_emit typed_prims typed_strings

section \<open>Formatting and building a line\<close>

lemma fits_constants: "fits_int (-1)" "fits_int 0" "fits_int 1" "fits_int 2"
  by (simp_all add: fits_int_def c_consts)

lemma fits_snprintf: "is_cstr s \<Longrightarrow> 0 < n \<Longrightarrow> fits_array n (snprintf_str n s)"
  by (simp add: fits_array_def snprintf_str_def)

lemma typed_output:
  assumes "is_cstr f" and "list_all clean_arg as"
  shows "typed anything (ERROR_OUTPUT os u f as)" "typed anything (DEBUG_OUTPUT os u f as)"
proof -
  have msg: "fits_array PRINT_MAX msg" if "deformat f as = Some msg" for msg
    using that assms deformat_length [OF that] format_cstr
    by (auto simp: deformat_def snprintf_str_def fits_array_def list_all_iff)
  show "typed anything (ERROR_OUTPUT os u f as)" "typed anything (DEBUG_OUTPUT os u f as)"
    unfolding output_defs
    by (rule typing typed_query [where T = anything] | simp add: typed_event_def msg; fail)+
qed

lemma typed_format_message:
  assumes "is_cstr m" and "list_all clean_arg as"
  shows "typed is_cstr (format_message os m as)"
proof -
  have out: "is_cstr out" if "format m as = Some out" for out
    using format_cstr [OF that] assms by (simp add: list_all_iff)
  have len: "typed anything (null_device_length os m as)"
    unfolding null_device_length_def
    by (rule typing typed_query [where T = anything] | simp add: typed_event_def; fail)+
  have cut: "typed anything (if len > int DAAP_MAX_MSG_LEN then
      seqC (ERROR_OUTPUT os U_log ''Message is longer than DAAP_MAX_MSG_LEN: %d; truncating.''
              [IntArg (of_nat DAAP_MAX_MSG_LEN)])
     (ret (int DAAP_MAX_MSG_LEN))
    else ret len)" for len
    by (rule typed_output typing | simp add: clean_arg_def nul_def; fail)+
  show ?thesis
    unfolding format_message_def
    by (rule len cut typed_output typing | simp add: snprintf_str_def out; fail)+
qed

text \<open>A line owns a buffer of \<open>max_size\<close> bytes.\<close>

definition line_ptr :: "strptr \<Rightarrow> bool" where
  "line_ptr p \<longleftrightarrow> (\<exists>s. p = SPtr s \<and> fits_array max_size s)"

lemma typed_clock: "typed anything (getmillisectime os)"
  unfolding getmillisectime_def
  by (rule typing typed_query [where T = anything] | simp add: typed_event_def; fail)+

lemma typed_build:
  assumes "is_cstr m"
  shows "typed line_ptr (daapBuildInflux os ts m)" "typed line_ptr (daapBuildRawInflux os m)"
proof -
  have out: "line_ptr (SPtr (snprintf_str max_size s))"
    if "format f as = Some s" "is_cstr f" "list_all clean_arg as" for f as s
    using format_cstr [OF that(1,2)] that(3)
    by (simp add: line_ptr_def fits_snprintf max_size_def list_all_iff)
  show "typed line_ptr (daapBuildRawInflux os m)"
    unfolding daapBuildRawInflux_def
    by (rule typing | erule out | simp add: assms clean_arg_def nul_def; fail)+
  have key: "is_cstr APP_KEY" "is_cstr HOST_KEY" "is_cstr CLUSTER_NAME_KEY"
    "is_cstr MPI_RANK_KEY" "is_cstr MSG_KEY" "is_cstr influx_format"
    by (simp_all add: influx_keys influx_format_def nul_def dquote_def)
  show "typed line_ptr (daapBuildInflux os ts m)"
    unfolding daapBuildInflux_def
    by (rule typing | erule out | simp add: assms key clean_arg_def typed_data_def; fail)+
qed

section \<open>The connection\<close>

lemma typed_shutdown: "typed anything daapShutdownSSL"
  unfolding daapShutdownSSL_def by (rule typing | simp add: typed_event_def; fail)+

lemma typed_updates:
  "fits_int fd \<Longrightarrow> typed anything (update (\<lambda>w. w\<lparr>sockfd := fd\<rparr>))"
  "typed anything (update (\<lambda>w. w\<lparr>cSSL := s\<rparr>))" "typed anything (update (\<lambda>w. w\<lparr>sslctx := c\<rparr>))"
  "typed anything (update (\<lambda>w. w\<lparr>daapInit_called := b\<rparr>))"
  "typed anything (update (\<lambda>w. w\<lparr>daapRank_zero := b\<rparr>))"
  "fits_array LOCAL_MAXHOSTNAMELEN host \<Longrightarrow> typed anything (update (\<lambda>w. w\<lparr>daap_hostname := host\<rparr>))"
  by (rule yieldsI; auto simp: typed_world_def)+

lemma typed_loop:
  assumes "typed_os os" and "fits_array max_size buf"
  shows "typed fits_int (run_loop (ssl_write_loop os buf n 0 0))"
proof -
  let ?ok = "\<lambda>r. (\<forall>c v. r = Ret c v \<longrightarrow> fits_int c \<and> typed_world v) \<and>
      (\<forall>k v. r = Exits k v \<longrightarrow> typed_world v)"
  have chunk: "fits_array max_size (take i (drop j buf))" for i j
    using assms(2) by (auto simp: fits_array_def)
  have accepted: "fits_int (os_ssl_write os (take i (drop j buf)) h)" for i j h
    using assms(1) chunk [of i j]
    by (simp add: typed_os_def fits_array_def fits_int_def max_size_def c_consts)
  have pass: "(\<forall>r. ssl_write_pass os buf n count tot w = Inl r \<longrightarrow> ?ok r) \<and>
      (\<forall>c t v. ssl_write_pass os buf n count tot w = Inr (c, t, v) \<longrightarrow> fits_int c \<and> typed_world v)"
    if "fits_int count" "typed_world w" for count tot w
    using that chunk accepted fits_constants
    by (auto simp: ssl_write_pass_def Let_def typed_world_def typed_event_def
        nul_def newline_def split: if_splits)
  have loop: "fits_int count \<longrightarrow> typed_world w \<longrightarrow> ?ok r"
    if "ssl_write_loop os buf n count tot w = Some r" for count tot w r
    using that
    by (rule ssl_write_loop_rule [where P = "\<lambda>count _ w r. fits_int count \<longrightarrow> typed_world w \<longrightarrow> ?ok r"])
      (use pass in blast)+
  show ?thesis
  proof (rule yieldsI)
    fix w c v
    assume "typed_world w" and "run_loop (ssl_write_loop os buf n 0 0) w = Ret c v"
    with loop [of 0 0 w "Ret c v"] fits_constants(2) show "fits_int c \<and> typed_world v"
      by (simp add: run_loop_def split: option.splits)
  next
    fix w k v
    assume "typed_world w" and "run_loop (ssl_write_loop os buf n 0 0) w = Exits k v"
    with loop [of 0 0 w "Exits k v"] fits_constants(2) show "typed_world v"
      by (simp add: run_loop_def split: option.splits)
  qed
qed

lemma typed_connect:
  assumes "typed_os os"
  shows "typed fits_int (daapTCPConnect os)"
proof -
  have os: "fits_int (os_socket os h)" "fits_int (os_connect os h)" "fits_int (os_ssl_connect os h)" for h
    using assms by (simp_all add: typed_os_def)
  note queries = typed_query [where T = fits_int and f = "os_socket os"]
    typed_query [where T = fits_int and f = "os_connect os"]
    typed_query [where T = fits_int and f = "os_ssl_connect os"]
    typed_query [where T = anything and f = "os_ssl_new os c" for c]
  show ?thesis
    unfolding daapTCPConnect_def
    by (rule queries typing typed_updates typed_shutdown
        | simp add: typed_event_def os fits_constants nul_def; fail)+
qed

lemma typed_tcp_write:
  assumes "typed_os os" and "fits_array max_size buf"
  shows "typed fits_int (daapTCPLogWrite os buf n)"
  unfolding daapTCPLogWrite_def
  by (rule typed_connect [OF assms(1)] typed_loop [OF assms] yields_seq typed_prims yields_bind
      yields_branches typed_emit typed_asks yields_prims(1)
      | simp add: typed_event_def fits_constants c_consts; fail)+

section \<open>The writers\<close>

lemma typed_transmit:
  assumes "typed_os os" and "fits_array max_size line"
  shows "typed anything (transmit os line)"
  unfolding transmit_def
  by (rule typed_tcp_write [OF assms] typed_output typing
      | simp add: typed_event_def typed_data_def clean_arg_def nul_def assms
          assms(2) [unfolded fits_array_def]; fail)+

lemma typed_line:
  assumes "line_ptr p"
  shows "typed (fits_array max_size) (deref p)" "typed anything (free_str p)"
  using assms
  by (auto simp: line_ptr_def fits_array_def typed_ptr_def intro!: yields_prims typed_strings)

lemma typed_writers:
  assumes "typed_os os" and "is_cstr m" and "list_all clean_arg as"
  shows "typed fits_int (daapLogWrite os m as)" "typed fits_int (daapLogRawWrite os m as)"
  unfolding daapLogWrite_def log_write_via_def daapLogRawWrite_def log_raw_via_def
  by (rule typed_output typed_format_message [OF assms(2,3)] typed_clock typed_build typed_transmit [OF assms(1)]
      typed_line yields_seq typed_prims yields_bind yields_branches typed_emit typed_asks
      yields_prims(1)
      | assumption
      | simp add: typed_event_def fits_constants c_consts nul_def clean_arg_def fits_array_def; fail)+

lemma typed_job_messages:
  assumes "typed_os os"
  shows "typed fits_int (daapLogHeartbeat os)" "typed fits_int (daapLogJobStart os)"
    "typed fits_int (daapLogJobDuration os)" "typed fits_int (daapLogJobEnd os)"
  unfolding daapLogHeartbeat_def daapLogJobStart_def daapLogJobDuration_def daapLogJobEnd_def
  by (rule typed_writers [OF assms] typing typed_query [where T = anything]
      | simp add: typed_event_def clean_arg_def nul_def; fail)+

section \<open>daapInit and daapFinalize\<close>

lemma typed_dup:
  assumes "is_cstr s"
  shows "typed typed_ptr (strdup os s)" "typed typed_ptr (calloc_strcpy os s)"
  unfolding strdup_def calloc_strcpy_def
  by (rule typing | simp add: typed_ptr_def assms; fail)+

abbreviation host_answer :: "int \<times> strptr \<Rightarrow> bool" where
  "host_answer \<equiv> \<lambda>(r, p). fits_int r \<and> typed_ptr p"

lemma typed_gethostname:
  assumes "typed_os os"
  shows "typed host_answer (daap_gethostname os)"
proof -
  have err: "typed (\<lambda>(r, err, raw). fits_int err) (query (os_gethostname os) (EvGethostname n))" for n
    by (rule typed_query) (use assms in \<open>simp_all add: typed_os_def typed_event_def split_beta\<close>)
  note answers = typed_event_def typed_ptr_def fits_constants c_consts
  have tries: "typed host_answer (gethostname_tries os n len)" for n len
  proof (induction n arbitrary: len)
    case 0
    show ?case unfolding gethostname_tries.simps
      by (rule typed_emit yields_seq yields_prims(1) | simp add: answers; fail)+
  next
    case (Suc n)
    show ?case unfolding gethostname_tries.simps Let_def
      by (rule err typed_emit typed_prims yields_bind yields_seq yields_branches yields_prims(1) Suc
          | simp add: answers; fail)+
  qed
  show ?thesis
    unfolding daap_gethostname_def
    by (rule tries typed_prims yields_bind yields_branches yields_prims(1) | simp add: answers; fail)+
qed

lemma typed_paths:
  assumes "is_cstr s" and "0 < cap"
  shows "typed (fits_array cap) (snprintf_into cap n s)"
  unfolding snprintf_into_def
  by (rule typing | use assms in \<open>auto simp: fits_array_def snprintf_str_def\<close>; fail)+

lemma typed_ssl:
  assumes "typed_os os"
  shows "typed fits_int (daapInitializeSSL os)"
proof -
  have os: "fits_int (os_access os path h)" "fits_int (os_indet os h)" for path h
    using assms by (simp_all add: typed_os_def)
  have dir: "is_cstr d" if "os_getenv os v = Some d" for v d
    using that assms by (auto simp: typed_os_def)
  have access: "typed fits_int (query (os_access os path) (EvAccess path))"
    if "fits_array PATH_MAX path" for path
    by (rule typed_query) (simp_all add: os typed_event_def that)
  have second: "typed fits_int (if a = -1 then ret (-1) else query (os_access os path) (EvAccess path))"
    if "fits_array PATH_MAX path" for a path
    by (rule yields_branches yields_prims(1) access that fits_constants)+
  have last: "typed fits_int (asks (\<lambda>w. os_indet os (trace w)))"
    by (rule yieldsI) (auto simp: os)
  show ?thesis
    unfolding daapInitializeSSL_def Let_def
    by (rule access second last typed_paths typed_updates typed_output typed_emit yields_bind
        yields_seq yields_branches typed_query [where T = anything and f = "os_ctx_new os"]
        typed_query [where T = anything and f = "os_indet os"] yields_prims(1)
        | assumption
        | simp add: typed_event_def fits_constants nul_def newline_def ssl_consts dir fits_array_def; fail)+
qed

lemma typed_init_pieces:
  assumes "typed_os os"
  shows "typed fits_int (init_hostname os)" "typed anything (init_cluster os)"
    "fits_int l \<Longrightarrow> typed anything (init_transport os l tt)"
    "typed anything (find_rank os)"
proof -
  have env: "is_cstr d" if "os_getenv os v = Some d" for v d
    using that assms by (auto simp: typed_os_def)
  have rank: "fits_int r" if "atoi v = Some r" for v r
    using that by (auto simp: atoi_def Let_def fits_int_def split: if_splits)
  have cond: "typed anything (if b then update (\<lambda>w. w\<lparr>daapRank_zero := True\<rparr>) else ret ())" for b
    by (rule typed_updates typing)+
  note pieces = typed_gethostname [OF assms] typed_ssl [OF assms] typed_dup typed_updates cond
    typed_prims typed_emit typed_asks typed_strings yields_bind yields_seq yields_branches
  note types = typed_data_def typed_ptr_def typed_event_def fits_constants c_consts
  show "typed fits_int (init_hostname os)" "typed anything (init_cluster os)"
    unfolding init_hostname_def init_cluster_def
    by (rule pieces yields_prims(1) | erule env | simp add: types; fail)+
  show "typed anything (init_transport os l tt)" if "fits_int l"
    unfolding init_transport_def
    by (rule pieces yields_prims(1) | simp add: types that; fail)+
  show "typed anything (find_rank os)"
    unfolding find_rank_def take_rank_def
    by (rule typed_output pieces yields_prims | simp add: nul_def; fail | use rank in \<open>auto simp: types\<close>; fail)+
qed

text \<open>A call of \<open>daapInit\<close> goes on only with the value \<open>DAAP_SUCCESS\<close>.\<close>

abbreviation init_answer :: "int \<times> bool \<Rightarrow> bool" where
  "init_answer \<equiv> \<lambda>(r, go_on). fits_int r \<and> (go_on \<longrightarrow> r = DAAP_SUCCESS)"

lemma typed_init_locked:
  assumes "typed_os os" and "is_cstr app" and "fits_int l" and "fits_int g"
  shows "typed init_answer (init_locked os app l g tt)"
proof -
  have host: "typed anything (update (\<lambda>w. w\<lparr>daap_hostname := take (LOCAL_MAXHOSTNAMELEN - 1) s\<rparr>))"
    if "is_cstr s" for s
    by (rule typed_updates) (use that in \<open>simp add: fits_array_def c_consts\<close>)
  note pieces = host typed_updates typed_init_pieces [OF assms(1)] typed_dup [OF assms(2)]
    typed_prims typed_emit typed_asks typed_strings yields_bind yields_seq yields_branches
    typed_query [where T = anything and f = "os_time os"]
  note types = typed_data_def typed_event_def fits_constants c_consts nul_def assms
  have rest: "typed init_answer (init_rest os l tt r)" if "fits_int r" for r
    unfolding init_rest_def
    by (rule pieces yields_prims(1) | assumption | simp add: types that; fail)+
  show ?thesis
    unfolding init_locked_def
    by (rule pieces rest yields_prims(1) | assumption | simp add: types; fail)+
qed

lemma typed_init:
  assumes "typed_os os" and "is_cstr app" and "fits_int l" and "fits_int g"
  shows "typed fits_int (daapInit os app l g tt)"
  unfolding daapInit_def
  by (rule typed_init_locked [OF assms] typed_init_pieces(4) [OF assms(1)]
      typed_job_messages [OF assms(1)] typed_prims typed_emit typed_asks yields_bind yields_seq
      yields_branches yields_prims(1,2) assms(1)
      | simp add: typed_event_def fits_constants c_consts nul_def; fail)+

lemma typed_free: "typed anything free_init_data"
proof -
  have "typed_data (d\<lparr>hostname := freed p\<rparr>) \<and> typed_data (d\<lparr>appname := freed p\<rparr>) \<and>
      typed_data (d\<lparr>cluster_name := freed p\<rparr>)" if "typed_data d" for d p
    using that by (cases p) (simp_all add: typed_data_def typed_ptr_def freed_def)
  then show ?thesis
    unfolding free_init_data_def
    by (intro yields_bind [OF typed_asks(1)] yields_seq [OF typed_strings(2)]
        yields_seq [OF typed_prims(5)] typed_prims(5)) (simp_all add: typed_data_def)
qed

lemma typed_finalize:
  assumes "typed_os os"
  shows "typed fits_int (daapFinalize os)"
proof -
  have indet: "typed fits_int (asks (\<lambda>w. os_indet os (trace w)))"
    by (rule yieldsI) (use assms in \<open>auto simp: typed_os_def\<close>)
  have report: "typed fits_int (if b then daapLogJobEnd os else ret i)" if "fits_int i" for b i
    by (rule yields_branches typed_job_messages [OF assms] yields_prims(1) that)+
  show ?thesis
    unfolding daapFinalize_def
    by (rule indet report typed_free typed_shutdown typed_prims typed_asks yields_bind yields_seq
        yields_prims(1) | assumption)+
qed

section \<open>Preservation over sessions\<close>

lemma typed_reply:
  "typed fits_int m \<Longrightarrow> returns_int c \<Longrightarrow> typed (typed_result c) (bindC m (\<lambda>r. ret (Some r)))"
  "typed anything n \<Longrightarrow> \<not> returns_int c \<Longrightarrow> typed (typed_result c) (bindC n (\<lambda>u. ret None))"
  by (erule yields_bind; simp add: yields_prims(1) typed_result_def)+

lemma typed_ignored: "typed T m \<Longrightarrow> typed anything (bindC m (\<lambda>r. ret ()))"
  by (erule yields_bind) (rule yields_prims(1), rule TrueI)

lemma typed_set_rank: "fits_int r \<Longrightarrow> typed anything (daapSetRank r)"
  unfolding daapSetRank_def by (rule typed_prims) (simp add: typed_data_def)

lemma typed_exec:
  assumes "typed_os os" and "typed_call c"
  shows "typed (typed_result c) (exec os c)"
proof -
  have read: "typed fits_int (daapLogRead k t n)" for k t n
    unfolding daapLogRead_def by (rule yields_prims(1)) (rule fits_constants)
  have fortran_init: "typed anything (daapinit_F os app len)" for app len
    unfolding daapinit_F_def fortran_call
    by (intro yields_branches yields_prims typed_ignored [OF typed_init] assms)
      (simp_all add: fits_constants c_consts)
  have fortran_write: "typed anything (daaplogwrite_F os m len)" for m len
    unfolding daaplogwrite_F_def fortran_call
    by (intro yields_branches yields_prims typed_ignored [OF typed_writers(1)] assms) simp_all
  note fortran = fortran_init fortran_write typed_ignored [OF typed_job_messages(1) [OF assms(1)]]
    typed_ignored [OF typed_job_messages(2) [OF assms(1)]]
    typed_ignored [OF typed_job_messages(3) [OF assms(1)]]
    typed_ignored [OF typed_job_messages(4) [OF assms(1)]]
    typed_ignored [OF typed_finalize [OF assms(1)]]
  show ?thesis
    using assms
    by (cases c)
      (auto simp: daaplogheartbeat_F_def daaplogjobstart_F_def daaplogjobduration_F_def
        daaplogjobend_F_def daapsetrank_F_def daapfinalize_F_def
        intro!: typed_reply fortran typed_init typed_writers typed_job_messages typed_finalize
        typed_set_rank read)
qed

lemma typed_world0: "typed_world world0"
  by (simp add: typed_world_def typed_data_def typed_ptr_def world0_def init_data0_def
      fits_array_def fits_int_def c_consts)

lemma session_typed: "typed_session os w \<Longrightarrow> typed_os os \<Longrightarrow> typed_world w"
  by (induction rule: typed_session.induct)
    (auto simp: call_iff typed_world0 dest: yieldsD(1) [OF typed_exec])

text \<open>
  C11: Type preservation. From a state that well typed calls have reached, in an environment that
  answers in the types of its prototypes, every well typed call that returns gives a result of
  its prototype (an \<open>int\<close>, or none) and leaves a well typed state: C strings and \<open>int\<close>s in the
  variables, the host name inside its array, every line handed to syslog or to \<open>SSL_write\<close> a C
  string of less than 2048 bytes, every diagnostic within its buffer, every path handed to \<open>access\<close>
  within \<open>PATH_MAX\<close>. A call that ends the process leaves a well typed history. Nothing is
  claimed of a call that faults: well typed calls can, as \<open>ssl_path_overflow\<close> (an array overrun by
  \<open>DAAP_CERTS\<close>) and \<open>message_is_a_format\<close> show, and such runs are not in the session.
\<close>
theorem session_well_typed:
  assumes "typed_os os" and "typed_session os w" and "typed_call c"
  shows "typed_world w \<and>
         (\<forall>r w'. call os w c r w' \<longrightarrow> typed_result c r \<and> typed_world w') \<and>
         (\<forall>n w'. exec os c w = Exits n w' \<longrightarrow> typed_world w')"
  using session_typed [OF assms(2,1)] yieldsD [OF typed_exec [OF assms(1,3)], of w]
  unfolding call_iff by blast

lemma typed_os_rank: "is_cstr r \<Longrightarrow> typed_os (os_rank r)"
  by (auto simp: typed_os_def os_rank_def env_rank_def os_good_def fits_int_def c_consts nul_def
      split: if_splits)

text \<open>The session over syslog that has sent its job start message, and what it does next.\<close>

theorem session_well_typed_witness:
  "\<exists>w w'. delivered (trace w) \<noteq> [] \<and> typed_world w \<and>
     call (os_rank ''0'') w (SetRank 7) None w' \<and> typed_result (SetRank 7) None \<and> typed_world w'"
proof -
  obtain w where run: "call (os_rank ''0'') world0 (Init ''vpic'' 5 0 SYSLOG) (Some DAAP_SUCCESS) w"
    and sent: "delivered (trace w) \<noteq> []"
    by (rule syslog_session)
  have os: "typed_os (os_rank ''0'')" by (rule typed_os_rank) (simp add: nul_def)
  have "typed_call (Init ''vpic'' 5 0 SYSLOG)" by (simp add: fits_int_def c_consts nul_def)
  then have reach: "typed_session (os_rank ''0'') w"
    using typed_session.intros run by blast
  have rank: "typed_call (SetRank 7)" by (simp add: fits_int_def c_consts)
  have "call (os_rank ''0'') w (SetRank 7) None
      (w\<lparr>init_data := (init_data w)\<lparr>mpi_rank := 7\<rparr>\<rparr>)"
    by (rule call.intros) (simp add: daapSetRank_def)
  with session_well_typed [OF os reach rank] sent show ?thesis by blast
qed

end
