(* ===== verification/InitThreads.thy ===== *)
theory InitThreads
  imports Threads
begin

text \<open>
  Several threads that call \<open>daapInit\<close> at the same time. The call is cut into its locked part
  and what follows (\<open>init_step\<close>, one step of a thread from one program point to the next); a
  thread that is not interrupted computes \<open>daapInit\<close>. The discipline \<open>mutex_client\<close> holds for
  \<open>init_mutex\<close> too, and gives: in every interleaving and every environment the library is
  initialised at most once, and whoever is told that it is ready finds it initialised. What
  \<open>init_mutex\<close> does not cover is the rank.
\<close>

section \<open>The program points of daapInit\<close>

datatype init_point =
    Init_locking string int int transport
  | Init_filling string int int transport
  | Init_unlocking int bool
  | Init_ranking int
  | Init_reporting int
  | Init_returned bool int

text \<open>The flag of \<open>Init_returned\<close> tells the thread that filled in the data from the others.\<close>

fun init_step :: "os \<Rightarrow> init_point \<Rightarrow> (world, init_point) cmd" where
  "init_step os (Init_locking app l g tt) =
     seqC (lock Init_mutex) (ret (Init_filling app l g tt))"
| "init_step os (Init_filling app l g tt) =
     bindC (init_locked os app l g tt) (\<lambda>(ret_val, go_on). ret (Init_unlocking ret_val go_on))"
| "init_step os (Init_unlocking ret_val go_on) =
     seqC (unlock Init_mutex)
    (if \<not> go_on then ret (Init_returned False ret_val)
     else if ret_val < 0 then
       seqC (emit (EvPerror ''Fatal error''))
      (exitC 1)
     else ret (Init_ranking ret_val))"
| "init_step os (Init_ranking ret_val) = seqC (find_rank os) (ret (Init_reporting ret_val))"
| "init_step os (Init_reporting ret_val) =
     bindC (asks daapRank_zero) (\<lambda>zero.
     if zero \<and> decouple_off os then
       bindC (daapLogJobStart os) (\<lambda>r. ret (Init_returned True (ret_val + r)))
     else ret (Init_returned True ret_val))"
| "init_step os (Init_returned first ret_val) = ret (Init_returned first ret_val)"

text \<open>A thread alone, from \<open>Init_locking\<close> to \<open>Init_returned\<close> in five steps.\<close>

fun init_steps :: "os \<Rightarrow> nat \<Rightarrow> init_point \<Rightarrow> (world, init_point) cmd" where
  "init_steps os 0 p = ret p"
| "init_steps os (Suc n) p = bindC (init_step os p) (init_steps os n)"

definition result_of :: "init_point \<Rightarrow> int" where
  "result_of p = (case p of Init_returned first r \<Rightarrow> r | _ \<Rightarrow> 0)"

lemma init_steps_returned: "init_steps os n (Init_returned b r) = ret (Init_returned b r)"
  by (induction n) (simp_all add: bindC_ret)

lemma init_steps_compute:
  "bindC (init_steps os 5 (Init_locking app l g tt)) (\<lambda>p. ret (result_of p)) =
     daapInit os app l g tt"
proof (rule ext)
  fix w
  have tail: "bindC (bindC (init_step os (Init_unlocking r go_on)) (init_steps os 2)) (\<lambda>p. ret (result_of p)) v =
      seqC (unlock Init_mutex)
     (if \<not> go_on then ret r
      else if r < 0 then seqC (emit (EvPerror ''Fatal error'')) (exitC 1)
      else
        seqC (find_rank os)
       (bindC (asks daapRank_zero) (\<lambda>zero.
        if zero \<and> decouple_off os then bindC (daapLogJobStart os) (\<lambda>j. ret (r + j)) else ret r))) v"
    for r go_on v
    by (auto simp: numeral_2_eq_2 run_eqs result_of_def exitC_def init_steps_returned split: outcome.split)
  show "bindC (init_steps os 5 (Init_locking app l g tt)) (\<lambda>p. ret (result_of p)) w =
      daapInit os app l g tt w"
  proof (cases "Init_mutex \<in> held w")
    case True
    then show ?thesis by (simp add: daapInit_def numeral_eq_Suc run_eqs)
  next
    case False
    let ?w = "w\<lparr>held := insert Init_mutex (held w)\<rparr>"
    show ?thesis
      using False tail
      by (cases "init_locked os app l g tt ?w")
        (auto simp: daapInit_def eval_nat_numeral bindC_assoc split_beta)
  qed
qed

section \<open>Many threads\<close>

text \<open>Thread \<open>i\<close> of the list takes its next step on the shared state.\<close>

inductive init_run :: "os \<Rightarrow> world \<times> init_point list \<Rightarrow> world \<times> init_point list \<Rightarrow> bool" for os where
  Init_step: "i < length ps \<Longrightarrow> init_step os (ps ! i) w = Ret q v \<Longrightarrow>
     init_run os (w, ps) (v, ps[i := q])"

abbreviation init_reaches ::
  "os \<Rightarrow> world \<times> init_point list \<Rightarrow> world \<times> init_point list \<Rightarrow> bool" where
  "init_reaches os \<equiv> (init_run os)\<^sup>*\<^sup>*"

inductive_cases init_runE: "init_run os (w, ps) (v, qs)"

definition init_start :: "(string \<times> int \<times> int \<times> transport) list \<Rightarrow> init_point list" where
  "init_start cs = map (\<lambda>(app, l, g, tt). Init_locking app l g tt) cs"

section \<open>The discipline of init_mutex\<close>

fun filling :: "init_point \<Rightarrow> bool" where
  "filling (Init_filling app l g tt) = True"
| "filling (Init_unlocking ret_val go_on) = True"
| "filling p = False"

lemma init_step_held:
  assumes "init_step os p w = Ret q v"
  shows "held v =
     (case p of Init_locking app l g tt \<Rightarrow> insert Init_mutex (held w)
              | Init_unlocking r go_on \<Rightarrow> held w - {Init_mutex} | _ \<Rightarrow> held w)"
proof (cases p)
  case (Init_filling app l g tt)
  have "preserves held (init_step os p)"
    unfolding Init_filling init_step.simps by (intro frame init_locked_held)
  with assms Init_filling show ?thesis by (auto dest: preservesD)
next
  case (Init_ranking r)
  have "preserves held (init_step os p)"
    unfolding Init_ranking init_step.simps by (intro frame init_pieces_held)
  with assms Init_ranking show ?thesis by (auto dest: preservesD)
next
  case (Init_reporting r)
  have "preserves held (init_step os p)"
    unfolding Init_reporting init_step.simps by (intro frame writers_held)
  with assms Init_reporting show ?thesis by (auto dest: preservesD)
qed (use assms in \<open>auto simp: run_eqs lock_def exitC_def split: if_splits\<close>)

lemma init_step_filling:
  assumes "init_step os p w = Ret q v"
  shows "filling q \<longleftrightarrow>
     (case p of Init_locking app l g tt \<Rightarrow> True | Init_unlocking r go_on \<Rightarrow> False | _ \<Rightarrow> filling p)"
  using assms
  by (cases p) (auto simp: run_eqs lock_def exitC_def split: if_splits outcome.splits prod.splits)

interpretation initialiser: mutex_client "init_step os" filling Init_mutex for os
proof unfold_locales
  fix p q :: init_point and w w' :: world
  assume step: "init_step os p w = Ret q w'"
  note eqs = init_step_held [OF step] init_step_filling [OF step]
  show "\<not> filling p \<Longrightarrow> filling q \<Longrightarrow> Init_mutex \<notin> held w \<and> Init_mutex \<in> held w'"
    using eqs step by (cases p) (auto simp: seqC_def bindC_def lock_def split: if_splits)
  show "filling p \<Longrightarrow> \<not> filling q \<Longrightarrow> Init_mutex \<notin> held w'"
    using eqs by (cases p) auto
  show "filling q = filling p \<Longrightarrow> (Init_mutex \<in> held w') = (Init_mutex \<in> held w)"
    using eqs by (cases p) auto
qed

section \<open>Initialised once\<close>

text \<open>The thread that filled in the data, from the end of its filling on.\<close>

fun first_here :: "init_point \<Rightarrow> bool" where
  "first_here (Init_unlocking ret_val go_on) = go_on"
| "first_here (Init_ranking ret_val) = True"
| "first_here (Init_reporting ret_val) = True"
| "first_here (Init_returned first ret_val) = first"
| "first_here p = False"

text \<open>A thread that has been told that the library was initialised before its call.\<close>

fun told_ready :: "init_point \<Rightarrow> bool" where
  "told_ready (Init_unlocking ret_val go_on) = (\<not> go_on \<and> ret_val = DAAP_SUCCESS)"
| "told_ready (Init_returned first ret_val) = (\<not> first \<and> ret_val = DAAP_SUCCESS)"
| "told_ready p = False"

lemma init_step_first:
  assumes "init_step os p w = Ret q v"
  shows "(daapInit_called v \<longleftrightarrow> daapInit_called w \<or> first_here q \<and> \<not> first_here p) \<and>
         (first_here p \<longrightarrow> first_here q) \<and>
         (first_here q \<and> \<not> first_here p \<longrightarrow> \<not> daapInit_called w) \<and>
         (told_ready q \<and> \<not> told_ready p \<longrightarrow> daapInit_called w)"
proof (cases p)
  case (Init_filling app l g tt)
  with assms obtain r go_on where lck: "init_locked os app l g tt w = Ret (r, go_on) v"
    and q: "q = Init_unlocking r go_on"
    by (cases "init_locked os app l g tt w") auto
  show ?thesis
  proof (cases "daapInit_called w")
    case True
    with lck have "v = w" "\<not> go_on" by (simp_all add: init_locked_def)
    with True q Init_filling show ?thesis by simp
  next
    case False
    from init_locked_result [OF False lck] q Init_filling False show ?thesis
      by (auto split: if_splits)
  qed
next
  case (Init_ranking r)
  with assms have "find_rank os w = Ret () v" "q = Init_reporting r"
    by (cases "find_rank os w"; simp)+
  with preservesD [OF init_pieces_called(4) this(1)] Init_ranking show ?thesis by simp
next
  case (Init_reporting r)
  have "preserves daapInit_called (init_step os p)"
    unfolding Init_reporting init_step.simps by (intro frame; simp)
  from preservesD [OF this assms] Init_reporting assms show ?thesis
    by (auto simp: run_eqs split: if_splits outcome.splits)
qed (use assms in \<open>auto simp: run_eqs lock_def exitC_def split: if_splits\<close>)

definition once :: "world \<Rightarrow> init_point list \<Rightarrow> bool" where
  "once w ps \<longleftrightarrow>
     length (filter first_here ps) = of_bool (daapInit_called w) \<and>
     (\<forall>p \<in> set ps. told_ready p \<longrightarrow> daapInit_called w) \<and>
     exclusive filling Init_mutex ps w"

lemma once_step:
  assumes "once w ps" and "init_run os (w, ps) (v, qs)"
  shows "once v qs"
proof -
  from assms(2) obtain i q where i: "i < length ps" and step: "init_step os (ps ! i) w = Ret q v"
    and qs: "qs = ps[i := q]" by (rule init_runE)
  note here = init_step_first [OF step]
  have "length (filter first_here qs) = of_bool (daapInit_called v)"
    using length_filter_update [OF i, of first_here q] here assms(1)
    by (auto simp: once_def qs of_bool_def split: if_splits)
  moreover have "daapInit_called v" if "p \<in> set qs" "told_ready p" for p
  proof -
    have "p \<in> set ps \<or> p = q" using that(1) set_update_subset_insert [of ps i q] by (auto simp: qs)
    moreover have "ps ! i \<in> set ps" using i by simp
    ultimately have "daapInit_called w" using that(2) here assms(1) by (auto simp: once_def)
    with here show ?thesis by blast
  qed
  moreover have "exclusive filling Init_mutex qs v"
    using initialiser.exclusive_step [OF _ i step] assms(1) by (simp add: once_def qs)
  ultimately show ?thesis by (simp add: once_def)
qed

lemma init_start_points:
  "p \<in> set (init_start cs) \<Longrightarrow> \<not> first_here p \<and> \<not> told_ready p \<and> \<not> filling p"
  by (auto simp: init_start_def)

lemma once_start:
  assumes "\<not> daapInit_called w" and "Init_mutex \<notin> held w"
  shows "once w (init_start cs)"
proof -
  have "filter first_here (init_start cs) = []" "filter filling (init_start cs) = []"
    using init_start_points [of _ cs] by (auto simp: filter_empty_conv)
  with assms init_start_points [of _ cs] show ?thesis by (auto simp: once_def exclusive_def)
qed

lemma reaches_once:
  assumes "init_reaches os (w, init_start cs) (v, ps)"
    and "\<not> daapInit_called w" and "Init_mutex \<notin> held w"
  shows "once v ps"
proof -
  have "once (fst x) (snd x)" if "init_reaches os (w, init_start cs) x" for x
    using that
  proof (induction rule: rtranclp_induct)
    case base
    show ?case using once_start [OF assms(2,3)] by simp
  next
    case (step x y)
    then show ?case using once_step [of "fst x" "snd x" os "fst y" "snd y"] by simp
  qed
  from this [OF assms(1)] show ?thesis by simp
qed

text \<open>
  C19: However many threads call \<open>daapInit\<close>, in any environment and any interleaving: the library
  is marked as initialised exactly when one thread has filled in the data, no second thread
  ever fills it in, at most one thread is in the locked part, and a thread that returns
  success without having filled in the data finds the library initialised.
\<close>
theorem init_once:
  assumes "init_reaches os (w, init_start cs) (v, ps)"
    and "\<not> daapInit_called w" and "Init_mutex \<notin> held w"
  shows "length (filter first_here ps) = (if daapInit_called v then 1 else 0) \<and>
         length (filter filling ps) \<le> 1 \<and>
         (Init_returned False DAAP_SUCCESS \<in> set ps \<longrightarrow> daapInit_called v)"
proof -
  have "told_ready (Init_returned False DAAP_SUCCESS)" by simp
  then have "Init_returned False DAAP_SUCCESS \<in> set ps \<longrightarrow> daapInit_called v"
    using reaches_once [OF assms] unfolding once_def by blast
  then show ?thesis
    using reaches_once [OF assms] by (simp add: once_def exclusive_def of_bool_def)
qed

text \<open>Two steps of a thread that comes second, and the run of the first up to its rank.\<close>

lemma init_runs:
  assumes "i < length ps" and "init_steps os n (ps ! i) w = Ret q v"
  shows "init_reaches os (w, ps) (v, ps[i := q])"
  using assms
proof (induction n arbitrary: w ps)
  case 0
  then show ?case by (auto simp: list_update_same_conv [THEN iffD2])
next
  case (Suc n)
  from Suc.prems(2) obtain p u where first: "init_step os (ps ! i) w = Ret p u"
    and later: "init_steps os n p u = Ret q v"
    by (auto simp: bindC_def split: outcome.splits)
  have "init_run os (w, ps) (u, ps[i := p])" using Suc.prems(1) first by (rule Init_step)
  also have "init_reaches os (u, ps[i := p]) (v, ps[i := q])"
    using Suc.IH [of "ps[i := p]" u] Suc.prems(1) later by simp
  finally show ?case by blast
qed

text \<open>
  C28: \<open>init_mutex\<close> is released before the rank is read. In a release build with memory, null
  device and a 64-bit clock, with \<open>SLURMD_NODENAME\<close> set, a \<open>DAAP_CERTS\<close> that is not 4080 bytes long, a transport that
  works and tag-safe names, there is an interleaving of two threads that call \<open>daapInit\<close> in which the
  first has not read the rank yet when the second is told that the library is ready; and a message
  that the second then logs (without percent sign, quote or backslash, and short enough for the line)
  arrives, with success, as a line of rank 0, whatever rank the environment gives the process.
\<close>
theorem init_rank_race:
  assumes "\<not> daapInit_called w" and "init_env os host" and "held w = {}"
    and "env_ok os" and "transport_works os tt"
    and "tag_safe app" "tag_safe host" "tag_safe (env_cluster os)"
    and "plain m" "field_safe m" and "fits app host (env_cluster os) 0 m"
  shows "\<exists>v. init_reaches os (w, init_start [(app, l, g, tt), (app', l', g', tt')])
               (v, [Init_ranking DAAP_SUCCESS, Init_returned False DAAP_SUCCESS]) \<and>
             wp (daapLogWrite os m [])
               (\<lambda>r u. r = DAAP_SUCCESS \<and>
                  (\<exists>line. delivered (trace u) = delivered (trace v) @ [line] \<and>
                     reads_as app host (env_cluster os) 0 m line)) v"
proof -
  let ?w = "w\<lparr>held := {Init_mutex}\<rparr>"
  let ?p = "Init_locking app l g tt" and ?p' = "Init_locking app' l' g' tt'"
  obtain v where lck: "init_locked os app l g tt ?w = Ret (DAAP_SUCCESS, True) v"
    and v: "init_post os app host g tt ?w v" "mpi_rank (init_data v) = 0"
    using init_locked_first [of ?w os host app l g tt] assms by (auto simp: wp_iff)
  let ?v = "v\<lparr>held := {}\<rparr>"
  have held: "held v = {Init_mutex}" and called: "daapInit_called v"
    using v(1) by (simp_all add: init_post_def)
  then have one: "init_steps os 3 ?p w = Ret (Init_ranking DAAP_SUCCESS) ?v"
    using lck assms(3) by (simp add: numeral_3_eq_3 DAAP_SUCCESS_def)
  have two: "init_steps os 3 ?p' ?v = Ret (Init_returned False DAAP_SUCCESS) ?v"
    using called by (simp add: numeral_3_eq_3 init_locked_def)
  have "init_reaches os (w, [?p, ?p']) (?v, [Init_ranking DAAP_SUCCESS, ?p'])"
    using init_runs [of 0 "[?p, ?p']" os 3 w] one by simp
  also have "init_reaches os (?v, [Init_ranking DAAP_SUCCESS, ?p'])
      (?v, [Init_ranking DAAP_SUCCESS, Init_returned False DAAP_SUCCESS])"
    using init_runs [of 1 "[Init_ranking DAAP_SUCCESS, ?p']" os 3 ?v] two by simp
  finally have run: "init_reaches os (w, [?p, ?p'])
      (?v, [Init_ranking DAAP_SUCCESS, Init_returned False DAAP_SUCCESS])" .
  have ready: "session_ready app host (env_cluster os) ?v"
    and tt: "transport_works os (transport_type (init_data ?v))" "Write_mutex \<notin> held ?v"
    and zero: "mpi_rank (init_data ?v) = 0"
    using v assms(5) by (simp_all add: init_post_def session_ready_def c_consts)
  have "fits app host (env_cluster os) (mpi_rank (init_data ?v)) m" using assms(11) zero by simp
  from job_write [OF assms(4,6-8) ready tt assms(9,10) this]
  obtain u line where "daapLogWrite os m [] ?v = Ret DAAP_SUCCESS u"
    and "delivered (trace u) = delivered (trace ?v) @ [line]"
    and "reads_as app host (env_cluster os) 0 m line"
    using zero by metis
  then have "wp (daapLogWrite os m []) (\<lambda>r u. r = DAAP_SUCCESS \<and>
      (\<exists>line. delivered (trace u) = delivered (trace ?v) @ [line] \<and>
         reads_as app host (env_cluster os) 0 m line)) ?v"
    by (simp add: wp_def)
  with run show ?thesis unfolding init_start_def by auto
qed

theorem init_rank_race_witness:
  "rank_value (os_rank ''7'') = Some 7 \<and>
   (\<exists>v. init_reaches (os_rank ''7'') (world0, init_start [(''vpic'', 5, 0, TCP), (''vpic'', 5, 0, TCP)])
          (v, [Init_ranking DAAP_SUCCESS, Init_returned False DAAP_SUCCESS]) \<and>
        wp (daapLogWrite (os_rank ''7'') ''step 1'' [])
          (\<lambda>r u. r = DAAP_SUCCESS \<and>
             (\<exists>line. delivered (trace u) = delivered (trace v) @ [line] \<and>
                reads_as ''vpic'' ''nid00042'' ''trinity'' 0 ''step 1'' line)) v)"
  using init_rank_race [of world0 "os_rank ''7''" "''nid00042''" TCP "''vpic''" "''step 1''" 5 0
      "''vpic''" 5 0 TCP]
  by (simp add: transport_works_def fits_def influx_head_def dec_int_def dec.simps max_size_def)

theorem init_once_witness:
  "\<exists>v. init_reaches (os_rank ''7'') (world0, init_start [(''vpic'', 5, 0, TCP), (''vpic'', 5, 0, TCP)])
         (v, [Init_locking ''vpic'' 5 0 TCP, Init_filling ''vpic'' 5 0 TCP]) \<and>
       \<not> daapInit_called v \<and>
       length (filter first_here [Init_locking ''vpic'' 5 0 TCP, Init_filling ''vpic'' 5 0 TCP]) = 0"
proof -
  let ?v = "world0\<lparr>held := {Init_mutex}\<rparr>"
  have "init_steps (os_rank ''7'') 1 (Init_locking ''vpic'' 5 0 TCP) world0 =
      Ret (Init_filling ''vpic'' 5 0 TCP) ?v" by simp
  then have "init_reaches (os_rank ''7'') (world0, init_start [(''vpic'', 5, 0, TCP), (''vpic'', 5, 0, TCP)])
         (?v, [Init_locking ''vpic'' 5 0 TCP, Init_filling ''vpic'' 5 0 TCP])"
    using init_runs [of 1 "[Init_locking ''vpic'' 5 0 TCP, Init_locking ''vpic'' 5 0 TCP]"
        "os_rank ''7''" 1 world0] by (simp add: init_start_def)
  with init_once [OF this] show ?thesis by (intro exI [of _ ?v]) simp
qed

end
