(* ===== verification/Templates.thy ===== *)
theory Templates
  imports World
begin

text \<open>
  \<open>src/stdout_parser.c\<close>, the two template files: \<open>parseKeyTemplate\<close>, one regular expression per
  line, and \<open>parseTableTemplate\<close>, blocks of \<open>key=value\<close> lines between \<open>===table===\<close> and
  \<open>===end_table===\<close>. Files are a function from paths to contents (\<open>None\<close> when \<open>fopen\<close>
  fails); the PCRE library is a parameter. Character arrays keep all their bytes, because
  \<open>strncpy\<close> stores no terminator here and an older, longer value shows through.

  The lemmas: what the compiled list is for a template without blank lines, and what a template
  of several table blocks parses to, the names of a block stored behind those of the blocks
  before it; the fault that a blank line causes, the array bounds and the bound on blocks.
\<close>

section \<open>Constants, tables, regular expressions\<close>

definition LINE_LEN :: nat where "LINE_LEN = 512"
definition MAX_TABLES :: nat where "MAX_TABLES = 10"
definition MAX_HEADERS :: nat where "MAX_HEADERS = 10"
definition MAX_COLS :: nat where "MAX_COLS = 10"
definition MAX_VALS :: nat where "MAX_VALS = 20"
definition OVECCOUNT :: nat where "OVECCOUNT = 30"
definition MAX_KEY_REGEXES :: nat where "MAX_KEY_REGEXES = 1000"

lemmas parser_consts [c_consts] =
  LINE_LEN_def MAX_TABLES_def MAX_HEADERS_def MAX_COLS_def MAX_VALS_def OVECCOUNT_def
  MAX_KEY_REGEXES_def

record table_t =
  sep :: string
  val_sep :: string
  num_headers :: nat
  header_names :: "string list"
  cols :: int
  val_names :: "string list"
  num_vals :: int
  headers_found :: nat

text \<open>The memory of a table after \<open>calloc\<close>.\<close>

definition line0 :: string where
  "line0 = replicate LINE_LEN nul"

definition table0 :: table_t where
  "table0 =
     \<lparr>sep = line0, val_sep = line0, num_headers = 0,
      header_names = replicate MAX_HEADERS line0, cols = 0,
      val_names = replicate MAX_VALS line0, num_vals = 0, headers_found = 0\<rparr>"

text \<open>
  PCRE: \<open>pcre_compile\<close> gives an error offset and text or a compiled pattern; \<open>pcre_exec\<close> gives
  its return value and the pairs of offsets it wrote to the output vector.
\<close>

record 're pcre =
  pcre_compile :: "string \<Rightarrow> (int \<times> string) + 're"
  pcre_exec :: "'re \<Rightarrow> string \<Rightarrow> int \<times> (int \<times> int) list"

type_synonym files = "string \<Rightarrow> string option"

section \<open>Trailing line ends\<close>

definition is_eol :: "char \<Rightarrow> bool" where
  "is_eol c = (c = newline \<or> c = carriage_return)"

text \<open>
  The loop that removes trailing line ends starts at the end of the line; on a line of
  nothing else it goes on to the byte before the array.
\<close>

definition chomp :: "string \<Rightarrow> (world, string) cmd" where
  "chomp line =
     (let s = rev (dropWhile is_eol (rev line))
      in if s = [] then faultC OutOfBounds else ret s)"

section \<open>The key template\<close>

definition key_line :: "'re pcre \<Rightarrow> os \<Rightarrow> bool \<Rightarrow> string \<Rightarrow> 're list \<Rightarrow> (world, 're list) cmd" where
  "key_line re os array raw keys =
     (if cstr raw = [] then ret keys
      else
        bindC (chomp (cstr raw)) (\<lambda>line.
        if line = [] then ret keys
        else
          case pcre_compile re line of
            Inl (erroffset, err) \<Rightarrow>
              seqC (ERROR_OUTPUT os U_parser ''Failed to compile regex at offset: %d : %s''
                      [IntArg (word_of_int erroffset), StrArg err])
             (ret keys)
          | Inr r \<Rightarrow>
              seqC (emit EvCompile)
             (if \<not> array then faultC NullDeref
              else if MAX_KEY_REGEXES \<le> length keys then faultC OutOfBounds
              else ret (keys @ [r]))))"

text \<open>The result is the return value and the compiled patterns.\<close>

definition parseKeyTemplate ::
  "'re pcre \<Rightarrow> os \<Rightarrow> files \<Rightarrow> bool \<Rightarrow> string \<Rightarrow> (world, int \<times> 're list) cmd" where
  "parseKeyTemplate re os fs array path =
     (case fs path of
        None \<Rightarrow>
          seqC (ERROR_OUTPUT os U_parser ''Failed to open key template file: %s'' [StrArg path])
         (ret (-1, []))
      | Some content \<Rightarrow>
          seqC (emit (EvFopen path))
         (bindC (foldC (key_line re os array) (fgets_all LINE_LEN content) []) (\<lambda>keys.
          seqC (emit EvFclose)
         (ret (0, keys)))))"

section \<open>The table template\<close>

definition has :: "string \<Rightarrow> string \<Rightarrow> bool" where
  "has line key = (strstr line key \<noteq> None)"

text \<open>The value is taken from a fixed offset, wherever in the line the key was found.\<close>

definition copy_value :: "string \<Rightarrow> string \<Rightarrow> nat \<Rightarrow> string" where
  "copy_value dst line tkey_len = strncpy dst (drop tkey_len line) (length line - tkey_len)"

definition table_sep_line :: "string \<Rightarrow> table_t \<Rightarrow> table_t" where
  "table_sep_line line t =
     (if has line ''table_sep='' then t\<lparr>sep := copy_value (sep t) line 10\<rparr> else t)"

definition header_line :: "string \<Rightarrow> table_t \<Rightarrow> table_t" where
  "header_line line t =
     (if has line ''header='' \<and> num_headers t < MAX_HEADERS then
        let n = num_headers t in
        t\<lparr>header_names := (header_names t)[n := copy_value (header_names t ! n) line 7],
          num_headers := n + 1\<rparr>
      else t)"

definition val_name_line :: "string \<Rightarrow> table_t \<times> nat \<Rightarrow> table_t \<times> nat" where
  "val_name_line line tv =
     (case tv of
        (t, vals_found) \<Rightarrow>
          if has line ''val_name='' \<and> vals_found < MAX_VALS then
            (t\<lparr>val_names := (val_names t)[vals_found := copy_value (val_names t ! vals_found) line 9]\<rparr>,
             vals_found + 1)
          else (t, vals_found))"

definition number_line ::
  "string \<Rightarrow> string \<Rightarrow> (int \<Rightarrow> table_t \<Rightarrow> table_t) \<Rightarrow> table_t \<Rightarrow> (world, table_t) cmd" where
  "number_line key line store t =
     (if has line key then
        case atoi (drop (length key) line) of
          None \<Rightarrow> faultC IntOverflow
        | Some n \<Rightarrow> ret (store n t)
      else ret t)"

definition val_sep_line :: "string \<Rightarrow> table_t \<Rightarrow> table_t" where
  "val_sep_line line t =
     (if has line ''val_sep='' then t\<lparr>val_sep := copy_value (val_sep t) line 8\<rparr> else t)"

text \<open>A line inside a table block.\<close>

definition block_line :: "string \<Rightarrow> table_t \<times> nat \<Rightarrow> (world, table_t \<times> nat) cmd" where
  "block_line line tv =
     (case val_name_line line (header_line line (table_sep_line line (fst tv)), snd tv) of
        (t1, vals_found) \<Rightarrow>
          bindC (number_line ''cols='' line (\<lambda>n t. t\<lparr>cols := n\<rparr>) t1) (\<lambda>t2.
          bindC (number_line ''num_vals='' line (\<lambda>n t. t\<lparr>num_vals := n\<rparr>) t2) (\<lambda>t3.
          ret (val_sep_line line t3, vals_found))))"

text \<open>
  The state of the parser between lines: the tables (\<open>None\<close> for one whose \<open>calloc\<close> failed),
  whether it is in a block, the value names so far. \<open>touches\<close> says whether a line makes the
  code follow the pointer to the current table.
\<close>

record template_state =
  tables :: "table_t option list"
  in_table :: bool
  vals_found :: nat

definition touches :: "string \<Rightarrow> nat \<Rightarrow> bool" where
  "touches line vf \<longleftrightarrow>
     has line ''table_sep='' \<or> has line ''header='' \<or> has line ''val_name='' \<and> vf < MAX_VALS \<or>
     has line ''cols='' \<or> has line ''num_vals='' \<or> has line ''val_sep=''"

definition table_line ::
  "os \<Rightarrow> bool \<Rightarrow> string \<Rightarrow> template_state \<Rightarrow> (world, template_state) cmd" where
  "table_line os array raw st =
     (if cstr raw = [] then ret st
      else
        bindC (chomp (cstr raw)) (\<lambda>line.
        if \<not> in_table st then
          if has line ''===table==='' then
            bindC (alloc os 16400) (\<lambda>ok.
            if \<not> array then faultC NullDeref
            else if MAX_TABLES \<le> length (tables st) then faultC OutOfBounds
            else ret (st\<lparr>tables := tables st @ [if ok then Some table0 else None],
                         in_table := True\<rparr>))
          else ret st
        else
          bindC (case last (tables st) of
                   None \<Rightarrow>
                     if touches line (vals_found st) then faultC NullDeref
                     else ret (None, vals_found st)
                 | Some t \<Rightarrow>
                     bindC (block_line line (t, vals_found st)) (\<lambda>(t', vf). ret (Some t', vf)))
            (\<lambda>(t, vf).
          ret (st\<lparr>tables := butlast (tables st) @ [t], vals_found := vf,
                  in_table := \<not> has line ''===end_table==='' \<rparr>))))"

definition parseTableTemplate ::
  "os \<Rightarrow> files \<Rightarrow> bool \<Rightarrow> string \<Rightarrow> (world, int \<times> table_t option list) cmd" where
  "parseTableTemplate os fs array path =
     (case fs path of
        None \<Rightarrow>
          seqC (ERROR_OUTPUT os U_parser ''Failed to open table template file: %s'' [StrArg path])
         (ret (-1, []))
      | Some content \<Rightarrow>
          seqC (emit (EvFopen path))
         (bindC (foldC (table_line os array) (fgets_all LINE_LEN content)
                   \<lparr>tables = [], in_table = False, vals_found = 0\<rparr>) (\<lambda>st.
          seqC (emit EvFclose)
         (ret (0, tables st)))))"

section \<open>Lines of a template\<close>

text \<open>A line that the parsers take as it stands.\<close>

definition template_text :: "string \<Rightarrow> bool" where
  "template_text l \<longleftrightarrow>
     l \<noteq> [] \<and> length l < 511 \<and> newline \<notin> set l \<and> nul \<notin> set l \<and> \<not> is_eol (last l)"

lemma template_text_cstr: "template_text l \<Longrightarrow> cstr (l @ [newline]) = l @ [newline]"
  by (simp add: template_text_def cstr_id is_cstr_def newline_def nul_def)

lemma chomp_line: "template_text l \<Longrightarrow> chomp (l @ [newline]) = ret l"
  by (cases l rule: rev_cases) (auto simp: template_text_def chomp_def is_eol_def)

lemma fgets_template:
  "\<forall>l \<in> set ls. template_text l \<Longrightarrow>
     fgets_all LINE_LEN (unlines ls) = map (\<lambda>l. l @ [newline]) ls"
  using fgets_all_lines [of ls LINE_LEN "[]"]
  by (simp add: template_text_def LINE_LEN_def)

text \<open>A line of nothing but line ends makes \<open>chomp\<close> read before the array.\<close>

definition blank :: "string \<Rightarrow> bool" where
  "blank raw \<longleftrightarrow> cstr raw \<noteq> [] \<and> (\<forall>c \<in> set (cstr raw). is_eol c)"

lemma chomp_blank: "blank raw \<Longrightarrow> chomp (cstr raw) = faultC OutOfBounds"
  by (simp add: blank_def chomp_def dropWhile_eq_Nil_conv)

lemma foldC_faults:
  assumes "x \<in> set xs" and "\<And>a s. f x a s = Faults y"
  shows "\<nexists>a' s'. foldC f xs a s = Ret a' s'"
  using assms(1)
proof (induction xs arbitrary: a s)
  case (Cons z zs)
  show ?case
  proof (cases "z = x")
    case True
    then show ?thesis using assms(2) by simp
  next
    case False
    with Cons have "x \<in> set zs" by simp
    with Cons.IH show ?thesis by (cases "f z a s") auto
  qed
qed simp

section \<open>The key template\<close>

lemma compile_error_printed:
  assumes "Print_mutex U_parser \<notin> held w"
  shows "wp (ERROR_OUTPUT os U_parser ''Failed to compile regex at offset: %d : %s''
      [IntArg i, StrArg e]) (\<lambda>_ w'. held w' = held w) w"
proof -
  have "deformat ''Failed to compile regex at offset: %d : %s'' [IntArg i, StrArg e] \<noteq> None"
    by (simp add: deformat_def format.simps directive_def strip_prefix_def)
  with assms show ?thesis
    by (auto simp: output_defs wp_eqs split: option.split)
qed

lemma key_lines:
  assumes "\<forall>l \<in> set ls. template_text l" and "length keys + length ls \<le> MAX_KEY_REGEXES"
    and "Print_mutex U_parser \<notin> held w"
  shows "wp (foldC (key_line re os True) (map (\<lambda>l. l @ [newline]) ls) keys)
           (\<lambda>ks w'. ks = keys @ concat (map (\<lambda>l. case pcre_compile re l of Inl e \<Rightarrow> [] | Inr r \<Rightarrow> [r]) ls) \<and>
              held w' = held w) w"
  using assms
proof (induction ls arbitrary: keys w)
  case Nil
  then show ?case by (simp add: wp_eqs)
next
  case (Cons l ls)
  then have l: "template_text l" by simp
  then have ne: "l \<noteq> []" by (simp add: template_text_def)
  show ?case
  proof (cases "pcre_compile re l")
    case (Inr r)
    with l ne Cons.prems have "key_line re os True (l @ [newline]) keys w =
        Ret (keys @ [r]) (w\<lparr>trace := trace w @ [EvCompile]\<rparr>)"
      by (simp add: key_line_def template_text_cstr chomp_line)
    with Cons.IH [of "keys @ [r]" "w\<lparr>trace := trace w @ [EvCompile]\<rparr>"] Cons.prems Inr show ?thesis by (auto simp: wp_iff)
  next
    case (Inl e)
    obtain i t where e: "e = (i, t)" by fastforce
    obtain u where u: "ERROR_OUTPUT os U_parser ''Failed to compile regex at offset: %d : %s''
        [IntArg (word_of_int i), StrArg t] w = Ret () u" "held u = held w"
      using compile_error_printed [OF Cons.prems(3), of os "word_of_int i" t] by (auto simp: wp_iff)
    with l ne Inl e have "key_line re os True (l @ [newline]) keys w = Ret keys u"
      by (simp add: key_line_def template_text_cstr chomp_line)
    with Cons.IH [of keys u] Cons.prems Inl u show ?thesis by (auto simp: wp_iff)
  qed
qed

text \<open>
  For a key template of at most 1000 non-blank lines, \<open>parseKeyTemplate\<close> returns the
  compiled patterns in the order of the lines, leaves out (with a diagnostic) exactly the
  lines that do not compile, and releases its mutex.
\<close>
lemma key_template_compiles:
  assumes "fs path = Some (unlines ls)" and "\<forall>l \<in> set ls. template_text l"
    and "length ls \<le> MAX_KEY_REGEXES" and "Print_mutex U_parser \<notin> held w"
  shows "wp (parseKeyTemplate re os fs True path)
           (\<lambda>(r, keys) w'. r = 0 \<and> held w' = held w \<and>
              keys = concat (map (\<lambda>l. case pcre_compile re l of Inl e \<Rightarrow> [] | Inr r \<Rightarrow> [r]) ls)) w"
  using key_lines [of ls "[]" "w\<lparr>trace := trace w @ [EvFopen path]\<rparr>" re os] assms
  by (auto simp: parseKeyTemplate_def fgets_template wp_iff)

text \<open>A regular expression library that accepts words and keeps them as they are.\<close>

definition re_words :: "string pcre" where
  "re_words =
     \<lparr>pcre_compile = (\<lambda>p. if CHR ''('' \<in> set p then Inl (0, ''missing )'') else Inr p),
      pcre_exec = (\<lambda>p s. if has s p then (3, [(0, 0), (0, 1), (1, 2)]) else (-1, []))\<rparr>"

lemma key_template_compiles_witness:
  "wp (parseKeyTemplate re_words os_good (\<lambda>p. Some (unlines [''ec'', ''(me'', ''eps''])) True ''keys'')
     (\<lambda>(r, keys) w'. r = 0 \<and> held w' = {} \<and> keys = [''ec'', ''eps'']) world0"
  using key_template_compiles [of "\<lambda>p. Some (unlines [''ec'', ''(me'', ''eps''])" "''keys''"
      "[''ec'', ''(me'', ''eps'']" world0 re_words os_good]
  by (simp add: template_text_def newline_def nul_def is_eol_def carriage_return_def
      MAX_KEY_REGEXES_def re_words_def world0_def)

section \<open>Blank lines\<close>

text \<open>
  C36: A blank line in a template file, which the files shipped with the program contain, makes
  both template parsers read the byte before their line array: neither returns.
\<close>
theorem blank_line_overruns:
  assumes "fs path = Some content" and "raw \<in> set (fgets_all LINE_LEN content)" and "blank raw"
  shows "(\<nexists>r w'. parseKeyTemplate re os fs array path w = Ret r w') \<and>
         (\<nexists>r w'. parseTableTemplate os fs array path w = Ret r w')"
proof -
  have "key_line re os array raw keys s = Faults OutOfBounds" for keys s
    using assms(3) chomp_blank [OF assms(3)] by (simp add: key_line_def blank_def)
  note keys = foldC_faults [OF assms(2), of "key_line re os array", OF this, of "[]" "w\<lparr>trace := trace w @ [EvFopen path]\<rparr>"]
  have "table_line os array raw st s = Faults OutOfBounds" for st s
    using assms(3) chomp_blank [OF assms(3)] by (simp add: table_line_def blank_def)
  note tables = foldC_faults [OF assms(2), of "table_line os array", OF this,
      of "\<lparr>tables = [], in_table = False, vals_found = 0\<rparr>" "w\<lparr>trace := trace w @ [EvFopen path]\<rparr>"]
  show ?thesis
    using keys tables assms(1)
    by (auto simp: parseKeyTemplate_def parseTableTemplate_def bindC_def split: outcome.splits)
qed

theorem blank_line_overruns_witness:
  "(\<nexists>r w'. parseKeyTemplate re_words os_good (\<lambda>p. Some [newline]) True ''keys'' world0 = Ret r w') \<and>
   (\<nexists>r w'. parseTableTemplate os_good (\<lambda>p. Some [newline]) True ''keys'' world0 = Ret r w')"
proof (rule blank_line_overruns [of _ _ "[newline]" "[newline]"])
  show "[newline] \<in> set (fgets_all LINE_LEN [newline])"
    using fgets_all_lines [of "[[]]" LINE_LEN "[]"] by (simp add: unlines_def LINE_LEN_def)
qed (simp_all add: blank_def is_eol_def cstr_def newline_def nul_def)

section \<open>A table block\<close>

text \<open>A line \<open>base=value\<close>, and where the keys of the parser, which all end in the equals sign, occur in it.\<close>

definition entry :: "string \<Rightarrow> string \<Rightarrow> string" where
  "entry b v = b @ CHR ''='' # v"

lemma sublist_entry:
  assumes "CHR ''='' \<notin> set v" and "CHR ''='' \<notin> set b"
  shows "sublist (k @ [CHR ''='']) (b @ CHR ''='' # v) \<longleftrightarrow> suffix k b"
proof
  assume "sublist (k @ [CHR ''='']) (b @ CHR ''='' # v)"
  then obtain p s where eq: "b @ CHR ''='' # v = (p @ k) @ CHR ''='' # s"
    by (auto simp: sublist_def)
  have "CHR ''='' \<notin> set (p @ k)"
  proof
    assume "CHR ''='' \<in> set (p @ k)"
    then have "2 \<le> length (filter (\<lambda>c. c = CHR ''='') ((p @ k) @ CHR ''='' # s))"
      by (auto simp: filter_empty_conv Suc_le_eq simp flip: length_greater_0_conv)
    also have "\<dots> = length (filter (\<lambda>c. c = CHR ''='') (b @ CHR ''='' # v))" by (simp only: eq)
    also have "\<dots> = 1" using assms by (auto simp: filter_empty_conv)
    finally show False by simp
  qed
  then have "b = p @ k" using eq assms
    by (metis append_Cons_eq_iff)
  then show "suffix k b" by (simp add: suffix_def)
next
  assume "suffix k b"
  then obtain p where "b = p @ k" by (auto simp: suffix_def)
  then have "b @ CHR ''='' # v = p @ (k @ [CHR ''='']) @ v" by simp
  then show "sublist (k @ [CHR ''='']) (b @ CHR ''='' # v)" by (metis sublist_appendI)
qed

lemma has_entry:
  assumes "CHR ''='' \<notin> set v" and "CHR ''='' \<notin> set b"
  shows "has (entry b v) ''table_sep='' = suffix ''table_sep'' b"
    "has (entry b v) ''header='' = suffix ''header'' b"
    "has (entry b v) ''val_name='' = suffix ''val_name'' b"
    "has (entry b v) ''cols='' = suffix ''cols'' b"
    "has (entry b v) ''num_vals='' = suffix ''num_vals'' b"
    "has (entry b v) ''val_sep='' = suffix ''val_sep'' b"
  using sublist_entry [OF assms, of "''table_sep''"] sublist_entry [OF assms, of "''header''"]
    sublist_entry [OF assms, of "''val_name''"] sublist_entry [OF assms, of "''cols''"]
    sublist_entry [OF assms, of "''num_vals''"] sublist_entry [OF assms, of "''val_sep''"]
  by (simp_all add: has_def entry_def strstr_None_iff del: not_None_eq)

lemma has_end_marker:
  assumes "CHR ''='' \<notin> set v" and "CHR ''='' \<notin> set b"
  shows "\<not> has (entry b v) ''===end_table===''"
proof
  assume "has (entry b v) ''===end_table===''"
  then have "sublist ''===end_table==='' (b @ CHR ''='' # v)"
    by (metis has_def entry_def strstr_None_iff)
  then obtain p s where eq: "b @ CHR ''='' # v = p @ ''===end_table==='' @ s"
    by (auto simp: sublist_def)
  have "6 \<le> length (filter (\<lambda>c. c = CHR ''='') (p @ ''===end_table==='' @ s))" by simp
  also have "\<dots> = length (filter (\<lambda>c. c = CHR ''='') (b @ CHR ''='' # v))" by (simp only: eq)
  also have "\<dots> = 1" using assms by (auto simp: filter_empty_conv)
  finally show False by simp
qed

lemma drop_entry: "n = Suc (length b) \<Longrightarrow> drop n (entry b v) = v"
  by (simp add: entry_def)

lemma length_entry: "length (entry b v) = Suc (length b) + length v"
  by (simp add: entry_def)

text \<open>The array that a value leaves in fresh memory.\<close>

definition stored :: "string \<Rightarrow> string" where
  "stored v = strncpy line0 v (length v)"

lemma copy_entry: "n = Suc (length b) \<Longrightarrow> copy_value line0 (entry b v) n = stored v"
  by (simp add: copy_value_def drop_entry length_entry stored_def)

lemma cstr_stored: "is_cstr v \<Longrightarrow> length v < 512 \<Longrightarrow> cstr (stored v) = v"
  unfolding stored_def line0_def LINE_LEN_def by (subst cstr_strncpy_fresh) simp_all

text \<open>What each kind of line does to a table.\<close>

definition value_ok :: "string \<Rightarrow> bool" where
  "value_ok v \<longleftrightarrow>
     length v < 500 \<and> set v \<inter> {CHR ''='', newline, carriage_return, nul} = {}"

lemma block_lines:
  assumes "value_ok v"
  shows "sep t = line0 \<Longrightarrow>
      block_line (entry ''table_sep'' v) (t, n) = ret (t\<lparr>sep := stored v\<rparr>, n)"
    "num_headers t < MAX_HEADERS \<Longrightarrow> header_names t ! num_headers t = line0 \<Longrightarrow>
      block_line (entry ''header'' v) (t, n) =
        ret (t\<lparr>header_names := (header_names t)[num_headers t := stored v],
               num_headers := num_headers t + 1\<rparr>, n)"
    "n < MAX_VALS \<Longrightarrow> val_names t ! n = line0 \<Longrightarrow>
      block_line (entry ''val_name'' v) (t, n) =
        ret (t\<lparr>val_names := (val_names t)[n := stored v]\<rparr>, n + 1)"
    "val_sep t = line0 \<Longrightarrow>
      block_line (entry ''val_sep'' v) (t, n) = ret (t\<lparr>val_sep := stored v\<rparr>, n)"
    "atoi v = Some i \<Longrightarrow> block_line (entry ''cols'' v) (t, n) = ret (t\<lparr>cols := i\<rparr>, n)"
    "atoi v = Some i \<Longrightarrow> block_line (entry ''num_vals'' v) (t, n) = ret (t\<lparr>num_vals := i\<rparr>, n)"
  using assms
  by (auto simp: value_ok_def block_line_def table_sep_line_def header_line_def val_name_line_def
      number_line_def val_sep_line_def has_entry suffix_to_prefix drop_entry copy_entry fun_eq_iff
      bindC_def Let_def)

section \<open>A whole table template\<close>

text \<open>One block of the template file, and its lines.\<close>

record table_spec =
  spec_sep :: string
  spec_headers :: "string list"
  spec_cols :: int
  spec_val_sep :: string
  spec_num_vals :: int
  spec_names :: "string list"

definition spec_ok :: "table_spec \<Rightarrow> bool" where
  "spec_ok b \<longleftrightarrow>
     (\<forall>v \<in> set ([spec_sep b, spec_val_sep b] @ spec_headers b @ spec_names b). value_ok v) \<and>
     length (spec_headers b) \<le> MAX_HEADERS \<and>
     INT_MIN \<le> spec_cols b \<and> spec_cols b \<le> INT_MAX \<and>
     INT_MIN \<le> spec_num_vals b \<and> spec_num_vals b \<le> INT_MAX"

definition render_table :: "table_spec \<Rightarrow> string list" where
  "render_table b =
     [''===table==='', entry ''table_sep'' (spec_sep b)] @ map (entry ''header'') (spec_headers b) @
     [entry ''cols'' (dec_int (spec_cols b)), entry ''val_sep'' (spec_val_sep b),
      entry ''num_vals'' (dec_int (spec_num_vals b))] @
     map (entry ''val_name'') (spec_names b) @ [''===end_table==='']"

definition render_tables :: "table_spec list \<Rightarrow> string list" where
  "render_tables bs = concat (map render_table bs)"

abbreviation between :: "table_t option list \<Rightarrow> nat \<Rightarrow> template_state" where
  "between pre n \<equiv> \<lparr>tables = pre, in_table = False, vals_found = n\<rparr>"

abbreviation at_table :: "table_t option list \<Rightarrow> table_t \<Rightarrow> nat \<Rightarrow> template_state" where
  "at_table pre t n \<equiv> \<lparr>tables = pre @ [Some t], in_table = True, vals_found = n\<rparr>"

lemma entry_text:
  assumes "value_ok v" and "template_text (b @ [CHR ''=''])" and "length b < 10"
  shows "template_text (entry b v)"
  using assms
  by (auto simp: template_text_def value_ok_def entry_def is_eol_def last_append disjoint_iff
      dest: last_in_set)

lemma keyword_text [simp]:
  "template_text ''===table===''" "template_text ''===end_table===''"
  "template_text ''table_sep=''" "template_text ''header=''" "template_text ''cols=''"
  "template_text ''val_sep=''" "template_text ''num_vals=''" "template_text ''val_name=''"
  by (simp_all add: template_text_def newline_def nul_def is_eol_def carriage_return_def)

lemma entries_text:
  assumes "value_ok v"
  shows "template_text (entry ''table_sep'' v)" "template_text (entry ''header'' v)"
    "template_text (entry ''cols'' v)" "template_text (entry ''val_sep'' v)"
    "template_text (entry ''num_vals'' v)" "template_text (entry ''val_name'' v)"
  by (rule entry_text [OF assms]; simp)+

lemma template_line:
  assumes "template_text l" and "\<not> has l ''===end_table===''"
    and "block_line l (t, n) = ret (t', n')"
  shows "table_line os True (l @ [newline]) (at_table pre t n) = ret (at_table pre t' n')"
proof -
  from assms(1) have "l \<noteq> []" by (simp add: template_text_def)
  with assms show ?thesis
    by (auto simp: table_line_def template_text_cstr chomp_line fun_eq_iff)
qed

lemma value_okD: "value_ok v \<Longrightarrow> CHR ''='' \<notin> set v"
  by (auto simp: value_ok_def)

lemma header_lines:
  assumes "\<forall>v \<in> set hs. value_ok v" and "length hs0 + length hs \<le> 10"
    and "t = t0\<lparr>header_names := map stored hs0 @ replicate (10 - length hs0) line0,
                num_headers := length hs0\<rparr>"
  shows "foldC (table_line os True) (map (\<lambda>v. entry ''header'' v @ [newline]) hs) (at_table pre t n) w =
           Ret (at_table pre (t\<lparr>header_names := map stored (hs0 @ hs) @
                               replicate (10 - length (hs0 @ hs)) line0,
                            num_headers := length (hs0 @ hs)\<rparr>) n) w"
  using assms
proof (induction hs arbitrary: hs0 t)
  case Nil
  then show ?case by simp
next
  case (Cons v hs)
  let ?t = "t\<lparr>header_names := map stored (hs0 @ [v]) @ replicate (10 - length (hs0 @ [v])) line0,
              num_headers := length (hs0 @ [v])\<rparr>"
  obtain k where k: "10 - length hs0 = Suc k" using Cons.prems(2) by (cases "10 - length hs0") auto
  then have "10 - length (hs0 @ [v]) = k" by simp
  with k have upd: "t\<lparr>header_names := (header_names t)[num_headers t := stored v],
      num_headers := num_headers t + 1\<rparr> = ?t"
    by (simp add: Cons.prems(3) list_update_append)
  have fresh: "num_headers t < MAX_HEADERS" "header_names t ! num_headers t = line0"
    using Cons.prems k by (simp_all add: MAX_HEADERS_def nth_append)
  have v: "value_ok v" using Cons.prems(1) by simp
  have "block_line (entry ''header'' v) (t, n) = ret (?t, n)"
    unfolding block_lines(2) [OF v fresh] upd by simp
  then have step: "table_line os True (entry ''header'' v @ [newline]) (at_table pre t n) =
      ret (at_table pre ?t n)"
    using has_end_marker [OF value_okD [OF v]] entries_text(2) [OF v]
    by (intro template_line) simp_all
  have "foldC (table_line os True) (map (\<lambda>v. entry ''header'' v @ [newline]) hs) (at_table pre ?t n) w =
      Ret (at_table pre (?t\<lparr>header_names := map stored ((hs0 @ [v]) @ hs) @
             replicate (10 - length ((hs0 @ [v]) @ hs)) line0,
           num_headers := length ((hs0 @ [v]) @ hs)\<rparr>) n) w"
    using Cons.prems by (intro Cons.IH) simp_all
  with step show ?case by simp
qed

text \<open>
  The value names in a table: \<open>off\<close> entries that earlier tables used up stay empty, then the
  names that have room; the names beyond the twentieth are ignored.
\<close>

definition stored_names :: "nat \<Rightarrow> string list \<Rightarrow> string list" where
  "stored_names off vs =
     replicate off line0 @ map stored (take (MAX_VALS - off) vs) @
     replicate (MAX_VALS - off - length vs) line0"

lemma stored_names_room:
  assumes "off + length vs < MAX_VALS"
  shows "stored_names off vs ! (off + length vs) = line0"
    and "(stored_names off vs)[off + length vs := stored v] = stored_names off (vs @ [v])"
proof -
  obtain k where k: "MAX_VALS - off = Suc (length vs) + k"
    using assms by (metis add.commute add_Suc_right less_diff_conv less_imp_Suc_add)
  then show "stored_names off vs ! (off + length vs) = line0"
    "(stored_names off vs)[off + length vs := stored v] = stored_names off (vs @ [v])"
    by (simp_all add: stored_names_def nth_append list_update_append)
qed

lemma stored_names_full:
  "MAX_VALS \<le> off + length vs \<Longrightarrow> stored_names off (vs @ ws) = stored_names off vs"
  by (simp add: stored_names_def)

lemma val_name_lines:
  assumes "\<forall>v \<in> set vs. value_ok v" and "t = t0\<lparr>val_names := stored_names off vs0\<rparr>"
  shows "foldC (table_line os True) (map (\<lambda>v. entry ''val_name'' v @ [newline]) vs)
           (at_table pre t (min MAX_VALS (off + length vs0))) w =
           Ret (at_table pre (t\<lparr>val_names := stored_names off (vs0 @ vs)\<rparr>)
                  (min MAX_VALS (off + length (vs0 @ vs)))) w"
  using assms
proof (induction vs arbitrary: vs0 t)
  case Nil
  then show ?case by simp
next
  case (Cons v vs)
  let ?n = "min MAX_VALS (off + length vs0)" and ?n' = "min MAX_VALS (off + length (vs0 @ [v]))"
  let ?t = "t\<lparr>val_names := stored_names off (vs0 @ [v])\<rparr>"
  have v: "value_ok v" using Cons.prems(1) by simp
  have "block_line (entry ''val_name'' v) (t, ?n) = ret (?t, ?n')"
  proof (cases "off + length vs0 < MAX_VALS")
    case True
    then have "val_names t ! ?n = line0" "(val_names t)[?n := stored v] = stored_names off (vs0 @ [v])"
      "?n < MAX_VALS" "?n' = ?n + 1"
      using stored_names_room [OF True] by (simp_all add: Cons.prems(2))
    with block_lines(3) [OF v, of ?n t] show ?thesis by simp
  next
    case False
    then have "?t = t" "?n = MAX_VALS" "?n' = MAX_VALS"
      by (simp_all add: Cons.prems(2) stored_names_full)
    then show ?thesis using v
      by (simp add: value_ok_def block_line_def table_sep_line_def header_line_def val_name_line_def
          number_line_def val_sep_line_def has_entry suffix_to_prefix fun_eq_iff)
  qed
  then have step: "table_line os True (entry ''val_name'' v @ [newline]) (at_table pre t ?n) =
      ret (at_table pre ?t ?n')"
    using has_end_marker [OF value_okD [OF v]] entries_text(6) [OF v]
    by (intro template_line) simp_all
  have "foldC (table_line os True) (map (\<lambda>v. entry ''val_name'' v @ [newline]) vs)
      (at_table pre ?t ?n') w =
      Ret (at_table pre (?t\<lparr>val_names := stored_names off ((vs0 @ [v]) @ vs)\<rparr>)
             (min MAX_VALS (off + length ((vs0 @ [v]) @ vs)))) w"
    using Cons.prems by (intro Cons.IH) simp_all
  with step show ?case by simp
qed

lemma value_ok_dec_int:
  assumes "INT_MIN \<le> i" "i \<le> INT_MAX"
  shows "value_ok (dec_int i)"
proof -
  have "length (dec (nat \<bar>i\<bar>)) \<le> Suc 9"
    using assms by (intro length_dec_bound) (simp add: c_limits)
  then have "length (dec (nat (- i))) \<le> Suc 9 \<or> 0 \<le> i" "length (dec (nat i)) \<le> Suc 9 \<or> i < 0"
    by (auto simp: abs_if split: if_splits)
  then have "length (dec_int i) < 500" by (auto simp: dec_int_def)
  moreover have "\<not> is_digit c" if "c \<in> {CHR ''='', newline, carriage_return, nul}" for c
    using that by (auto simp: is_digit_def newline_def carriage_return_def nul_def)
  ultimately show ?thesis
    using dec_digits [of "nat i"] dec_digits [of "nat (- i)"]
    by (auto simp: value_ok_def dec_int_def newline_def carriage_return_def nul_def)
qed

lemma entry_line:
  assumes "value_ok v" and "CHR ''='' \<notin> set b" and "template_text (entry b v)"
    and "block_line (entry b v) (t, n) = ret (t', n')"
  shows "table_line os True (entry b v @ [newline]) (at_table pre t n) w = Ret (at_table pre t' n') w"
  using template_line [OF assms(3) has_end_marker [OF value_okD [OF assms(1)] assms(2)] assms(4)]
  by simp

text \<open>
  The table that the parser stores for a block when the value names of earlier blocks have used
  up \<open>off\<close> entries, and the tables of a whole template. The value names of a table after the first
  are not at the places that the template means: the code never resets \<open>vals_found\<close>.
\<close>

definition described :: "nat \<Rightarrow> table_spec \<Rightarrow> table_t" where
  "described off b =
     \<lparr>sep = stored (spec_sep b), val_sep = stored (spec_val_sep b),
      num_headers = length (spec_headers b),
      header_names = map stored (spec_headers b) @ replicate (10 - length (spec_headers b)) line0,
      cols = spec_cols b, val_names = stored_names off (spec_names b),
      num_vals = spec_num_vals b, headers_found = 0\<rparr>"

fun described_all :: "nat \<Rightarrow> table_spec list \<Rightarrow> table_t list" where
  "described_all off [] = []"
| "described_all off (b # bs) =
     described off b # described_all (min MAX_VALS (off + length (spec_names b))) bs"

lemma end_line: "block_line ''===end_table==='' (t, k) = ret (t, k)"
  by (simp add: block_line_def table_sep_line_def header_line_def val_name_line_def
      number_line_def val_sep_line_def has_def fun_eq_iff)

lemma keyword_lines:
  assumes "os_alloc os (trace w)"
  shows "length pre < MAX_TABLES \<Longrightarrow>
      table_line os True (''===table==='' @ [newline]) (between pre off) w =
        Ret (at_table pre table0 off) (w\<lparr>trace := trace w @ [EvAlloc 16400 True]\<rparr>)"
    and "length pre = MAX_TABLES \<Longrightarrow>
      table_line os True (''===table==='' @ [newline]) (between pre off) w = Faults OutOfBounds"
  using chomp_line [of "''===table===''"] template_text_cstr [of "''===table===''"] assms
  by (simp_all add: table_line_def) (simp_all add: has_def)

lemma end_marker:
  "table_line os True (''===end_table==='' @ [newline]) (at_table pre t off) w =
     Ret (between (pre @ [Some t]) off) w"
  using chomp_line [of "''===end_table===''"] template_text_cstr [of "''===end_table===''"]
  by (simp add: table_line_def end_line) (simp add: has_def)

lemma table0_names: "off \<le> MAX_VALS \<Longrightarrow> val_names table0 = stored_names off []"
  by (simp add: table0_def stored_names_def flip: replicate_add)

lemma table_block:
  assumes "spec_ok b" and "length pre < MAX_TABLES" and "off \<le> MAX_VALS" and "os_alloc os (trace w)"
  shows "foldC (table_line os True) (map (\<lambda>l. l @ [newline]) (render_table b)) (between pre off) w =
           Ret (between (pre @ [Some (described off b)]) (min MAX_VALS (off + length (spec_names b))))
             (w\<lparr>trace := trace w @ [EvAlloc 16400 True]\<rparr>)"
proof -
  let ?w = "w\<lparr>trace := trace w @ [EvAlloc 16400 True]\<rparr>"
  let ?hs = "spec_headers b" and ?names = "spec_names b" and ?c = "spec_cols b" and ?n = "spec_num_vals b"
  let ?t1 = "table0\<lparr>sep := stored (spec_sep b)\<rparr>"
  let ?t2 = "?t1\<lparr>header_names := map stored ?hs @ replicate (10 - length ?hs) line0,
      num_headers := length ?hs\<rparr>"
  let ?t3 = "?t2\<lparr>cols := ?c\<rparr>"
  let ?t4 = "?t3\<lparr>val_sep := stored (spec_val_sep b)\<rparr>"
  let ?t5 = "?t4\<lparr>num_vals := ?n\<rparr>"
  let ?t6 = "?t5\<lparr>val_names := stored_names off ?names\<rparr>"
  let ?last = "min MAX_VALS (off + length ?names)"
  have ok: "value_ok (spec_sep b)" "value_ok (spec_val_sep b)" "\<forall>v \<in> set ?hs. value_ok v"
    "\<forall>v \<in> set ?names. value_ok v" and ranges: "INT_MIN \<le> ?c" "?c \<le> INT_MAX" "INT_MIN \<le> ?n" "?n \<le> INT_MAX"
    and few: "length ?hs \<le> 10"
    using assms(1) by (simp_all add: spec_ok_def MAX_HEADERS_def)
  note cn = value_ok_dec_int [OF ranges(1,2)] value_ok_dec_int [OF ranges(3,4)]
  have l1: "table_line os True (entry ''table_sep'' (spec_sep b) @ [newline]) (at_table pre table0 off) ?w
      = Ret (at_table pre ?t1 off) ?w"
    by (rule entry_line [OF ok(1) _ entries_text(1) [OF ok(1)] block_lines(1) [OF ok(1)]])
      (simp_all add: table0_def)
  have l2: "foldC (table_line os True) (map (\<lambda>v. entry ''header'' v @ [newline]) ?hs) (at_table pre ?t1 off) ?w
      = Ret (at_table pre ?t2 off) ?w"
    using header_lines [OF ok(3), of "[]" ?t1 ?t1 os pre off ?w] few
    by (simp add: table0_def MAX_HEADERS_def)
  have l3: "table_line os True (entry ''cols'' (dec_int ?c) @ [newline]) (at_table pre ?t2 off) ?w
      = Ret (at_table pre ?t3 off) ?w"
    by (rule entry_line [OF cn(1) _ entries_text(3) [OF cn(1)]
          block_lines(5) [OF cn(1) atoi_dec_int [OF ranges(1,2)]]]) simp
  have l4: "table_line os True (entry ''val_sep'' (spec_val_sep b) @ [newline]) (at_table pre ?t3 off) ?w
      = Ret (at_table pre ?t4 off) ?w"
    by (rule entry_line [OF ok(2) _ entries_text(4) [OF ok(2)] block_lines(4) [OF ok(2)]])
      (simp_all add: table0_def)
  have l5: "table_line os True (entry ''num_vals'' (dec_int ?n) @ [newline]) (at_table pre ?t4 off) ?w
      = Ret (at_table pre ?t5 off) ?w"
    by (rule entry_line [OF cn(2) _ entries_text(5) [OF cn(2)]
          block_lines(6) [OF cn(2) atoi_dec_int [OF ranges(3,4)]]]) simp
  have names: "?t5 = ?t5\<lparr>val_names := stored_names off []\<rparr>" using table0_names [OF assms(3)] by simp
  have l6: "foldC (table_line os True) (map (\<lambda>v. entry ''val_name'' v @ [newline]) ?names)
      (at_table pre ?t5 off) ?w = Ret (at_table pre ?t6 ?last) ?w"
    using val_name_lines [OF ok(4) names, of os pre ?w] assms(3) by simp
  have "?t6 = described off b" by (simp add: described_def table0_def)
  then show ?thesis
    using keyword_lines(1) [OF assms(4,2), of off] end_marker [of os pre ?t6 ?last ?w]
      l1 l2 l3 l4 l5 l6
    by (simp add: render_table_def foldC_append comp_def del: append_Cons)
qed

lemma render_text:
  assumes "\<forall>b \<in> set bs. spec_ok b"
  shows "\<forall>l \<in> set (render_tables bs). template_text l"
proof -
  have "template_text l" if "spec_ok b" "l \<in> set (render_table b)" for b l
    using that value_ok_dec_int [of "spec_cols b"] value_ok_dec_int [of "spec_num_vals b"]
    by (auto simp: spec_ok_def render_table_def intro: entries_text)
  with assms show ?thesis by (auto simp: render_tables_def)
qed

lemma template_blocks:
  assumes "\<forall>b \<in> set bs. spec_ok b" and "length pre + length bs \<le> MAX_TABLES" and "off \<le> MAX_VALS"
    and "\<And>h. os_alloc os h"
  shows "\<exists>n \<le> MAX_VALS.
           foldC (table_line os True) (map (\<lambda>l. l @ [newline]) (render_tables bs)) (between pre off) w =
             Ret (between (pre @ map Some (described_all off bs)) n)
               (w\<lparr>trace := trace w @ replicate (length bs) (EvAlloc 16400 True)\<rparr>)"
  using assms(1-3)
proof (induction bs arbitrary: pre off w)
  case Nil
  then show ?case by (simp add: render_tables_def)
next
  case (Cons b bs)
  let ?off = "min MAX_VALS (off + length (spec_names b))"
  let ?w = "w\<lparr>trace := trace w @ [EvAlloc 16400 True]\<rparr>"
  have first: "foldC (table_line os True) (map (\<lambda>l. l @ [newline]) (render_table b)) (between pre off) w =
      Ret (between (pre @ [Some (described off b)]) ?off) ?w"
    using Cons.prems by (intro table_block assms(4)) simp_all
  have "\<exists>n \<le> MAX_VALS.
      foldC (table_line os True) (map (\<lambda>l. l @ [newline]) (render_tables bs))
        (between (pre @ [Some (described off b)]) ?off) ?w =
      Ret (between ((pre @ [Some (described off b)]) @ map Some (described_all ?off bs)) n)
        (?w\<lparr>trace := trace ?w @ replicate (length bs) (EvAlloc 16400 True)\<rparr>)"
    using Cons.prems by (intro Cons.IH) simp_all
  with first show ?case by (auto simp: render_tables_def foldC_append)
qed

lemma table_template_run:
  assumes "fs path = Some (unlines (render_tables bs))" and "\<forall>b \<in> set bs. spec_ok b"
    and "length bs \<le> MAX_TABLES" and "\<And>h. os_alloc os h"
  shows "parseTableTemplate os fs True path w =
           Ret (0, map Some (described_all 0 bs))
             (w\<lparr>trace := trace w @ [EvFopen path] @ replicate (length bs) (EvAlloc 16400 True) @ [EvFclose]\<rparr>)"
proof -
  have "length ([] :: table_t option list) + length bs \<le> MAX_TABLES" "0 \<le> MAX_VALS"
    using assms(3) by simp_all
  from template_blocks [OF assms(2) this assms(4), of "w\<lparr>trace := trace w @ [EvFopen path]\<rparr>"]
  show ?thesis using fgets_template [OF render_text [OF assms(2)]]
    by (auto simp: parseTableTemplate_def assms(1))
qed

lemma table_template_overflow:
  assumes "fs path = Some (unlines (render_tables bs))" and "\<forall>b \<in> set bs. spec_ok b"
    and "MAX_TABLES < length bs" and "\<And>h. os_alloc os h"
  shows "parseTableTemplate os fs True path w = Faults OutOfBounds"
proof -
  let ?first = "take MAX_TABLES bs"
  let ?w = "w\<lparr>trace := trace w @ [EvFopen path]\<rparr>"
  obtain b rest where bs: "bs = ?first @ b # rest"
    using assms(3) by (metis id_take_nth_drop)
  have ok: "\<forall>b \<in> set ?first. spec_ok b" using assms(2) by (meson in_set_takeD)
  have len: "length (described_all off cs) = length cs" for off cs
    by (induction off cs rule: described_all.induct) simp_all
  have "length ([] :: table_t option list) + length ?first \<le> MAX_TABLES" "0 \<le> MAX_VALS"
    using assms(3) by simp_all
  from template_blocks [OF ok this assms(4), of ?w] obtain n where
    fill: "foldC (table_line os True) (map (\<lambda>l. l @ [newline]) (render_tables ?first)) (between [] 0) ?w =
      Ret (between (map Some (described_all 0 ?first)) n)
        (?w\<lparr>trace := trace ?w @ replicate (length ?first) (EvAlloc 16400 True)\<rparr>)" by auto
  have full: "length (map Some (described_all 0 ?first)) = MAX_TABLES"
    using assms(3) by (simp add: len)
  have "render_tables bs = render_tables ?first @ ''===table==='' # tl (render_table b) @ render_tables rest"
    by (subst bs) (simp add: render_tables_def, simp add: render_table_def)
  then have "foldC (table_line os True) (map (\<lambda>l. l @ [newline]) (render_tables bs)) (between [] 0) ?w =
      Faults OutOfBounds"
    using fill keyword_lines(2) [OF assms(4) full] by (simp add: foldC_append)
  then show ?thesis using fgets_template [OF render_text [OF assms(2)]]
    by (simp add: parseTableTemplate_def assms(1))
qed

lemma value_ok_stored: "value_ok v \<Longrightarrow> cstr (stored v) = v"
  by (rule cstr_stored) (auto simp: value_ok_def is_cstr_def)

text \<open>A table as the block it reads as, with all twenty value names.\<close>

definition table_view :: "table_t \<Rightarrow> table_spec" where
  "table_view t =
     \<lparr>spec_sep = cstr (sep t), spec_headers = map cstr (take (num_headers t) (header_names t)),
      spec_cols = cols t, spec_val_sep = cstr (val_sep t), spec_num_vals = num_vals t,
      spec_names = map cstr (val_names t)\<rparr>"

text \<open>The names that reach a table: behind those of all blocks before it, up to twenty in all.\<close>

definition shifted_names :: "nat \<Rightarrow> string list \<Rightarrow> string list" where
  "shifted_names off vs =
     replicate off [] @ take (MAX_VALS - off) vs @ replicate (MAX_VALS - off - length vs) []"

fun shifted :: "nat \<Rightarrow> table_spec list \<Rightarrow> table_spec list" where
  "shifted off [] = []"
| "shifted off (b # bs) =
     b\<lparr>spec_names := shifted_names off (spec_names b)\<rparr> #
     shifted (min MAX_VALS (off + length (spec_names b))) bs"

lemma cstr_line0 [simp]: "cstr line0 = []"
  by (simp add: line0_def LINE_LEN_def cstr_def numeral_eq_Suc)

lemma described_view:
  assumes "spec_ok b"
  shows "table_view (described off b) = b\<lparr>spec_names := shifted_names off (spec_names b)\<rparr>"
proof -
  have stored: "map (cstr \<circ> stored) vs = vs" if "set vs \<subseteq> Collect value_ok" for vs
    using that by (intro map_idI) (auto simp: value_ok_stored)
  have "set (take k (spec_names b)) \<subseteq> Collect value_ok" "set (spec_headers b) \<subseteq> Collect value_ok" for k
    using assms by (auto simp: spec_ok_def dest: in_set_takeD)
  then show ?thesis
    using assms
    by (cases b) (simp add: table_view_def described_def stored_names_def shifted_names_def stored
        spec_ok_def value_ok_stored)
qed

lemma described_views:
  "\<forall>b \<in> set bs. spec_ok b \<Longrightarrow> map table_view (described_all off bs) = shifted off bs"
  by (induction off bs rule: described_all.induct) (simp_all add: described_view)

lemma described_unseen: "t \<in> set (described_all off bs) \<Longrightarrow> headers_found t = 0"
  by (induction off bs rule: described_all.induct) (auto simp: described_def)


text \<open>Two small blocks; the second one's name ends up in the third place of its table.\<close>

definition sample_block :: table_spec where
  "sample_block =
     \<lparr>spec_sep = ''|'', spec_headers = [''Operation''], spec_cols = 2, spec_val_sep = '' '',
      spec_num_vals = 3, spec_names = [''op_skip'', ''pct'', ''time'']\<rparr>"

definition sample_block2 :: table_spec where
  "sample_block2 =
     \<lparr>spec_sep = '':'', spec_headers = [''Field''], spec_cols = 1, spec_val_sep = '','',
      spec_num_vals = 1, spec_names = [''energy'']\<rparr>"

lemma sample_blocks_ok: "spec_ok sample_block" "spec_ok sample_block2"
  by (simp_all add: spec_ok_def sample_block_def sample_block2_def value_ok_def newline_def
      carriage_return_def nul_def c_limits MAX_HEADERS_def)


end
