(* ===== verification/Results.thy ===== *)
theory Results
  imports Templates Lifecycle
begin

text \<open>
  \<open>src/stdout_parser.c\<close>, the results file: \<open>sendResult\<close>, the scan of the results line by line
  (\<open>scan_line\<close>: find table headers, read table rows, match the key patterns) and \<open>main\<close>. The
  array \<open>line\<close> and the variable \<open>line_len\<close> live across lines and are uninitialised before
  the first, as in the source: their first values are arbitrary.

  The lemmas: what is sent for a row of a table and for the groups of a match, over the
  transports of the library, and what the uninitialised length, a missing table template
  and a percent sign in the data lead to.
\<close>

section \<open>Sending a result\<close>

definition sendResult :: "os \<Rightarrow> strptr \<Rightarrow> strptr \<Rightarrow> (world, int) cmd" where
  "sendResult os key_ptr val_ptr =
     (if key_ptr = SNull \<or> val_ptr = SNull then ret (-1)
      else
        bindC (deref key_ptr) (\<lambda>key.
        bindC (deref val_ptr) (\<lambda>val.
        let res_len = length key + length val + 2 in
        bindC (alloc os res_len) (\<lambda>ok.
        if \<not> ok then faultC NullDeref
        else
          case format ''%s=%s'' [StrArg key, StrArg val] of
            None \<Rightarrow> faultC BadFormat
          | Some out \<Rightarrow>
              let result = snprintf_str res_len out in
              seqC (emit (EvStdout (''Sending result: '' @ result @ [newline])))
             (bindC (daapLogWrite os result []) (\<lambda>ret_val.
              seqC (if ret_val \<noteq> 0 then emit (EvPerror ''Error in call to daapLogWrite'') else ret ())
             (seqC (emit (EvFree result))
             (ret ret_val))))))))"

section \<open>The state of the scan\<close>

text \<open>
  \<open>cur\<close> is the pointer \<open>table\<close>, as an index into the tables; a column that has not been
  written yet is \<open>None\<close>.
\<close>

record scan_state =
  line_buf :: string
  line_len :: int
  tabs :: "table_t option list"
  cur :: "nat option"
  in_tab :: bool
  columns :: "string option list"

text \<open>\<open>fgets\<close> stores the bytes read and a terminator, and leaves the rest of the array.\<close>

definition load_line :: "string \<Rightarrow> string \<Rightarrow> string" where
  "load_line buf raw = raw @ nul # drop (length raw + 1) buf"

text \<open>
  The loop that removes line ends before index \<open>line_len\<close>; \<open>None\<close> when it reads outside the
  array.
\<close>

fun strip_eol :: "string \<Rightarrow> nat \<Rightarrow> (string \<times> nat) option" where
  "strip_eol buf 0 = None"
| "strip_eol buf (Suc n) =
     (if length buf \<le> n then None
      else if is_eol (buf ! n) then strip_eol (buf[n := nul]) n
      else Some (buf, Suc n))"

section \<open>Table headers\<close>

text \<open>The loop over the tables: the first whose next header is in the line moves on.\<close>

fun find_header ::
  "string \<Rightarrow> nat list \<Rightarrow> table_t option list \<Rightarrow> nat option \<Rightarrow>
     (world, table_t option list \<times> nat option) cmd" where
  "find_header line [] ts c = ret (ts, c)"
| "find_header line (i # js) ts c =
     (case ts ! i of
        None \<Rightarrow> faultC NullDeref
      | Some t \<Rightarrow>
          if MAX_HEADERS \<le> headers_found t then faultC OutOfBounds
          else if has line (cstr (header_names t ! headers_found t)) then
            ret (ts[i := Some (t\<lparr>headers_found := headers_found t + 1\<rparr>)], Some i)
          else find_header line js ts (Some i))"

definition table_at :: "table_t option list \<Rightarrow> nat option \<Rightarrow> table_t option" where
  "table_at ts c = (case c of None \<Rightarrow> None | Some i \<Rightarrow> ts ! i)"

section \<open>Table rows\<close>

text \<open>The columns of a row, each without its last character.\<close>

fun copy_columns :: "string list \<Rightarrow> nat \<Rightarrow> string option list \<Rightarrow> (world, string option list) cmd" where
  "copy_columns [] i cs = ret cs"
| "copy_columns (tok # toks) i cs =
     (if MAX_COLS \<le> i then faultC OutOfBounds
      else copy_columns toks (i + 1) (cs[i := Some (butlast tok)]))"

text \<open>One value of a column; the number of values seen so far counts the skipped ones too.\<close>

definition send_value :: "os \<Rightarrow> table_t \<Rightarrow> string \<Rightarrow> nat \<Rightarrow> (world, nat) cmd" where
  "send_value os t tok val_found =
     (if MAX_VALS \<le> val_found then faultC OutOfBounds
      else
        let val_name = cstr (val_names t ! val_found) in
        if has val_name ''_skip'' then ret (val_found + 1)
        else
          bindC (sendResult os (SPtr val_name) (SPtr tok)) (\<lambda>r.
          ret (val_found + 1)))"

definition send_column ::
  "os \<Rightarrow> table_t \<Rightarrow> nat \<Rightarrow> string option list \<times> nat \<Rightarrow> (world, string option list \<times> nat) cmd" where
  "send_column os t i cv =
     (case cv of
        (cs, val_found) \<Rightarrow>
          if MAX_COLS \<le> i then faultC OutOfBounds
          else
            case cs ! i of
              None \<Rightarrow> faultC Uninitialised
            | Some col \<Rightarrow>
                let seps = cstr (val_sep t) in
                if \<not> has col seps then ret (cs, val_found)
                else
                  bindC (foldC (send_value os t) (strtok_tokens seps col) val_found) (\<lambda>vf.
                  ret (cs[i := Some (cstr (strtok_wipe seps col))], vf)))"

definition table_row :: "os \<Rightarrow> table_t \<Rightarrow> string \<Rightarrow> string option list \<Rightarrow> (world, string option list) cmd" where
  "table_row os t line cs =
     bindC (copy_columns (strtok_tokens (cstr (sep t)) line) 0 cs) (\<lambda>cs1.
     bindC (foldC (send_column os t) [0..<nat (cols t)] (cs1, 0)) (\<lambda>(cs2, val_found).
     ret cs2))"

section \<open>Key patterns\<close>

text \<open>
  \<open>calloc\<close> and \<open>strncpy\<close> of \<open>n\<close> bytes from offset \<open>s\<close> of the line: \<open>None\<close> when the copy
  leaves the array.
\<close>

definition read_upto :: "string \<Rightarrow> int \<Rightarrow> nat \<Rightarrow> string option" where
  "read_upto buf s n =
     (if n = 0 then Some []
      else if s < 0 \<or> int (length buf) \<le> s then None
      else
        let t = drop (nat s) buf in
        if n \<le> length (cstr t) then Some (take n (cstr t))
        else if length (cstr t) < length t then Some (cstr t)
        else None)"

definition copy_group :: "os \<Rightarrow> string \<Rightarrow> int \<times> int \<Rightarrow> (world, string) cmd" where
  "copy_group os buf se =
     (case se of
        (s, e) \<Rightarrow>
          bindC (alloc os (nat (e - s + 1))) (\<lambda>ok.
          if e - s < 0 then faultC OutOfBounds
          else if \<not> ok then faultC NullDeref
          else
            case read_upto buf s (nat (e - s)) of
              None \<Rightarrow> faultC OutOfBounds
            | Some str \<Rightarrow> ret str))"

definition send_pair :: "os \<Rightarrow> string \<Rightarrow> (int \<times> int) \<times> (int \<times> int) \<Rightarrow> (world, unit) cmd" where
  "send_pair os buf kv =
     bindC (copy_group os buf (fst kv)) (\<lambda>key.
     bindC (copy_group os buf (snd kv)) (\<lambda>val.
     bindC (sendResult os (SPtr key) (SPtr val)) (\<lambda>r.
     seqC (emit (EvFree key))
    (emit (EvFree val)))))"

text \<open>Groups 1 and 2, 3 and 4, and so on; a last group without partner is dropped.\<close>

fun pair_up :: "'a list \<Rightarrow> ('a \<times> 'a) list" where
  "pair_up (a # b # xs) = (a, b) # pair_up xs"
| "pair_up xs = []"

definition match_key :: "'re pcre \<Rightarrow> os \<Rightarrow> string \<Rightarrow> 're \<Rightarrow> (world, unit) cmd" where
  "match_key re os buf r =
     (case pcre_exec re r (cstr buf) of
        (rc, ovector) \<Rightarrow>
          if rc < 0 then ret ()
          else
            seqC (if rc = 0 then
                    ERROR_OUTPUT os U_parser
                      (''Output vector wasn'' @ [CHR 0x27] @ ''t large enough for number of matches: %d'' @ [newline])
                      [IntArg (of_nat (OVECCOUNT div 3 - 1))]
                  else ret ())
           (if int (length ovector) < rc then faultC OutOfBounds
            else forC (pair_up (tl (take (nat rc) ovector))) (send_pair os buf)))"

section \<open>One line, and the whole file\<close>

definition scan_line ::
  "'re pcre \<Rightarrow> os \<Rightarrow> 're list \<Rightarrow> string \<Rightarrow> scan_state \<Rightarrow> (world, scan_state) cmd" where
  "scan_line re os keys raw st =
     (case strip_eol (load_line (line_buf st) raw) (nat (line_len st)) of
        None \<Rightarrow> faultC OutOfBounds
      | Some (buf, n) \<Rightarrow>
          let line = cstr buf in
          bindC (if in_tab st \<and> cur st \<noteq> None then ret (tabs st, cur st)
                 else find_header line (if in_tab st then take 1 [0..<length (tabs st)]
                        else [0..<length (tabs st)]) (tabs st) (cur st)) (\<lambda>(ts, c).
          let c1 = (case table_at ts c of
                      Some t \<Rightarrow> if headers_found t = 0 then None else c
                    | None \<Rightarrow> c);
              st1 = st\<lparr>line_buf := buf, line_len := int n, tabs := ts, cur := c1\<rparr>
          in
          case table_at ts c1 of
            None \<Rightarrow>
              if in_tab st then faultC NullDeref
              else seqC (forC keys (match_key re os buf)) (ret st1)
          | Some t \<Rightarrow>
              if \<not> in_tab st then ret (st1\<lparr>in_tab := (headers_found t = num_headers t)\<rparr>)
              else if \<not> has line (cstr (sep t)) then
                seqC (forC keys (match_key re os buf))
               (ret (st1\<lparr>in_tab := False, cur := None,
                         tabs := ts[the c1 := Some (t\<lparr>headers_found := 0\<rparr>)]\<rparr>))
              else
                bindC (table_row os t line (columns st)) (\<lambda>cs.
                ret (st1\<lparr>columns := cs,
                         line_buf := strtok_wipe (cstr (sep t)) line @ drop (length line) buf\<rparr>))))"

definition scan0 :: "string \<Rightarrow> int \<Rightarrow> table_t option list \<Rightarrow> scan_state" where
  "scan0 garbage n ts =
     \<lparr>line_buf = garbage, line_len = n, tabs = ts, cur = None, in_tab = False,
      columns = replicate MAX_COLS None\<rparr>"

text \<open>
  The whole of \<open>parseResults\<close>: the clean-up at its end frees the patterns, the tables, both arrays
  and the stream; the early returns free nothing.
\<close>

definition clean_up :: "'re list \<Rightarrow> table_t option list \<Rightarrow> bool \<Rightarrow> bool \<Rightarrow> (world, unit) cmd" where
  "clean_up keys ts table_array key_array =
     seqC (forC keys (\<lambda>_. free_block True))
    (seqC (forC ts (\<lambda>t. free_block (t \<noteq> None)))
    (seqC (free_block key_array)
    (seqC (free_block table_array)
    (emit EvFclose))))"

definition clean_events :: "'re list \<Rightarrow> table_t option list \<Rightarrow> bool \<Rightarrow> bool \<Rightarrow> event list" where
  "clean_events keys ts table_array key_array =
     replicate (length keys + length (filter (\<lambda>t. t \<noteq> None) ts) + of_bool key_array +
       of_bool table_array) EvFreeBlock @ [EvFclose]"

lemma free_block_run:
  "free_block present w = Ret () (w\<lparr>trace := trace w @ replicate (of_bool present) EvFreeBlock\<rparr>)"
  by (simp add: free_block_def)

lemma frees_run:
  "forC xs (\<lambda>x. free_block (P x)) w =
     Ret () (w\<lparr>trace := trace w @ replicate (length (filter P xs)) EvFreeBlock\<rparr>)"
  by (induction xs arbitrary: w) (simp_all add: free_block_run)

lemma clean_up_run:
  "clean_up keys ts table_array key_array w =
     Ret () (w\<lparr>trace := trace w @ clean_events keys ts table_array key_array\<rparr>)"
  using frees_run [of keys "\<lambda>_. True"]
  by (simp add: clean_up_def clean_events_def frees_run free_block_run replicate_add)

lemma clean_events_neutral [simp]: "delivered (clean_events keys ts table_array key_array) = []"
proof -
  have "delivered (replicate k EvFreeBlock) = []" for k
    by (induction k) (simp_all add: delivered_by_def)
  then show ?thesis by (simp add: clean_events_def delivered_by_def)
qed

definition parseResults ::
  "'re pcre \<Rightarrow> os \<Rightarrow> files \<Rightarrow> string \<Rightarrow> string \<Rightarrow> string \<Rightarrow> string \<Rightarrow> (world, int) cmd" where
  "parseResults re os fs garbage key_template_file table_template_file results_file =
     (case fs results_file of
        None \<Rightarrow>
          seqC (ERROR_OUTPUT os U_parser ''Failed to open results file: %s'' [StrArg results_file])
         (ret (-1))
      | Some content \<Rightarrow>
          seqC (emit (EvFopen results_file))
         (bindC (alloc os (8 * MAX_TABLES)) (\<lambda>table_array.
          bindC (alloc os (8 * MAX_KEY_REGEXES)) (\<lambda>key_array.
          bindC (parseTableTemplate os fs table_array table_template_file) (\<lambda>(r, ts).
          if r < 0 then
            seqC (ERROR_OUTPUT os U_parser ''Failed to parse table template file: %s''
                    [StrArg table_template_file])
           (ret (-1))
          else
            bindC (parseKeyTemplate re os fs key_array key_template_file) (\<lambda>(r, keys).
            if r < 0 then
              seqC (ERROR_OUTPUT os U_parser ''Failed to parse key template file: %s''
                      [StrArg key_template_file])
             (ret (-1))
            else
              bindC (asks (\<lambda>w. os_indet os (trace w))) (\<lambda>n.
              bindC (foldC (scan_line re os keys) (fgets_all LINE_LEN content) (scan0 garbage n ts)) (\<lambda>st.
              seqC (clean_up keys (tabs st) table_array key_array)
             (ret 0)))))))))"

section \<open>The command line\<close>

datatype opt = Opt_t | Opt_s | Opt_m string | Opt_d string | Opt_f string | Opt_other

record settings =
  opt_transport :: transport
  opt_key_template :: string
  opt_table_template :: string
  opt_results :: string

definition usage :: "(world, 'a) cmd" where
  "usage =
     seqC (emit (EvStdout
       (''./stdout_parser (-s || -t) -m -f'' @ [newline] @
        ''   -s: syslog transport '' @ [newline] @
        ''   -t: tcp transport '' @ [newline] @
        ''   -m: key_template file '' @ [newline] @
        ''   -d: table_template file '' @ [newline] @
        ''   -f: stdout/results file'' @ [newline, newline])))
    (exitC 0)"

definition read_option :: "opt \<Rightarrow> settings \<Rightarrow> (world, settings) cmd" where
  "read_option o1 s =
     (case o1 of
        Opt_t \<Rightarrow> ret (s\<lparr>opt_transport := TCP\<rparr>)
      | Opt_s \<Rightarrow> ret (s\<lparr>opt_transport := SYSLOG\<rparr>)
      | Opt_m a \<Rightarrow> ret (s\<lparr>opt_key_template := snprintf_str PATH_MAX a\<rparr>)
      | Opt_d a \<Rightarrow> ret (s\<lparr>opt_table_template := snprintf_str PATH_MAX a\<rparr>)
      | Opt_f a \<Rightarrow> ret (s\<lparr>opt_results := snprintf_str PATH_MAX a\<rparr>)
      | Opt_other \<Rightarrow> usage)"

definition LOG_NOTICE :: int where "LOG_NOTICE = 5"

definition stdout_parser_main :: "'re pcre \<Rightarrow> os \<Rightarrow> files \<Rightarrow> string \<Rightarrow> opt list \<Rightarrow> (world, int) cmd" where
  "stdout_parser_main re os fs garbage opts =
     bindC (foldC read_option opts
              \<lparr>opt_transport = NONE, opt_key_template = [], opt_table_template = [],
               opt_results = []\<rparr>) (\<lambda>s.
     if opt_transport s = NONE \<or> opt_key_template s = [] \<or> opt_results s = [] then usage
     else
       bindC (daapInit os ''daap_stdout_parser'' LOG_NOTICE DAAP_AGG_OFF (opt_transport s)) (\<lambda>ret_val.
       if ret_val \<noteq> 0 then ret ret_val
       else
         bindC (parseResults re os fs garbage (opt_key_template s) (opt_table_template s)
                  (opt_results s)) (\<lambda>r.
         bindC (daapFinalize os) (\<lambda>f.
         ret 0))))"

section \<open>What is sent\<close>

text \<open>A session that can log, and the results that its lines can carry.\<close>

definition logging :: "os \<Rightarrow> string \<Rightarrow> string \<Rightarrow> string \<Rightarrow> int \<Rightarrow> world \<Rightarrow> bool" where
  "logging os app host cluster rank w \<longleftrightarrow>
     env_ok os \<and> tag_safe app \<and> tag_safe host \<and> tag_safe cluster \<and>
     session_ready app host cluster w \<and> mpi_rank (init_data w) = rank \<and>
     transport_works os (transport_type (init_data w)) \<and>
     Write_mutex \<notin> held w \<and> Print_mutex U_parser \<notin> held w"

definition result_ok :: "string \<Rightarrow> string \<Rightarrow> string \<Rightarrow> int \<Rightarrow> string \<times> string \<Rightarrow> bool" where
  "result_ok app host cluster rank kv \<longleftrightarrow>
     (let m = fst kv @ ''='' @ snd kv
      in plain m \<and> field_safe m \<and> fits app host cluster rank m)"

definition reads_result :: "string \<Rightarrow> string \<Rightarrow> string \<Rightarrow> int \<Rightarrow> string \<times> string \<Rightarrow> string \<Rightarrow> bool" where
  "reads_result app host cluster rank kv = reads_as app host cluster rank (fst kv @ ''='' @ snd kv)"

lemma logging_trace:
  "logging os app host cluster rank (w\<lparr>trace := h\<rparr>) = logging os app host cluster rank w"
  by (simp add: logging_def session_ready_def)

lemma format_result: "format ''%s=%s'' [StrArg k, StrArg v] = Some (k @ ''='' @ v)"
  by (simp add: format.simps directive_def strip_prefix_def)

lemma send_result_run:
  assumes "logging os app host cluster rank w" and "result_ok app host cluster rank (k, v)"
  obtains w' line where "sendResult os (SPtr k) (SPtr v) w = Ret DAAP_SUCCESS w'"
    and "delivered (trace w') = delivered (trace w) @ [line]"
    and "reads_result app host cluster rank (k, v) line"
    and "logging os app host cluster rank w'"
proof -
  let ?m = "k @ ''='' @ v"
  let ?w = "w\<lparr>trace := trace w @ [EvAlloc (length k + length v + 2) True,
      EvStdout (''Sending result: '' @ ?m @ [newline])]\<rparr>"
  have l: "env_ok os" "tag_safe app" "tag_safe host" "tag_safe cluster"
    "session_ready app host cluster ?w" "transport_works os (transport_type (init_data ?w))"
    "Write_mutex \<notin> held ?w" "mpi_rank (init_data w) = rank"
    using assms(1) by (simp_all add: logging_def session_ready_def)
  have m: "plain ?m" "field_safe ?m" "fits app host cluster (mpi_rank (init_data ?w)) ?m"
    using assms(2) l(8) by (simp_all add: result_ok_def Let_def)
  obtain u line where run: "daapLogWrite os ?m [] ?w = Ret DAAP_SUCCESS u"
    and u: "delivered (trace u) = delivered (trace ?w) @ [line]"
      "reads_as app host cluster (mpi_rank (init_data ?w)) ?m line"
      "init_data u = init_data ?w" "held u = held ?w" "session_ready app host cluster u"
    by (rule job_write [OF l(1-7) m])
  have fmt: "snprintf_str (length k + length v + 2) ?m = ?m" by (simp add: snprintf_str_fits)
  have "os_alloc os h" for h using l(1) by simp
  then have "sendResult os (SPtr k) (SPtr v) w =
      Ret DAAP_SUCCESS (u\<lparr>trace := trace u @ [EvFree ?m]\<rparr>)"
    using run fmt by (simp add: sendResult_def format_result DAAP_SUCCESS_def Let_def)
  moreover have "logging os app host cluster rank (u\<lparr>trace := trace u @ [EvFree ?m]\<rparr>)"
    using u l assms(1) by (simp add: logging_def session_ready_def)
  moreover have "reads_result app host cluster rank (k, v) line"
    using u(2) l(8) by (simp add: reads_result_def)
  ultimately show ?thesis using u(1) that by (simp add: delivered_by_def)
qed

text \<open>
  Over a transport that works, \<open>sendResult\<close> of a key and a value without percent signs
  delivers exactly one line, which reads back as the message \<open>key=value\<close>, and returns success.
\<close>
lemma send_result_delivers:
  assumes "logging os app host cluster rank w" and "result_ok app host cluster rank (k, v)"
  shows "wp (sendResult os (SPtr k) (SPtr v))
           (\<lambda>r w'. r = DAAP_SUCCESS \<and>
              (\<exists>line. delivered (trace w') = delivered (trace w) @ [line] \<and>
                 reads_as app host cluster rank (k @ ''='' @ v) line)) w"
proof -
  obtain w' line where "sendResult os (SPtr k) (SPtr v) w = Ret DAAP_SUCCESS w'"
    and "delivered (trace w') = delivered (trace w) @ [line]"
    and "reads_result app host cluster rank (k, v) line"
    by (rule send_result_run [OF assms])
  then show ?thesis by (simp add: wp_def reads_result_def)
qed

lemma logging_ready [simp]:
  "logging os_good ''vpic'' ''nid00042'' ''trinity'' 7 (world_ready SYSLOG)"
  by (simp add: logging_def transport_works_def)

lemma send_result_delivers_witness:
  "wp (sendResult os_good (SPtr ''ec'') (SPtr ''1.5''))
     (\<lambda>r w'. r = 0 \<and> (\<exists>line. delivered (trace w') = [line] \<and>
        reads_as ''vpic'' ''nid00042'' ''trinity'' 7 ''ec=1.5'' line)) (world_ready SYSLOG)"
  using send_result_delivers [of os_good "''vpic''" "''nid00042''" "''trinity''" 7 "world_ready SYSLOG"
      "''ec''" "''1.5''"]
  by (simp add: result_ok_def plain_def field_safe_def dquote_def fits_def influx_head_def
      dec_int_def dec.simps max_size_def DAAP_SUCCESS_def)

section \<open>Values of a row\<close>

text \<open>The results that a list of values stands for, from the name at index \<open>n\<close> on.\<close>

fun name_values :: "table_t \<Rightarrow> nat \<Rightarrow> string list \<Rightarrow> (string \<times> string) list" where
  "name_values t n [] = []"
| "name_values t n (tok # toks) =
     (let name = cstr (val_names t ! n)
      in (if has name ''_skip'' then [] else [(name, tok)]) @ name_values t (n + 1) toks)"

lemma name_values_append:
  "name_values t n (xs @ ys) = name_values t n xs @ name_values t (n + length xs) ys"
  by (induction xs arbitrary: n) (simp_all add: Let_def)

text \<open>A step that delivers the given results and leaves the session as it was.\<close>

definition delivers ::
  "os \<Rightarrow> string \<Rightarrow> string \<Rightarrow> string \<Rightarrow> int \<Rightarrow> (string \<times> string) list \<Rightarrow> world \<Rightarrow> world \<Rightarrow> bool" where
  "delivers os app host cluster rank kvs w w' \<longleftrightarrow>
     logging os app host cluster rank w' \<and>
     (\<exists>lines. delivered (trace w') = delivered (trace w) @ lines \<and>
        list_all2 (reads_result app host cluster rank) kvs lines)"

lemma delivers_refl:
  "logging os app host cluster rank w \<Longrightarrow> delivers os app host cluster rank [] w w"
  by (simp add: delivers_def)

lemma delivers_trans:
  assumes "delivers os app host cluster rank a u v" "delivers os app host cluster rank b v w"
  shows "delivers os app host cluster rank (a @ b) u w"
  using assms unfolding delivers_def by (auto intro: list_all2_appendI)

lemma send_result_delivers_step:
  assumes "logging os app host cluster rank w" and "result_ok app host cluster rank (k, v)"
  obtains w' where "sendResult os (SPtr k) (SPtr v) w = Ret DAAP_SUCCESS w'"
    and "delivers os app host cluster rank [(k, v)] w w'"
proof -
  obtain w' line where "sendResult os (SPtr k) (SPtr v) w = Ret DAAP_SUCCESS w'"
    and "delivered (trace w') = delivered (trace w) @ [line]"
    and "reads_result app host cluster rank (k, v) line"
    and "logging os app host cluster rank w'"
    by (rule send_result_run [OF assms])
  then show ?thesis using that by (simp add: delivers_def)
qed

lemma send_values_run:
  assumes "logging os app host cluster rank w" and "n + length toks \<le> MAX_VALS"
    and "\<forall>kv \<in> set (name_values t n toks). result_ok app host cluster rank kv"
  shows "\<exists>w'. foldC (send_value os t) toks n w = Ret (n + length toks) w' \<and>
           delivers os app host cluster rank (name_values t n toks) w w'"
  using assms
proof (induction toks arbitrary: n w)
  case Nil
  then show ?case by (simp add: delivers_refl)
next
  case (Cons tok toks)
  let ?name = "cstr (val_names t ! n)"
  have n: "\<not> MAX_VALS \<le> n" "n + 1 + length toks \<le> MAX_VALS" using Cons.prems(2) by simp_all
  have rest: "\<forall>kv \<in> set (name_values t (n + 1) toks). result_ok app host cluster rank kv"
    using Cons.prems(3) by (simp add: Let_def split: if_splits)
  show ?case
  proof (cases "has ?name ''_skip''")
    case True
    with n have "send_value os t tok n w = Ret (n + 1) w" by (simp add: send_value_def Let_def)
    with Cons.IH [OF Cons.prems(1) n(2) rest] True show ?thesis by (auto simp: Let_def)
  next
    case False
    then have "result_ok app host cluster rank (?name, tok)" using Cons.prems(3) by (simp add: Let_def)
    then obtain u where "sendResult os (SPtr ?name) (SPtr tok) w = Ret DAAP_SUCCESS u"
      and u: "delivers os app host cluster rank [(?name, tok)] w u"
      using send_result_delivers_step [OF Cons.prems(1)] by blast
    then have step: "send_value os t tok n w = Ret (n + 1) u"
      using False n by (simp add: send_value_def Let_def)
    have "logging os app host cluster rank u" using u by (simp add: delivers_def)
    from Cons.IH [OF this n(2) rest] obtain w' where
      "foldC (send_value os t) toks (n + 1) u = Ret (n + 1 + length toks) w'"
      "delivers os app host cluster rank (name_values t (n + 1) toks) u w'" by blast
    with step False delivers_trans [OF u] show ?thesis by (fastforce simp: Let_def)
  qed
qed

section \<open>Rows\<close>

text \<open>
  The columns of a row as the code cuts them, the values of one column, and the results that
  the row stands for.
\<close>

definition row_columns :: "table_t \<Rightarrow> string \<Rightarrow> string list" where
  "row_columns t line = map butlast (strtok_tokens (cstr (sep t)) line)"

definition column_values :: "table_t \<Rightarrow> string \<Rightarrow> string list" where
  "column_values t col =
     (if has col (cstr (val_sep t)) then strtok_tokens (cstr (val_sep t)) col else [])"

definition row_values :: "table_t \<Rightarrow> string \<Rightarrow> string list" where
  "row_values t line =
     concat (map (column_values t) (take (nat (cols t)) (row_columns t line)))"

definition row_results :: "table_t \<Rightarrow> string \<Rightarrow> (string \<times> string) list" where
  "row_results t line = name_values t 0 (row_values t line)"

lemma copy_columns_run:
  assumes "i + length toks \<le> MAX_COLS" and "length cs = MAX_COLS"
  shows "copy_columns toks i cs w =
           Ret (take i cs @ map (\<lambda>t. Some (butlast t)) toks @ drop (i + length toks) cs) w"
  using assms
proof (induction toks arbitrary: i cs)
  case (Cons tok toks)
  let ?cs = "cs[i := Some (butlast tok)]"
  have i: "i < length cs" using Cons.prems by simp
  have "copy_columns toks (i + 1) ?cs w =
      Ret (take (i + 1) ?cs @ map (\<lambda>t. Some (butlast t)) toks @ drop (i + 1 + length toks) ?cs) w"
    using Cons.prems by (intro Cons.IH) simp_all
  moreover have "take (i + 1) ?cs = take i cs @ [Some (butlast tok)]"
    using i by (simp add: take_Suc_conv_app_nth)
  moreover have "drop (i + 1 + length toks) ?cs = drop (i + 1 + length toks) cs"
    by (simp add: drop_update_cancel)
  ultimately show ?case using Cons.prems i by simp
qed simp

lemma send_columns_run:
  assumes "logging os app host cluster rank w"
    and "i + length colsl \<le> MAX_COLS" and "length cs = MAX_COLS"
    and "\<forall>j < length colsl. cs ! (i + j) = Some (colsl ! j)"
    and "n + length (concat (map (column_values t) colsl)) \<le> MAX_VALS"
    and "\<forall>kv \<in> set (name_values t n (concat (map (column_values t) colsl))).
           result_ok app host cluster rank kv"
  shows "\<exists>cs' w'. foldC (send_column os t) [i..<i + length colsl] (cs, n) w =
             Ret (cs', n + length (concat (map (column_values t) colsl))) w' \<and>
           length cs' = MAX_COLS \<and>
           delivers os app host cluster rank
             (name_values t n (concat (map (column_values t) colsl))) w w'"
  using assms
proof (induction colsl arbitrary: i n cs w)
  case Nil
  then show ?case by (simp add: delivers_refl)
next
  case (Cons col colsl)
  let ?vs = "column_values t col"
  let ?rest = "concat (map (column_values t) colsl)"
  have i: "\<not> MAX_COLS \<le> i" "cs ! i = Some col" using Cons.prems(2,4) by auto
  have vs: "n + length ?vs \<le> MAX_VALS"
    "\<forall>kv \<in> set (name_values t n ?vs). result_ok app host cluster rank kv"
    using Cons.prems(5,6) by (simp_all add: name_values_append)
  obtain u where run: "foldC (send_value os t) ?vs n w = Ret (n + length ?vs) u"
    and u: "delivers os app host cluster rank (name_values t n ?vs) w u"
    using send_values_run [OF Cons.prems(1) vs] by blast
  have "\<exists>cs1. send_column os t i (cs, n) w = Ret (cs1, n + length ?vs) u \<and> length cs1 = MAX_COLS \<and>
      (\<forall>j. j \<noteq> i \<longrightarrow> cs1 ! j = cs ! j)"
    using run i Cons.prems(3) by (auto simp: send_column_def column_values_def Let_def)
  then obtain cs1 where step: "send_column os t i (cs, n) w = Ret (cs1, n + length ?vs) u"
    and cs1: "length cs1 = MAX_COLS" "\<And>j. j \<noteq> i \<Longrightarrow> cs1 ! j = cs ! j" by blast
  have "logging os app host cluster rank u" using u by (simp add: delivers_def)
  moreover have "Suc i + length colsl \<le> MAX_COLS" using Cons.prems(2) by simp
  moreover have "\<forall>j < length colsl. cs1 ! (Suc i + j) = Some (colsl ! j)"
    using Cons.prems(4) cs1(2) by (auto dest: spec [of _ "Suc _"])
  moreover have "n + length ?vs + length ?rest \<le> MAX_VALS"
    "\<forall>kv \<in> set (name_values t (n + length ?vs) ?rest). result_ok app host cluster rank kv"
    using Cons.prems(5,6) by (simp_all add: name_values_append)
  ultimately obtain cs' w' where
    "foldC (send_column os t) [Suc i..<Suc i + length colsl] (cs1, n + length ?vs) u =
       Ret (cs', n + length ?vs + length ?rest) w'"
    and "length cs' = MAX_COLS"
    and last: "delivers os app host cluster rank (name_values t (n + length ?vs) ?rest) u w'"
    using Cons.IH [of u "Suc i" cs1 "n + length ?vs"] cs1(1) by blast
  moreover have "[i..<i + length (col # colsl)] = i # [Suc i..<Suc i + length colsl]"
    by (simp add: upt_rec)
  ultimately show ?case
    using step delivers_trans [OF u last] by (auto simp: name_values_append add.assoc)
qed

lemma table_row_run:
  assumes "logging os app host cluster rank w" and "length cs = MAX_COLS"
    and "nat (cols t) \<le> length (row_columns t line)" "length (row_columns t line) \<le> MAX_COLS"
    and "length (row_values t line) \<le> MAX_VALS"
    and "\<forall>kv \<in> set (row_results t line). result_ok app host cluster rank kv"
  shows "\<exists>cs' w'. table_row os t line cs w = Ret cs' w' \<and> length cs' = MAX_COLS \<and>
           delivers os app host cluster rank (row_results t line) w w'"
proof -
  let ?toks = "strtok_tokens (cstr (sep t)) line"
  let ?k = "nat (cols t)"
  let ?cols = "take ?k (row_columns t line)"
  let ?cs = "map (\<lambda>t. Some (butlast t)) ?toks @ drop (length ?toks) cs"
  have len: "length ?toks \<le> MAX_COLS" "length ?cols = ?k"
    using assms(3,4) by (simp_all add: row_columns_def)
  have copy: "copy_columns ?toks 0 cs w = Ret ?cs w"
    using copy_columns_run [of 0 ?toks cs w] len(1) assms(2) by simp
  have "length ?cs = MAX_COLS" using len(1) assms(2) by simp
  moreover have "\<forall>j < length ?cols. ?cs ! (0 + j) = Some (?cols ! j)"
    using assms(3) by (simp add: row_columns_def nth_append)
  moreover have "0 + length ?cols \<le> MAX_COLS" using assms(3,4) len(2) by simp
  ultimately obtain cs' w' where
    "foldC (send_column os t) [0..<0 + length ?cols] (?cs, 0) w =
       Ret (cs', 0 + length (concat (map (column_values t) ?cols))) w'"
    and cs': "length cs' = MAX_COLS" and sent: "delivers os app host cluster rank
      (name_values t 0 (concat (map (column_values t) ?cols))) w w'"
    using send_columns_run [OF assms(1), of 0 ?cols ?cs 0 t] assms(5,6)
    by (auto simp: row_values_def row_results_def)
  with copy len(2) have "table_row os t line cs w = Ret cs' w'" by (simp add: table_row_def)
  with sent cs' show ?thesis by (auto simp: row_results_def row_values_def)
qed


definition sample_table :: table_t where
  "sample_table = described 0 sample_block"

lemma sample_row:
  "cols sample_table = 2"
  "row_columns sample_table ''grid  | 1 2  |'' = [''grid '', '' 1 2 '']"
  "row_values sample_table ''grid  | 1 2  |'' = [''grid'', ''1'', ''2'']"
  "row_results sample_table ''grid  | 1 2  |'' = [(''pct'', ''1''), (''time'', ''2'')]"
proof -
  have s: "cstr (sep sample_table) = ''|''" "cstr (val_sep sample_table) = '' ''"
    "map cstr (take 3 (val_names sample_table)) = [''op_skip'', ''pct'', ''time'']"
    "cols sample_table = 2"
    by (simp_all add: sample_table_def described_def sample_block_def stored_names_def MAX_VALS_def value_ok_stored value_ok_def newline_def
        carriage_return_def nul_def numeral_3_eq_3)
  then have names: "cstr (val_names sample_table ! 0) = ''op_skip''"
    "cstr (val_names sample_table ! Suc 0) = ''pct''"
    "cstr (val_names sample_table ! Suc (Suc 0)) = ''time''"
    by (simp_all add: sample_table_def described_def sample_block_def stored_names_def MAX_VALS_def value_ok_stored value_ok_def newline_def
        carriage_return_def nul_def)
  show "cols sample_table = 2" by (rule s(4))
  show rc: "row_columns sample_table ''grid  | 1 2  |'' = [''grid '', '' 1 2 '']"
    by (simp add: row_columns_def s)
  show rv: "row_values sample_table ''grid  | 1 2  |'' = [''grid'', ''1'', ''2'']"
    by (simp add: row_values_def rc s column_values_def has_def numeral_2_eq_2)
  show "row_results sample_table ''grid  | 1 2  |'' = [(''pct'', ''1''), (''time'', ''2'')]"
    by (simp add: row_results_def rv names has_def)
qed

lemma sample_results [simp]:
  "result_ok ''vpic'' ''nid00042'' ''trinity'' 7 (''pct'', ''1'')"
  "result_ok ''vpic'' ''nid00042'' ''trinity'' 7 (''time'', ''2'')"
  by (simp_all add: result_ok_def plain_def field_safe_def dquote_def fits_def influx_head_def
      dec_int_def dec.simps max_size_def)


section \<open>Matches of a key pattern\<close>

definition group_text :: "string \<Rightarrow> int \<times> int \<Rightarrow> string" where
  "group_text line se = take (nat (snd se - fst se)) (drop (nat (fst se)) line)"

text \<open>What PCRE may say of a group: it is unset, or a part of the line.\<close>

definition group_in :: "string \<Rightarrow> int \<times> int \<Rightarrow> bool" where
  "group_in line se \<longleftrightarrow>
     se = (-1, -1) \<or> 0 \<le> fst se \<and> fst se \<le> snd se \<and> snd se \<le> int (length line)"

lemma cstr_drop: "k \<le> length (cstr buf) \<Longrightarrow> cstr (drop k buf) = drop k (cstr buf)"
proof (induction buf arbitrary: k)
  case (Cons c buf)
  then show ?case by (cases k) (auto simp: cstr_def split: if_splits)
qed (simp add: cstr_def)

lemma read_upto_group:
  assumes "group_in (cstr buf) (s, e)"
  shows "read_upto buf s (nat (e - s)) = Some (group_text (cstr buf) (s, e))"
proof (cases "e = s")
  case True
  then show ?thesis by (simp add: read_upto_def group_text_def)
next
  case False
  then have range: "0 \<le> s" "s < e" "e \<le> int (length (cstr buf))" using assms by (auto simp: group_in_def)
  obtain k where s: "s = int k" using range(1) nonneg_int_cases by blast
  have k: "k < length (cstr buf)" using range s by simp
  have "cstr (drop k buf) = drop k (cstr buf)" using k by (simp add: cstr_drop)
  then show ?thesis
    using range k s length_cstr_le [of buf]
    by (simp add: read_upto_def group_text_def Let_def nat_diff_distrib')
qed

lemma send_pair_run:
  assumes "logging os app host cluster rank w"
    and "group_in (cstr buf) a" "group_in (cstr buf) b"
    and "result_ok app host cluster rank (group_text (cstr buf) a, group_text (cstr buf) b)"
  obtains w' where "send_pair os buf (a, b) w = Ret () w'"
    and "delivers os app host cluster rank
           [(group_text (cstr buf) a, group_text (cstr buf) b)] w w'"
proof -
  obtain s e s' e' where ab: "a = (s, e)" "b = (s', e')" by fastforce
  have le: "\<not> e - s < 0" "\<not> e' - s' < 0" using assms(2,3) by (auto simp: ab group_in_def)
  have alloc: "os_alloc os h" for h using assms(1) by (simp add: logging_def)
  let ?k = "group_text (cstr buf) a" and ?v = "group_text (cstr buf) b"
  let ?w = "w\<lparr>trace := trace w @ [EvAlloc (nat (e - s + 1)) True, EvAlloc (nat (e' - s' + 1)) True]\<rparr>"
  have "logging os app host cluster rank ?w" using assms(1) by (simp add: logging_trace)
  then obtain u where run: "sendResult os (SPtr ?k) (SPtr ?v) ?w = Ret DAAP_SUCCESS u"
    and u: "delivers os app host cluster rank [(?k, ?v)] ?w u"
    by (rule send_result_delivers_step [OF _ assms(4)])
  have "send_pair os buf (a, b) w = Ret () (u\<lparr>trace := trace u @ [EvFree ?k, EvFree ?v]\<rparr>)"
    using run le alloc read_upto_group [of buf s e] read_upto_group [of buf s' e'] assms(2,3)
    by (simp add: send_pair_def copy_group_def ab)
  moreover have "delivers os app host cluster rank [(?k, ?v)] w
      (u\<lparr>trace := trace u @ [EvFree ?k, EvFree ?v]\<rparr>)"
    using u by (simp add: delivers_def logging_trace delivered_by_def)
  ultimately show ?thesis by (rule that)
qed

lemma send_pairs_run:
  assumes "logging os app host cluster rank w"
    and "\<forall>(a, b) \<in> set ps. group_in (cstr buf) a \<and> group_in (cstr buf) b \<and>
           result_ok app host cluster rank (group_text (cstr buf) a, group_text (cstr buf) b)"
  shows "\<exists>w'. forC ps (send_pair os buf) w = Ret () w' \<and>
           delivers os app host cluster rank
             (map (\<lambda>(a, b). (group_text (cstr buf) a, group_text (cstr buf) b)) ps) w w'"
  using assms
proof (induction ps arbitrary: w)
  case Nil
  then show ?case by (simp add: delivers_refl)
next
  case (Cons p ps)
  obtain a b where p: "p = (a, b)" by (cases p)
  from Cons.prems obtain u where run: "send_pair os buf (a, b) w = Ret () u"
    and u: "delivers os app host cluster rank
      [(group_text (cstr buf) a, group_text (cstr buf) b)] w u"
    using send_pair_run [OF Cons.prems(1), of buf a b] by (auto simp: p)
  have "logging os app host cluster rank u" using u by (simp add: delivers_def)
  with Cons obtain w' where "forC ps (send_pair os buf) u = Ret () w'"
    and last: "delivers os app host cluster rank
      (map (\<lambda>(a, b). (group_text (cstr buf) a, group_text (cstr buf) b)) ps) u w'" by auto
  with run delivers_trans [OF u last] show ?case by (auto simp: p)
qed

text \<open>The results of one match: its groups after the whole match, two by two.\<close>

definition match_results :: "string \<Rightarrow> int \<Rightarrow> (int \<times> int) list \<Rightarrow> (string \<times> string) list" where
  "match_results line rc ovector =
     map (\<lambda>(a, b). (group_text line a, group_text line b)) (pair_up (tl (take (nat rc) ovector)))"

lemma pair_up_set: "(a, b) \<in> set (pair_up xs) \<Longrightarrow> a \<in> set xs \<and> b \<in> set xs"
  by (induction xs rule: pair_up.induct) auto

text \<open>The message about a vector with too few places is printed, and nothing is sent.\<close>

lemma vector_full_run:
  assumes "logging os app host cluster rank w"
  shows "\<exists>w'. ERROR_OUTPUT os U_parser
             (''Output vector wasn'' @ [CHR 0x27] @ ''t large enough for number of matches: %d'' @ [newline])
             [IntArg k] w = Ret () w' \<and>
           delivers os app host cluster rank [] w w'"
proof -
  have free: "Print_mutex U_parser \<notin> held w" using assms by (simp add: logging_def)
  obtain out where fmt: "format
      (''Output vector wasn'' @ [CHR 0x27] @ ''t large enough for number of matches: %d'' @ [newline])
      [IntArg k] = Some out"
    by (auto simp: format.simps directive_def strip_prefix_def newline_def)
  have "ERROR_OUTPUT os U_parser
      (''Output vector wasn'' @ [CHR 0x27] @ ''t large enough for number of matches: %d'' @ [newline])
      [IntArg k] w = Ret () (w\<lparr>trace := trace w @ [EvGettimeofday (os_gettimeofday os (trace w)),
        EvErrorOutput (daap_hostname w) (snprintf_str (PRINT_MAX - 1) out)]\<rparr>)"
    using free fmt by (simp add: output_defs deformat_def)
  moreover have "delivers os app host cluster rank [] w (w\<lparr>trace := trace w @
      [EvGettimeofday (os_gettimeofday os (trace w)),
       EvErrorOutput (daap_hostname w) (snprintf_str (PRINT_MAX - 1) out)]\<rparr>)"
    using assms by (simp add: delivers_def logging_trace delivered_by_def)
  ultimately show ?thesis by blast
qed

lemma match_key_run:
  assumes "logging os app host cluster rank w"
    and "pcre_exec re r (cstr buf) = (rc, ovector)" and "rc \<le> int (length ovector)"
    and "\<forall>g \<in> set (take (nat rc) ovector). group_in (cstr buf) g"
    and "\<forall>kv \<in> set (match_results (cstr buf) rc ovector). result_ok app host cluster rank kv"
  shows "\<exists>w'. match_key re os buf r w = Ret () w' \<and>
           delivers os app host cluster rank
             (if rc < 0 then [] else match_results (cstr buf) rc ovector) w w'"
proof (cases "rc \<le> 0")
  case True
  obtain w' where "ERROR_OUTPUT os U_parser
      (''Output vector wasn'' @ [CHR 0x27] @ ''t large enough for number of matches: %d'' @ [newline])
      [IntArg (of_nat (OVECCOUNT div 3 - 1))] w = Ret () w'"
    and "delivers os app host cluster rank [] w w'"
    using vector_full_run [OF assms(1)] by blast
  with True show ?thesis
    by (cases "rc = 0")
      (simp_all add: match_key_def assms(2) delivers_refl [OF assms(1)] match_results_def seqC_def)
next
  case False
  let ?ps = "pair_up (tl (take (nat rc) ovector))"
  have tl_in: "x \<in> set (tl xs) \<Longrightarrow> x \<in> set xs" for x :: "int \<times> int" and xs by (cases xs) auto
  have "\<forall>(a, b) \<in> set ?ps. group_in (cstr buf) a \<and> group_in (cstr buf) b \<and>
      result_ok app host cluster rank (group_text (cstr buf) a, group_text (cstr buf) b)"
  proof (clarify)
    fix a1 a2 b1 b2
    assume p: "((a1, a2), (b1, b2)) \<in> set ?ps"
    then have "(a1, a2) \<in> set (take (nat rc) ovector)" "(b1, b2) \<in> set (take (nat rc) ovector)"
      using pair_up_set [OF p] tl_in by blast+
    moreover have "result_ok app host cluster rank
        (group_text (cstr buf) (a1, a2), group_text (cstr buf) (b1, b2))"
      using p assms(5) by (auto simp: match_results_def)
    ultimately show "group_in (cstr buf) (a1, a2) \<and> group_in (cstr buf) (b1, b2) \<and>
        result_ok app host cluster rank
          (group_text (cstr buf) (a1, a2), group_text (cstr buf) (b1, b2))"
      using assms(4) by blast
  qed
  from send_pairs_run [OF assms(1) this] False assms(3)
  show ?thesis by (auto simp: match_key_def assms(2) match_results_def)
qed

text \<open>
  When a key pattern matches a line, \<open>match_key\<close> delivers one line per pair of groups, in
  order: the text of the odd group as the key, of the even group after it as the value. When
  it does not match, or matches with more groups than the vector has places for, nothing is
  delivered.
\<close>
lemma match_key_delivers:
  assumes "logging os app host cluster rank w"
    and "pcre_exec re r (cstr buf) = (rc, ovector)" and "rc \<le> int (length ovector)"
    and "\<forall>g \<in> set (take (nat rc) ovector). group_in (cstr buf) g"
    and "\<forall>kv \<in> set (match_results (cstr buf) rc ovector). result_ok app host cluster rank kv"
  shows "wp (match_key re os buf r)
           (\<lambda>_ w'. \<exists>lines. delivered (trace w') = delivered (trace w) @ lines \<and>
              list_all2 (reads_result app host cluster rank)
                (if rc < 0 then [] else match_results (cstr buf) rc ovector) lines) w"
  using match_key_run [OF assms] by (auto simp: wp_def delivers_def)

lemma match_key_delivers_witness:
  "wp (match_key re_words os_good ''ec'' ''ec'')
     (\<lambda>_ w'. \<exists>lines. delivered (trace w') = lines \<and>
        list_all2 (reads_result ''vpic'' ''nid00042'' ''trinity'' 7) [(''e'', ''c'')] lines)
     (world_ready SYSLOG)"
  using match_key_delivers [of os_good "''vpic''" "''nid00042''" "''trinity''" 7 "world_ready SYSLOG"
      re_words "''ec''" "''ec''" 3 "[(0, 0), (0, 1), (1, 2)]"]
  by (simp add: re_words_def has_def cstr_def nul_def numeral_3_eq_3 match_results_def group_text_def
      group_in_def result_ok_def plain_def field_safe_def dquote_def fits_def influx_head_def
      dec_int_def dec.simps max_size_def)

section \<open>Errors of the scan\<close>

lemma scan_line_outside:
  assumes "line_len st \<le> 0 \<or> int (length (line_buf st)) < line_len st"
    and "length raw < length (line_buf st)"
  shows "scan_line re os keys raw st w = Faults OutOfBounds"
proof -
  have "length (load_line (line_buf st) raw) = length (line_buf st)"
    using assms(2) by (simp add: load_line_def)
  then have "strip_eol (load_line (line_buf st) raw) (nat (line_len st)) = None"
    using assms by (cases "nat (line_len st)") auto
  then show ?thesis by (simp add: scan_line_def)
qed

text \<open>
  C37: \<open>parseResults\<close> never assigns \<open>line_len\<close> before it uses it as an index: when its arbitrary
  first value is not positive or larger than the array, no run on a non-empty results file
  returns success.
\<close>
theorem results_uninitialised_length:
  assumes "fs res = Some content" and "content \<noteq> []" and "length garbage = LINE_LEN"
    and "\<And>h. os_indet os h \<le> 0 \<or> int LINE_LEN < os_indet os h"
  shows "wlp (parseResults re os fs garbage keyf tabf res) (\<lambda>r w'. r = -1) w"
proof -
  have "fgets_all LINE_LEN content \<noteq> []"
    using assms(2) fgets_all_concat [of LINE_LEN content] by (auto simp: LINE_LEN_def)
  then obtain raw rest where lines: "fgets_all LINE_LEN content = raw # rest"
    by (cases "fgets_all LINE_LEN content") auto
  have short: "length raw < length garbage"
  proof -
    have "length raw \<le> LINE_LEN - 1" using fgets_all_line [of raw LINE_LEN content] lines by simp
    then show ?thesis using assms(3) by (simp add: LINE_LEN_def)
  qed
  have "scan_line re os keys raw (scan0 garbage (os_indet os h) ts) v = Faults OutOfBounds"
    for keys h ts v
    using scan_line_outside [of "scan0 garbage (os_indet os h) ts" raw re os keys v]
      short assms(3) assms(4) [of h]
    by (auto simp: scan0_def)
  then have "foldC (scan_line re os keys) (fgets_all LINE_LEN content)
      (scan0 garbage (os_indet os h) ts) v = Faults OutOfBounds" for keys h ts v
    by (simp add: lines)
  then show ?thesis
    by (auto simp: parseResults_def assms(1) wlp_iff bindC_def seqC_def
        split: outcome.splits if_splits)
qed

definition os_broken_stack :: os where
  "os_broken_stack = os_good\<lparr>os_indet := (\<lambda>_. 0)\<rparr>"

theorem results_uninitialised_length_witness:
  "wlp (parseResults re_words os_broken_stack (\<lambda>p. Some ''ec 1'') (replicate 512 nul)
          ''keys'' ''tables'' ''out'') (\<lambda>r w'. r = -1) (world_ready SYSLOG)"
  by (rule results_uninitialised_length [of _ _ "''ec 1''"]) (simp_all add: os_broken_stack_def LINE_LEN_def)

lemma open_error_printed:
  assumes "Print_mutex U_parser \<notin> held w"
    and "pre \<in> {''Failed to open table template file: '', ''Failed to parse table template file: ''}"
  shows "wp (ERROR_OUTPUT os U_parser (pre @ ''%s'') [StrArg path])
           (\<lambda>_ w'. held w' = held w \<and> delivered (trace w') = delivered (trace w)) w"
proof -
  have "format (pre @ ''%s'') [StrArg path] = Some (pre @ path)"
    using assms(2) by (auto simp: format.simps directive_def strip_prefix_def)
  then show ?thesis
    using assms(1) by (simp add: output_defs wp_eqs deformat_def delivered_by_def)
qed

text \<open>
  When the table template cannot be opened, as with the command line that the usage text
  allows (no \<open>-d\<close> option), \<open>parseResults\<close> fails before it reads a single result: nothing is
  delivered although key template and results file exist.
\<close>
lemma results_without_tables:
  assumes "fs res = Some content" and "fs tabf = None" and "Print_mutex U_parser \<notin> held w"
  shows "wp (parseResults re os fs garbage keyf tabf res)
           (\<lambda>r w'. r = -1 \<and> held w' = held w \<and> delivered (trace w') = delivered (trace w)) w"
proof -
  have open': "wp (ERROR_OUTPUT os U_parser ''Failed to open table template file: %s'' [StrArg tabf])
      (\<lambda>_ w'. held w' = held u \<and> delivered (trace w') = delivered (trace u)) u"
    and parse': "wp (ERROR_OUTPUT os U_parser ''Failed to parse table template file: %s'' [StrArg tabf])
      (\<lambda>_ w'. held w' = held u \<and> delivered (trace w') = delivered (trace u)) u"
    if "held u = held w" for u
    using open_error_printed [of u "''Failed to open table template file: ''" os tabf]
      open_error_printed [of u "''Failed to parse table template file: ''" os tabf] assms(3) that
    by simp_all
  let ?o = "trace w @ [EvFopen res]"
  let ?h = "?o @ [EvAlloc (8 * MAX_TABLES) (os_alloc os ?o)]"
  let ?w = "w\<lparr>trace := ?h @ [EvAlloc (8 * MAX_KEY_REGEXES) (os_alloc os ?h)]\<rparr>"
  obtain u where u: "ERROR_OUTPUT os U_parser ''Failed to open table template file: %s'' [StrArg tabf] ?w = Ret () u"
    "held u = held w" "delivered (trace u) = delivered (trace w)"
    using open' [of ?w] by (auto simp: wp_iff delivered_by_def)
  obtain v where v: "ERROR_OUTPUT os U_parser ''Failed to parse table template file: %s'' [StrArg tabf] u = Ret () v"
    "held v = held u" "delivered (trace v) = delivered (trace u)"
    using parse' [of u] u(2) by (auto simp: wp_iff)
  have "parseResults re os fs garbage keyf tabf res w = Ret (-1) v"
    using u(1) v(1) by (simp add: parseResults_def parseTableTemplate_def assms(1,2))
  with u v show ?thesis by (simp add: wp_def)
qed

lemma results_without_tables_witness:
  "wp (parseResults re_words os_good (\<lambda>p. if p = [] then None else Some ''ec 1'') (replicate 512 nul)
          ''keys'' [] ''out'')
     (\<lambda>r w'. r = -1 \<and> held w' = {} \<and> delivered (trace w') = []) (world_ready SYSLOG)"
  using results_without_tables [of "\<lambda>p. if p = [] then None else Some ''ec 1''" "''out''" "''ec 1''"
      "[]" "world_ready SYSLOG" re_words os_good "replicate 512 nul" "''keys''"]
  by simp

end
