(* ===== verification/Clients.thy ===== *)
theory Clients
  imports Results
begin

text \<open>
  The parts around the library: the metric placeholders of \<open>daap_metric.c\<close>, the empty library
  of \<open>daap_log_empty.c\<close> and \<open>daap_init_empty.c\<close>, and the program \<open>test_logger.c\<close>, which can be
  linked against either library (\<open>library\<close> is the set of functions it is linked to).

  The lemmas: the overrun of \<open>daapMetricCreate\<close>, what the test program delivers over the real
  library, and that it does nothing over the empty one.
\<close>

section \<open>Metrics\<close>

text \<open>
  \<open>daapMetricCreate\<close> copies the name to where \<open>metric_name\<close> of the caller's structure points;
  \<open>room\<close> is the number of bytes that the caller has there. The return value is an
  automatic variable that is never assigned.
\<close>

definition daapMetricCreate ::
  "os \<Rightarrow> nat \<Rightarrow> metric_t \<Rightarrow> string \<Rightarrow> int \<Rightarrow> string list \<Rightarrow> (world, int \<times> metric_t) cmd" where
  "daapMetricCreate os room metric metricName numTags tagNames =
     (if metricName = [] then ret (DAAP_ERROR, metric)
      else
        bindC (deref (metric_name metric)) (\<lambda>old.
        if room < length metricName + 1 then faultC OutOfBounds
        else
          bindC (asks (\<lambda>w. os_indet os (trace w))) (\<lambda>ret_val.
          ret (ret_val, metric\<lparr>metric_name := SPtr metricName\<rparr>))))"

definition daapMetricDestroy :: "metric_t \<Rightarrow> (world, int) cmd" where
  "daapMetricDestroy metric = ret 0"

definition daapMetricWrite :: "metric_t \<Rightarrow> (world, int) cmd" where
  "daapMetricWrite metric = ret 0"

section \<open>The two libraries\<close>

text \<open>The functions that \<open>test_logger.c\<close> takes from the library it is linked to.\<close>

record library =
  lib_init :: "string \<Rightarrow> int \<Rightarrow> int \<Rightarrow> transport \<Rightarrow> (world, int) cmd"
  lib_log_write :: "string \<Rightarrow> arg list \<Rightarrow> (world, int) cmd"
  lib_heartbeat :: "(world, int) cmd"
  lib_job_start :: "(world, int) cmd"
  lib_job_end :: "(world, int) cmd"
  lib_finalize :: "(world, int) cmd"

definition daap_log :: "os \<Rightarrow> library" where
  "daap_log os =
     \<lparr>lib_init = daapInit os, lib_log_write = daapLogWrite os, lib_heartbeat = daapLogHeartbeat os,
      lib_job_start = daapLogJobStart os, lib_job_end = daapLogJobEnd os,
      lib_finalize = daapFinalize os\<rparr>"

lemma daap_log_simps:
  "lib_init (daap_log os) = daapInit os" "lib_log_write (daap_log os) = daapLogWrite os"
  "lib_heartbeat (daap_log os) = daapLogHeartbeat os"
  "lib_job_start (daap_log os) = daapLogJobStart os"
  "lib_job_end (daap_log os) = daapLogJobEnd os" "lib_finalize (daap_log os) = daapFinalize os"
  by (simp_all add: daap_log_def)

definition empty_daapLogWrite :: "string \<Rightarrow> arg list \<Rightarrow> (world, int) cmd" where
  "empty_daapLogWrite message args = ret 0"

definition empty_daapLogHeartbeat :: "(world, int) cmd" where
  "empty_daapLogHeartbeat = ret 0"

definition empty_daapLogJobStart :: "(world, int) cmd" where
  "empty_daapLogJobStart = ret 0"

definition empty_daapLogJobEnd :: "(world, int) cmd" where
  "empty_daapLogJobEnd = ret 0"

definition empty_daapInit :: "string \<Rightarrow> int \<Rightarrow> int \<Rightarrow> transport \<Rightarrow> (world, int) cmd" where
  "empty_daapInit app_name msg_level agg tt = ret 0"

definition empty_daapFinalize :: "(world, int) cmd" where
  "empty_daapFinalize = ret 0"

lemmas empty_defs =
  empty_daapLogWrite_def empty_daapLogHeartbeat_def empty_daapLogJobStart_def
  empty_daapLogJobEnd_def empty_daapInit_def empty_daapFinalize_def

definition daap_log_empty :: library where
  "daap_log_empty =
     \<lparr>lib_init = empty_daapInit, lib_log_write = empty_daapLogWrite,
      lib_heartbeat = empty_daapLogHeartbeat, lib_job_start = empty_daapLogJobStart,
      lib_job_end = empty_daapLogJobEnd, lib_finalize = empty_daapFinalize\<rparr>"

lemma daap_log_empty_simps:
  "lib_init daap_log_empty a l g tt = ret 0" "lib_log_write daap_log_empty message args = ret 0"
  "lib_heartbeat daap_log_empty = ret 0" "lib_job_start daap_log_empty = ret 0"
  "lib_job_end daap_log_empty = ret 0" "lib_finalize daap_log_empty = ret 0"
  by (simp_all add: daap_log_empty_def empty_defs)

section \<open>The test program\<close>

text \<open>The options as \<open>getopt\<close> hands them out; every other letter is \<open>Test_other\<close>.\<close>

datatype test_opt = Test_t | Test_s | Test_other

definition test_usage :: "(world, 'a) cmd" where
  "test_usage =
     seqC (emit (EvStdout
       (''./test_logger [-s] [-t] '' @ [newline] @
        ''    -s: syslog transport '' @ [newline] @
        ''    -t: tcp transport '' @ [newline, newline] @ ''    '')))
    (exitC 0)"

definition test_option :: "test_opt \<Rightarrow> transport \<Rightarrow> (world, transport) cmd" where
  "test_option o1 tt =
     (case o1 of
        Test_t \<Rightarrow> ret TCP
      | Test_s \<Rightarrow> ret SYSLOG
      | Test_other \<Rightarrow> test_usage)"

definition decoupled :: "os \<Rightarrow> bool" where
  "decoupled os = (os_getenv os ''DAAP_DECOUPLE'' = Some ''1'')"

text \<open>A call whose failure is only reported.\<close>

definition reporting :: "(world, int) cmd \<Rightarrow> string \<Rightarrow> (world, unit) cmd" where
  "reporting call_it complaint =
     bindC call_it (\<lambda>ret_val. if ret_val \<noteq> 0 then emit (EvPerror complaint) else ret ())"

text \<open>
  \<open>uid\<close> is what \<open>getuid\<close> returned: an unsigned 32-bit number, passed to \<open>%d\<close>. The \<open>%n\<close> of
  the format stores the number of bytes printed so far in the variable, after its value has
  been passed.
\<close>

definition test_logger_main :: "library \<Rightarrow> os \<Rightarrow> 32 word \<Rightarrow> test_opt list \<Rightarrow> (world, int) cmd" where
  "test_logger_main lib os uid opts =
     bindC (foldC test_option opts NONE) (\<lambda>tt.
     if tt = NONE then test_usage
     else
       bindC (lib_init lib ''logger'' LOG_NOTICE DAAP_AGG_OFF tt) (\<lambda>ret_val.
       if ret_val \<noteq> 0 then ret ret_val
       else
         seqC (if decoupled os then
                 reporting (lib_job_start lib) ''Error in call to daapLogJobStart''
               else ret ())
        (seqC (reporting (lib_heartbeat lib) ''Error in call to daapLogHeartbeat'')
        (seqC (reporting
                 (lib_log_write lib ''daapLogWrite logging correctly, %n user id = %d.''
                    [PtrArg, IntArg (ucast uid)])
                 ''Error in call to daapLogWrite'')
        (seqC (if decoupled os then
                 reporting (lib_job_end lib) ''Error in call to daapLogJobEnd''
               else ret ())
        (bindC (lib_finalize lib) (\<lambda>r.
         ret 0)))))))"

section \<open>What the test program sends\<close>

definition chosen :: "test_opt list \<Rightarrow> transport" where
  "chosen opts = (if opts = [] then NONE else if last opts = Test_t then TCP else SYSLOG)"

lemma test_options_run:
  "Test_other \<notin> set opts \<Longrightarrow> foldC test_option opts tt w = Ret (if opts = [] then tt else chosen opts) w"
proof (induction opts arbitrary: tt)
  case (Cons x xs)
  then show ?case by (cases x) (simp_all add: test_option_def chosen_def)
qed simp

lemma exit_stops: "bindC (seqC m (exitC n)) k = seqC m (exitC n)"
  by (rule ext) (simp add: seqC_def bindC_def split: outcome.split)

lemma test_usage_stops: "bindC test_usage k = test_usage"
  unfolding test_usage_def by (rule exit_stops)

lemma test_options_usage:
  "Test_other \<in> set opts \<Longrightarrow> bindC (foldC test_option opts tt) k = test_usage"
proof (induction opts arbitrary: tt)
  case (Cons x xs)
  then show ?case
    by (cases x) (simp_all add: test_option_def bindC_ret bindC_assoc test_usage_stops)
qed simp

definition test_message :: "32 word \<Rightarrow> string" where
  "test_message uid = ''daapLogWrite logging correctly,  user id = '' @ dec_int (sint uid) @ ''.''"

lemma uid_slot: "ucast (ucast (uid :: 32 word) :: 64 word) = uid"
  by (simp add: ucast_up_ucast_id is_up.rep_eq)

lemma test_message_format:
  "format ''daapLogWrite logging correctly, %n user id = %d.'' [PtrArg, IntArg (ucast uid)] =
     Some (test_message uid)"
  by (simp add: format.simps directive_def strip_prefix_def test_message_def uid_slot)

lemma test_message_safe: "plain (test_message uid)" "field_safe (test_message uid)"
  using dec_int_chars [of "CHR ''%''" "sint uid"] dec_int_clean(4) [of "sint uid"]
  by (auto simp: test_message_def plain_def field_safe_def dquote_def is_digit_def
      dest: dec_int_chars)

definition client_messages :: "os \<Rightarrow> 32 word \<Rightarrow> string list" where
  "client_messages os uid =
     (if decoupled os then [''__daap_jobstart''] else []) @
     [''__daap_heartbeat'', test_message uid] @
     (if decoupled os then [''__daap_jobend''] else [])"

text \<open>A message counts only as the text that it formats to.\<close>

lemma log_write_formatted:
  assumes "format message args = format message' args'"
  shows "daapLogWrite os message args = daapLogWrite os message' args'"
proof -
  have "format_message os message args = format_message os message' args'"
    unfolding format_message_def null_device_length_def assms ..
  then show ?thesis by (simp only: daapLogWrite_def log_write_via_def)
qed

text \<open>In an initialised process no writer reports a failure.\<close>

lemma reporting_then:
  assumes "daapInit_called w" and "format message args = Some out" and "plain out"
    and "\<And>v. daapInit_called v \<Longrightarrow> k v = k' v"
  shows "seqC (reporting (daapLogWrite os message args) s) k w = seqC (daapLogWrite os out []) k' w"
proof -
  have same: "daapLogWrite os message args = daapLogWrite os out []"
    by (rule log_write_formatted) (simp add: assms(2) format_plain [OF assms(3)])
  show ?thesis
  proof (cases "daapLogWrite os out [] w")
    case (Ret r v)
    with log_write_returns [OF Ret] assms(1,4) show ?thesis
      by (simp add: same reporting_def DAAP_SUCCESS_def)
  qed (simp_all add: same reporting_def seqC_def bindC_def)
qed

lemma reporting_ok: "reporting (ret 0) s = ret ()"
  by (rule ext) (simp add: reporting_def)

lemma client_session:
  assumes "daapInit_called w"
  shows "seqC (if decoupled os then
                 reporting (daapLogJobStart os) ''Error in call to daapLogJobStart'' else ret ())
        (seqC (reporting (daapLogHeartbeat os) ''Error in call to daapLogHeartbeat'')
        (seqC (reporting (daapLogWrite os ''daapLogWrite logging correctly, %n user id = %d.''
                            [PtrArg, IntArg (ucast uid)]) ''Error in call to daapLogWrite'')
        (seqC (if decoupled os then
                 reporting (daapLogJobEnd os) ''Error in call to daapLogJobEnd'' else ret ())
         k))) w =
       seqC (log_all os (client_messages os uid)) k w"
proof -
  have plain: "plain ''__daap_jobstart''" "plain ''__daap_heartbeat''" "plain ''__daap_jobend''"
    by (simp_all add: plain_def)
  note texts = format_plain [OF plain(1), of "[]"] format_plain [OF plain(2), of "[]"]
    test_message_format format_plain [OF plain(3), of "[]"]
  show ?thesis
  proof (cases "decoupled os")
    case True
    show ?thesis
      unfolding log_all_def client_messages_def if_P [OF True] daapLogJobStart_def
        daapLogHeartbeat_def daapLogJobEnd_def append.simps forC.simps seqC_assoc seqC_ret
      by (intro reporting_then [OF _ texts(1) plain(1)] reporting_then [OF _ texts(2) plain(2)]
          reporting_then [OF _ texts(3) test_message_safe(1)]
          reporting_then [OF _ texts(4) plain(3)] assms refl)
  next
    case False
    show ?thesis
      unfolding log_all_def client_messages_def if_not_P [OF False]
        daapLogHeartbeat_def append.simps forC.simps seqC_assoc seqC_ret
      by (intro reporting_then [OF _ texts(2) plain(2)]
          reporting_then [OF _ texts(3) test_message_safe(1)] assms refl)
  qed
qed

text \<open>The program as a job of the library, where the initialisation succeeds.\<close>

lemma test_logger_job:
  assumes "Test_other \<notin> set opts" and "opts \<noteq> []"
    and "daapInit os ''logger'' LOG_NOTICE DAAP_AGG_OFF (chosen opts) w = Ret DAAP_SUCCESS u"
    and "daapInit_called u"
  shows "test_logger_main (daap_log os) os uid opts w =
           bindC (whole_job os ''logger'' LOG_NOTICE DAAP_AGG_OFF (chosen opts)
             (client_messages os uid)) (\<lambda>r. ret 0) w"
proof -
  have "chosen opts \<noteq> NONE" using assms(2) by (simp add: chosen_def)
  with client_session [OF assms(4), of os uid "bindC (daapFinalize os) (\<lambda>r. ret 0)"] assms
  show ?thesis
    unfolding test_logger_main_def daap_log_simps
    by (simp add: whole_job_def test_options_run DAAP_SUCCESS_def seqC_def bindC_assoc
        split del: if_split)
qed

text \<open>
  C27: The test program, linked against the library and run with \<open>-t\<close> or \<open>-s\<close> (and no other option), exits
  with 0 and delivers its heartbeat and its message, framed by a job start and a job end exactly
  once: the library sends them when it reports the job, the program when \<open>DAAP_DECOUPLE\<close> is 1. The
  conditions: syslog, or a collector that accepts every connection, handshake and whole write; a
  fresh process of a release build with memory, null device and a 64-bit clock; a run under Slurm, with \<open>SLURMD_NODENAME\<close> and
  \<open>SLURM_CLUSTER_NAME\<close> set to names that are not empty and free of separators (without the cluster name
  its tag is empty); a \<open>DAAP_CERTS\<close> that is not 4080 bytes long; a rank
  variable that is unset or within \<open>int\<close>; and lines that fit 2048 bytes.
\<close>
theorem test_logger_delivers:
  assumes "env_ok os" and "transport_works os (chosen opts)" and "init_env os host"
    and "\<not> daapInit_called w" "\<not> daapRank_zero w" "held w = {}" and "rank_value os = Some rank"
    and "tag_safe host" "tag_safe (env_cluster os)" and "Test_other \<notin> set opts" "opts \<noteq> []"
    and "\<forall>m \<in> set (job_messages os (client_messages os uid)).
           fits ''logger'' host (env_cluster os) rank m"
  shows "wp (test_logger_main (daap_log os) os uid opts)
           (\<lambda>r w'. r = 0 \<and> held w' = {} \<and>
              (\<exists>lines. delivered (trace w') = delivered (trace w) @ lines \<and>
                 list_all2 (reads_as ''logger'' host (env_cluster os) rank)
                   ((if reports_job os \<or> decoupled os then [''__daap_jobstart''] else []) @
                    [''__daap_heartbeat'', test_message uid] @
                    (if reports_job os \<or> decoupled os then [''__daap_jobend''] else [])) lines)) w"
proof -
  have app: "tag_safe ''logger''" by (simp add: tag_safe_def dquote_def)
  have "\<forall>m \<in> set (job_messages os (client_messages os uid)). plain m \<and> field_safe m"
    using test_message_safe [of uid]
    by (auto simp: job_messages_def client_messages_def plain_def field_safe_def dquote_def)
  with assms(12) have texts: "\<forall>m \<in> set (job_messages os (client_messages os uid)).
      plain m \<and> field_safe m \<and> fits ''logger'' host (env_cluster os) rank m" by blast
  have fits_start: "reports_job os \<Longrightarrow> fits ''logger'' host (env_cluster os) rank ''__daap_jobstart''"
    using assms(12) by (simp add: job_messages_def)
  obtain u where init: "daapInit os ''logger'' LOG_NOTICE DAAP_AGG_OFF (chosen opts) w = Ret DAAP_SUCCESS u"
    and "session_ready ''logger'' host (env_cluster os) u"
    by (rule job_start [OF assms(1-7) app assms(8,9) fits_start])
  then have called: "daapInit_called u" by (simp add: session_ready_def)
  have once: "job_messages os (client_messages os uid) =
      (if reports_job os \<or> decoupled os then [''__daap_jobstart''] else []) @
      [''__daap_heartbeat'', test_message uid] @
      (if reports_job os \<or> decoupled os then [''__daap_jobend''] else [])"
    by (auto simp: job_messages_def client_messages_def reports_job_def decouple_off_def decoupled_def)
  show ?thesis
    using whole_job_run [OF assms(1-7) app assms(8,9) texts, of LOG_NOTICE DAAP_AGG_OFF]
    unfolding once
    by (auto simp: wp_iff test_logger_job [OF assms(10,11) init called])
qed

theorem test_logger_delivers_witness:
  "wp (test_logger_main (daap_log (os_rank ''7'')) (os_rank ''7'') 1000 [Test_s, Test_t])
     (\<lambda>r w'. r = 0 \<and> held w' = {} \<and>
        (\<exists>lines. delivered (trace w') = lines \<and>
           list_all2 (reads_as ''logger'' ''nid00042'' ''trinity'' 7)
             [''__daap_heartbeat'', ''daapLogWrite logging correctly,  user id = 1000.''] lines)) world0"
proof -
  have msg: "test_message 1000 = ''daapLogWrite logging correctly,  user id = 1000.''"
    by (simp add: test_message_def dec_int_def dec.simps digit_char_def char_of_def bit_simps)
  have "\<not> decoupled (os_rank ''7'')" by (simp add: decoupled_def os_rank_def)
  then show ?thesis
    using test_logger_delivers [of "os_rank ''7''" "[Test_s, Test_t]" "''nid00042''" world0 7 1000]
    by (simp add: transport_works_def job_messages_def client_messages_def chosen_def msg
        fits_def influx_head_def dec_int_def dec.simps max_size_def)
qed

text \<open>
  Linked against the empty library, the test program behaves the same for its caller, exit
  status 0 and the usage text on a wrong command line, but it makes no call to the
  environment at all.
\<close>
lemma test_logger_empty:
  "test_logger_main daap_log_empty os uid opts w =
     (if opts = [] \<or> Test_other \<in> set opts then test_usage w else Ret 0 w)"
proof -
  have run: "test_logger_main daap_log_empty os uid opts w =
      bindC (foldC test_option opts NONE) (\<lambda>tt. if tt = NONE then test_usage else ret 0) w"
    unfolding test_logger_main_def daap_log_empty_simps reporting_ok bindC_ret seqC_ret if_cancel
    by simp
  show ?thesis
  proof (cases "Test_other \<in> set opts")
    case True
    then show ?thesis by (simp add: run test_options_usage test_usage_stops)
  next
    case False
    then show ?thesis
      unfolding run by (cases "opts = []") (simp_all add: bindC_ret test_options_run chosen_def)
  qed
qed

text \<open>
  \<open>daapMetricCreate\<close> bounds nothing: on a live buffer of \<open>room\<close> bytes it writes past the
  end exactly when the name does not fit with its terminator; otherwise the name is stored,
  and the return value is whatever the stack held.
\<close>
lemma metric_create_overrun:
  assumes "metric_name metric = SPtr old" and "metricName \<noteq> []"
  shows "(daapMetricCreate os room metric metricName numTags tagNames w = Faults OutOfBounds
            \<longleftrightarrow> room \<le> length metricName) \<and>
         (length metricName < room \<longrightarrow>
            daapMetricCreate os room metric metricName numTags tagNames w =
              Ret (os_indet os (trace w), metric\<lparr>metric_name := SPtr metricName\<rparr>) w)"
  using assms by (simp add: daapMetricCreate_def)

lemma metric_create_overrun_witness:
  "daapMetricCreate os_good 4
     \<lparr>metric_name = SPtr [], metric_value = SNull, metric_id = 0, metric_hostname = SNull,
      job_id = SNull, cpu_id = 0, num_tags = 0, tag_array = []\<rparr> ''flops'' 0 [] world0 = Faults OutOfBounds"
  using metric_create_overrun
    [of "\<lparr>metric_name = SPtr [], metric_value = SNull, metric_id = 0, metric_hostname = SNull,
      job_id = SNull, cpu_id = 0, num_tags = 0, tag_array = []\<rparr>" "[]" "''flops''" os_good 4 0 "[]" world0]
  by simp

end
