(* ===== verification/Scan.thy ===== *)
theory Scan
  imports Results
begin

text \<open>
  The scan of the results file as a whole. \<open>scan_spec\<close> is what the parser is for, without
  buffers, indices and pointers: a machine that is outside or inside one of the tables and says for
  each line which results it holds. For a template of up to ten tables, \<open>parseResults\<close> is
  shown to refine it: it delivers exactly the results that the machine finds, line after line; the last
  section composes it with the library, from the command line to \<open>daapFinalize\<close>.

  The machine pairs the values of a row with the value names as the template parser holds them.
  The index \<open>line_len\<close>, which the source never sets, is assumed to point at a byte behind all
  lines that is no line end; the other case is \<open>results_uninitialised_length\<close>.
\<close>

section \<open>The abstract parser\<close>

text \<open>
  \<open>Outside ks\<close>: of each table the given number of headers has been seen; \<open>Inside i ks\<close>: in
  the rows of table \<open>i\<close>.
\<close>

datatype mode = Outside "nat list" | Inside nat "nat list"

definition header_at :: "table_t \<Rightarrow> nat \<Rightarrow> string" where
  "header_at t k = cstr (header_names t ! k)"

definition next_header :: "string \<Rightarrow> table_t list \<Rightarrow> nat list \<Rightarrow> nat option" where
  "next_header line ts ks = find (\<lambda>i. has line (header_at (ts ! i) (ks ! i))) [0..<length ts]"

definition key_results :: "'re pcre \<Rightarrow> 're list \<Rightarrow> string \<Rightarrow> (string \<times> string) list" where
  "key_results re keys line =
     concat (map (\<lambda>r. case pcre_exec re r line of
                        (rc, ovector) \<Rightarrow> if rc < 0 then [] else match_results line rc ovector) keys)"

text \<open>
  The first table whose next header is in the line moves on, and its rows begin when that was
  its last header. A line that is no such header is searched for keys only while no header of
  the last table has been seen. The first line without the separator of the table ends its
  rows and is searched for keys.
\<close>

fun scan_spec ::
  "'re pcre \<Rightarrow> 're list \<Rightarrow> table_t list \<Rightarrow> mode \<Rightarrow> string \<Rightarrow> mode \<times> (string \<times> string) list" where
  "scan_spec re keys ts (Outside ks) line =
     (case next_header line ts ks of
        Some i \<Rightarrow>
          (if Suc (ks ! i) = num_headers (ts ! i) then Inside i (ks[i := Suc (ks ! i)])
           else Outside (ks[i := Suc (ks ! i)]), [])
      | None \<Rightarrow>
          (Outside ks, if ts = [] \<or> last ks = 0 then key_results re keys line else []))"
| "scan_spec re keys ts (Inside i ks) line =
     (if has line (cstr (sep (ts ! i))) then (Inside i ks, row_results (ts ! i) line)
      else (Outside (ks[i := 0]), key_results re keys line))"

fun spec_results ::
  "'re pcre \<Rightarrow> 're list \<Rightarrow> table_t list \<Rightarrow> mode \<Rightarrow> string list \<Rightarrow> (string \<times> string) list" where
  "spec_results re keys ts m [] = []"
| "spec_results re keys ts m (line # lines) =
     (case scan_spec re keys ts m line of
        (m', kvs) \<Rightarrow> kvs @ spec_results re keys ts m' lines)"

text \<open>Before the first line no header of any table has been seen.\<close>

definition unseen :: "'b list \<Rightarrow> mode" where
  "unseen bs = Outside (replicate (length bs) 0)"

section \<open>Lines the arrays have room for\<close>

text \<open>
  What PCRE documents of its result: at most as many groups as the vector holds (0 stands for
  more), and each of them unset or a part of the line. Left out is a pattern that moves the
  start of the match behind its end (\<open>\K\<close> in a lookahead).
\<close>

definition pcre_sound :: "'re pcre \<Rightarrow> 're list \<Rightarrow> string \<Rightarrow> bool" where
  "pcre_sound re keys line \<longleftrightarrow>
     (\<forall>r \<in> set keys. case pcre_exec re r line of
        (rc, ovector) \<Rightarrow> rc \<le> int (length ovector) \<and>
          (\<forall>g \<in> set (take (nat rc) ovector). group_in line g))"

definition row_fits :: "table_t \<Rightarrow> string \<Rightarrow> bool" where
  "row_fits t line \<longleftrightarrow>
     nat (cols t) \<le> length (row_columns t line) \<and> length (row_columns t line) \<le> MAX_COLS \<and>
     length (row_values t line) \<le> MAX_VALS"

fun row_of :: "table_t list \<Rightarrow> mode \<Rightarrow> string \<Rightarrow> table_t option" where
  "row_of ts (Inside i ks) line = (if has line (cstr (sep (ts ! i))) then Some (ts ! i) else None)"
| "row_of ts (Outside ks) line = None"

fun run_fits ::
  "(string \<times> string \<Rightarrow> bool) \<Rightarrow> nat \<Rightarrow> 're pcre \<Rightarrow> 're list \<Rightarrow> table_t list \<Rightarrow> mode \<Rightarrow>
     string list \<Rightarrow> bool" where
  "run_fits ok n re keys ts m [] = True"
| "run_fits ok n re keys ts m (line # lines) =
     (is_cstr line \<and> length line + 1 < n \<and> pcre_sound re keys line \<and>
      (case row_of ts m line of None \<Rightarrow> True | Some t \<Rightarrow> row_fits t line) \<and>
      (\<forall>kv \<in> set (snd (scan_spec re keys ts m line)). ok kv) \<and>
      run_fits ok n re keys ts (fst (scan_spec re keys ts m line)) lines)"

section \<open>The concrete state\<close>

definition tabs_of :: "table_t list \<Rightarrow> nat list \<Rightarrow> table_t option list" where
  "tabs_of ts ks = map2 (\<lambda>t k. Some (t\<lparr>headers_found := k\<rparr>)) ts ks"

definition partial :: "table_t list \<Rightarrow> nat list \<Rightarrow> bool" where
  "partial ts ks \<longleftrightarrow> length ks = length ts \<and> (\<forall>i < length ts. ks ! i < num_headers (ts ! i))"

definition scanning :: "table_t list \<Rightarrow> nat \<Rightarrow> mode \<Rightarrow> scan_state \<Rightarrow> bool" where
  "scanning ts n m st \<longleftrightarrow>
     line_len st = int n \<and> n \<le> LINE_LEN \<and> length (line_buf st) = LINE_LEN \<and>
     \<not> is_eol (line_buf st ! (n - 1)) \<and> length (columns st) = MAX_COLS \<and>
     (case m of
        Outside ks \<Rightarrow> partial ts ks \<and> \<not> in_tab st \<and> tabs st = tabs_of ts ks \<and>
                      (ts = [] \<longrightarrow> cur st = None)
      | Inside i ks \<Rightarrow> i < length ts \<and> ks ! i = num_headers (ts ! i) \<and> partial ts (ks[i := 0]) \<and>
                       in_tab st \<and> cur st = Some i \<and> tabs st = tabs_of ts ks)"

lemma tabs_of_simps [simp]:
  "length (tabs_of ts ks) = min (length ts) (length ks)"
  "i < length ts \<Longrightarrow> length ks = length ts \<Longrightarrow>
     tabs_of ts ks ! i = Some ((ts ! i)\<lparr>headers_found := ks ! i\<rparr>)"
  by (simp_all add: tabs_of_def)

lemma tabs_of_update:
  assumes "i < length ts" and "length ks = length ts"
  shows "(tabs_of ts ks)[i := Some ((ts ! i)\<lparr>headers_found := k\<rparr>)] = tabs_of ts (ks[i := k])"
  using assms by (intro nth_equalityI) (auto simp: nth_list_update)

lemma find_header_run:
  assumes "\<forall>j \<in> set js. j < length ts \<and> ks ! j < MAX_HEADERS" and "length ks = length ts"
  shows "find_header line js (tabs_of ts ks) c w =
           (case find (\<lambda>i. has line (header_at (ts ! i) (ks ! i))) js of
              Some i \<Rightarrow> Ret (tabs_of ts (ks[i := Suc (ks ! i)]), Some i) w
            | None \<Rightarrow> Ret (tabs_of ts ks, if js = [] then c else Some (last js)) w)"
  using assms
  by (induction js arbitrary: c)
    (auto simp: header_at_def tabs_of_update not_le [symmetric] split: option.split)

lemma next_header_run:
  assumes "partial ts ks" and "\<forall>t \<in> set ts. num_headers t \<le> MAX_HEADERS"
  shows "find_header line [0..<length (tabs_of ts ks)] (tabs_of ts ks) c w =
           (case next_header line ts ks of
              Some i \<Rightarrow> Ret (tabs_of ts (ks[i := Suc (ks ! i)]), Some i) w
            | None \<Rightarrow> Ret (tabs_of ts ks, if ts = [] then c else Some (length ts - 1)) w)"
proof -
  have "ks ! j < MAX_HEADERS" if "j < length ts" for j
    using assms that nth_mem [OF that] by (fastforce simp: partial_def)
  then have "\<forall>j \<in> set [0..<length ts]. j < length ts \<and> ks ! j < MAX_HEADERS" by simp
  with find_header_run [OF this, of line c w] assms(1) show ?thesis
    by (auto simp: partial_def next_header_def split: option.split)
qed

lemma next_header_Some: "next_header line ts ks = Some i \<Longrightarrow> i < length ts"
  by (auto simp: next_header_def find_Some_iff)

lemma partial_step:
  assumes "partial ts ks" and "i < length ts"
  shows "Suc (ks ! i) \<noteq> num_headers (ts ! i) \<Longrightarrow> partial ts (ks[i := Suc (ks ! i)])"
    and "partial ts (ks[i := 0])"
  using assms by (auto simp: partial_def nth_list_update Suc_lessI)

lemma name_values_found [simp]:
  "name_values (t\<lparr>headers_found := k\<rparr>) n vs = name_values t n vs"
  by (induction vs arbitrary: n) (simp_all add: Let_def)

lemma row_found [simp]:
  "row_columns (t\<lparr>headers_found := k\<rparr>) line = row_columns t line"
  "row_values (t\<lparr>headers_found := k\<rparr>) line = row_values t line"
  "row_results (t\<lparr>headers_found := k\<rparr>) line = row_results t line"
proof -
  show cs: "row_columns (t\<lparr>headers_found := k\<rparr>) line = row_columns t line"
    by (simp add: row_columns_def)
  have "column_values (t\<lparr>headers_found := k\<rparr>) = column_values t"
    by (rule ext) (cases t; simp add: column_values_def)
  then show vs: "row_values (t\<lparr>headers_found := k\<rparr>) line = row_values t line"
    by (cases t) (simp add: row_values_def row_columns_def)
  show "row_results (t\<lparr>headers_found := k\<rparr>) line = row_results t line"
    by (simp add: row_results_def vs)
qed

text \<open>A line in its buffer: the text of the line, and the byte that \<open>line_len\<close> points at.\<close>

lemma load_short:
  assumes "length line + 1 < n" and "n \<le> length buf" and "is_cstr line"
  shows "length (load_line buf line) = length buf" "load_line buf line ! (n - 1) = buf ! (n - 1)"
    "cstr (load_line buf line) = line"
proof -
  show "length (load_line buf line) = length buf" using assms(1,2) by (simp add: load_line_def)
  obtain d where "n = length line + 2 + d"
    using assms(1) less_imp_Suc_add [of "length line + 1" n] by auto
  then show "load_line buf line ! (n - 1) = buf ! (n - 1)"
    using assms(2) by (simp add: load_line_def nth_append)
  show "cstr (load_line buf line) = line"
    using assms(3) by (simp add: load_line_def cstr_append_nul)
qed

lemma wiped_tail:
  assumes "length line + 1 < n" and "n \<le> length buf" and "length v = length line"
  shows "length (v @ drop (length line) buf) = length buf"
    "(v @ drop (length line) buf) ! (n - 1) = buf ! (n - 1)"
proof -
  obtain d where "n = length line + 2 + d"
    using assms(1) less_imp_Suc_add [of "length line + 1" n] by auto
  then show "(v @ drop (length line) buf) ! (n - 1) = buf ! (n - 1)"
    "length (v @ drop (length line) buf) = length buf"
    using assms(2,3) by (simp_all add: nth_append)
qed

lemma strip_nothing:
  "0 < n \<Longrightarrow> n \<le> length buf \<Longrightarrow> \<not> is_eol (buf ! (n - 1)) \<Longrightarrow> strip_eol buf n = Some (buf, n)"
  by (cases n) simp_all

section \<open>The keys of one line\<close>

lemma match_keys_run:
  assumes "logging os app host cluster rank w" and "pcre_sound re keys (cstr buf)"
    and "\<forall>kv \<in> set (key_results re keys (cstr buf)). result_ok app host cluster rank kv"
  shows "\<exists>w'. forC keys (match_key re os buf) w = Ret () w' \<and>
           delivers os app host cluster rank (key_results re keys (cstr buf)) w w'"
  using assms
proof (induction keys arbitrary: w)
  case Nil
  then show ?case by (simp add: key_results_def delivers_refl)
next
  case (Cons r keys)
  obtain rc ov where match: "pcre_exec re r (cstr buf) = (rc, ov)" by fastforce
  let ?kvs = "if rc < 0 then [] else match_results (cstr buf) rc ov"
  have split: "key_results re (r # keys) (cstr buf) = ?kvs @ key_results re keys (cstr buf)"
    by (simp add: key_results_def match)
  have "rc \<le> int (length ov)" "\<forall>g \<in> set (take (nat rc) ov). group_in (cstr buf) g"
    using Cons.prems(2) match by (auto simp: pcre_sound_def)
  moreover have "\<forall>kv \<in> set (match_results (cstr buf) rc ov). result_ok app host cluster rank kv"
    using Cons.prems(3) by (cases "rc < 0") (auto simp: split match_results_def)
  ultimately obtain u where first: "match_key re os buf r w = Ret () u"
    and u: "delivers os app host cluster rank ?kvs w u"
    using match_key_run [OF Cons.prems(1) match] by blast
  have "logging os app host cluster rank u" using u by (simp add: delivers_def)
  moreover have "pcre_sound re keys (cstr buf)" using Cons.prems(2) by (simp add: pcre_sound_def)
  moreover have "\<forall>kv \<in> set (key_results re keys (cstr buf)). result_ok app host cluster rank kv"
    using Cons.prems(3) by (simp add: split)
  ultimately obtain w' where "forC keys (match_key re os buf) u = Ret () w'"
    and "delivers os app host cluster rank (key_results re keys (cstr buf)) u w'"
    using Cons.IH by blast
  with first delivers_trans [OF u] show ?case by (auto simp: split)
qed

section \<open>One step of the refinement\<close>

text \<open>What is left of a step when the line, or the rest of it, is searched for keys.\<close>

lemma keys_step:
  assumes "logging os app host cluster rank w" and "cstr buf = line" and "pcre_sound re keys line"
    and "\<forall>kv \<in> set (key_results re keys line). result_ok app host cluster rank kv"
  obtains w' where "forC keys (match_key re os buf) w = Ret () w'"
    and "delivers os app host cluster rank (key_results re keys line) w w'"
  using match_keys_run [OF assms(1), of re keys buf] assms(2-4) by blast

lemma outside_step:
  assumes "scanning ts n (Outside ks) st" and "logging os app host cluster rank w"
    and "\<forall>t \<in> set ts. num_headers t \<le> MAX_HEADERS"
    and "run_fits (result_ok app host cluster rank) n re keys ts (Outside ks) [line]"
    and "strip_eol (load_line (line_buf st) line) n = Some (buf, n)" and "cstr buf = line"
    and "length buf = LINE_LEN" "\<not> is_eol (buf ! (n - 1))"
  shows "\<exists>st' w'. scan_line re os keys line st w = Ret st' w' \<and>
           scanning ts n (fst (scan_spec re keys ts (Outside ks) line)) st' \<and>
           delivers os app host cluster rank (snd (scan_spec re keys ts (Outside ks) line)) w w'"
proof -
  let ?st = "st\<lparr>line_buf := buf, line_len := int n\<rparr>"
  have st: "partial ts ks" "\<not> in_tab st" "tabs st = tabs_of ts ks" "ts = [] \<longrightarrow> cur st = None"
    and len: "line_len st = int n" "length ks = length ts"
    using assms(1) by (simp_all add: scanning_def partial_def)
  have base: "scanning ts n (Outside ks) (?st\<lparr>tabs := tabs_of ts ks, cur := c\<rparr>)" if "ts = [] \<longrightarrow> c = None" for c
    using assms(1,7,8) that by (simp add: scanning_def)
  note head = next_header_run [OF st(1) assms(3), of line "cur st" w]
  note run = scan_line_def len(1) assms(5,6) st(2,3) Let_def
  show ?thesis
  proof (cases "next_header line ts ks")
    case (Some i)
    then have i: "i < length ts" by (rule next_header_Some)
    have "scan_line re os keys line st w = Ret (?st\<lparr>tabs := tabs_of ts (ks[i := Suc (ks ! i)]),
        cur := Some i, in_tab := (Suc (ks ! i) = num_headers (ts ! i))\<rparr>) w"
      using head Some i len(2) by (simp add: run table_at_def)
    then show ?thesis
      using Some i partial_step [OF st(1) i] assms(1,2,7,8) len(2)
      by (auto simp: scanning_def delivers_refl)
  next
    case None
    show ?thesis
    proof (cases "ts = [] \<or> last ks = 0")
      case True
      have zero: "ts \<noteq> [] \<Longrightarrow> ks ! (length ts - Suc 0) = 0"
        using True len(2) last_conv_nth [of ks] by (cases "ks = []") auto
      from True have "\<forall>kv \<in> set (key_results re keys line). result_ok app host cluster rank kv"
        "pcre_sound re keys line"
        using assms(4) None by auto
      from keys_step [OF assms(2,6) this(2,1)] obtain w'
        where keys: "forC keys (match_key re os buf) w = Ret () w'"
          and sent: "delivers os app host cluster rank (key_results re keys line) w w'" .
      have "scan_line re os keys line st w = Ret (?st\<lparr>tabs := tabs_of ts ks, cur := None\<rparr>) w'"
        using head None True keys st(4) len(2) zero
        by (cases "ts = []") (simp_all add: run table_at_def)
      with base [of None] sent None True show ?thesis by simp
    next
      case False
      then have ne: "ts \<noteq> []" and k: "ks ! (length ts - 1) \<noteq> 0"
        using len(2) last_conv_nth [of ks] by (cases "ks = []"; auto)+
      moreover have "length ts - 1 < length ts" using ne by (cases ts) auto
      ultimately have "ks ! (length ts - 1) \<noteq> num_headers (ts ! (length ts - 1))"
        using st(1) by (metis less_irrefl partial_def)
      then have "scan_line re os keys line st w =
          Ret (?st\<lparr>tabs := tabs_of ts ks, cur := Some (length ts - 1)\<rparr>) w"
        using head None ne k st(2) len(2) by (simp add: run table_at_def)
      with base [of "Some (length ts - 1)"] ne None False assms(2) show ?thesis
        by (simp add: delivers_refl)
    qed
  qed
qed

lemma inside_step:
  assumes "scanning ts n (Inside i ks) st" and "logging os app host cluster rank w"
    and "\<forall>t \<in> set ts. 0 < num_headers t"
    and "run_fits (result_ok app host cluster rank) n re keys ts (Inside i ks) [line]"
    and "strip_eol (load_line (line_buf st) line) n = Some (buf, n)" and "cstr buf = line"
    and "length buf = LINE_LEN" "\<not> is_eol (buf ! (n - 1))"
  shows "\<exists>st' w'. scan_line re os keys line st w = Ret st' w' \<and>
           scanning ts n (fst (scan_spec re keys ts (Inside i ks) line)) st' \<and>
           delivers os app host cluster rank (snd (scan_spec re keys ts (Inside i ks) line)) w w'"
proof -
  let ?t = "(ts ! i)\<lparr>headers_found := num_headers (ts ! i)\<rparr>"
  have st: "i < length ts" "in_tab st" "cur st = Some i" "tabs st = tabs_of ts ks"
    and ks: "ks ! i = num_headers (ts ! i)" "length ks = length ts" "partial ts (ks[i := 0])"
    and len: "line_len st = int n" "length (columns st) = MAX_COLS" and n: "n \<le> LINE_LEN"
    using assms(1) by (simp_all add: scanning_def partial_def)
  have at: "tabs_of ts ks ! i = Some ?t" using st(1) ks by simp
  have some: "0 < num_headers (ts ! i)" using assms(3) st(1) by simp
  have short: "length line + 1 < n" using assms(4) by simp
  note run = scan_line_def len(1) assms(5,6) st(2-4) at Let_def table_at_def
  show ?thesis
  proof (cases "has line (cstr (sep (ts ! i)))")
    case True
    then have row: "row_fits ?t line"
      "\<forall>kv \<in> set (row_results ?t line). result_ok app host cluster rank kv"
      using assms(4) by (simp_all add: row_fits_def)
    then obtain cs w' where table: "table_row os ?t line (columns st) w = Ret cs w'"
      and cs: "length cs = MAX_COLS"
      and sent: "delivers os app host cluster rank (row_results (ts ! i) line) w w'"
      using table_row_run [OF assms(2) len(2), of ?t line] by (auto simp: row_fits_def)
    let ?wiped = "strtok_wipe (cstr (sep (ts ! i))) line @ drop (length line) buf"
    have "scan_line re os keys line st w = Ret (st\<lparr>line_len := int n, tabs := tabs_of ts ks,
        cur := Some i, columns := cs, line_buf := ?wiped\<rparr>) w'"
      using True some table by (simp add: run)
    moreover have "length ?wiped = LINE_LEN" "?wiped ! (n - 1) = buf ! (n - 1)"
      using wiped_tail [OF short, of buf "strtok_wipe (cstr (sep (ts ! i))) line"] n assms(7)
      by simp_all
    ultimately show ?thesis
      using True st ks sent cs n assms(8) by (simp add: scanning_def)
  next
    case False
    then have "\<forall>kv \<in> set (key_results re keys line). result_ok app host cluster rank kv"
      "pcre_sound re keys line"
      using assms(4) by auto
    from keys_step [OF assms(2,6) this(2,1)] obtain w'
      where keys: "forC keys (match_key re os buf) w = Ret () w'"
        and sent: "delivers os app host cluster rank (key_results re keys line) w w'" .
    have "scan_line re os keys line st w = Ret (st\<lparr>line_buf := buf, line_len := int n,
        tabs := tabs_of ts (ks[i := 0]), cur := None, in_tab := False\<rparr>) w'"
      using False some keys tabs_of_update [OF st(1) ks(2), of 0] by (simp add: run)
    with False sent ks len n assms(7,8) show ?thesis by (simp add: scanning_def)
  qed
qed

lemma scan_line_refines:
  assumes "scanning ts n m st" and "logging os app host cluster rank w"
    and "\<forall>t \<in> set ts. num_headers t \<le> MAX_HEADERS \<and> 0 < num_headers t"
    and "run_fits (result_ok app host cluster rank) n re keys ts m [line]"
  shows "\<exists>st' w'. scan_line re os keys line st w = Ret st' w' \<and>
           scanning ts n (fst (scan_spec re keys ts m line)) st' \<and>
           delivers os app host cluster rank (snd (scan_spec re keys ts m line)) w w'"
proof -
  let ?buf = "load_line (line_buf st) line"
  have n: "length line + 1 < n" "n \<le> length (line_buf st)" "0 < n" and cstr: "is_cstr line"
    and eol: "\<not> is_eol (line_buf st ! (n - 1))" and len: "length (line_buf st) = LINE_LEN"
    using assms(1,4) by (auto simp: scanning_def)
  note buf = load_short [OF n(1,2) cstr]
  have text': "cstr ?buf = line" "length ?buf = LINE_LEN" "\<not> is_eol (?buf ! (n - 1))"
    using buf eol len by simp_all
  then have strip: "strip_eol ?buf n = Some (?buf, n)"
    using strip_nothing [of n ?buf] n len by simp
  show ?thesis
  proof (cases m)
    case (Outside ks)
    with outside_step [OF _ assms(2) _ _ strip text'] assms show ?thesis by blast
  next
    case (Inside i ks)
    with inside_step [OF _ assms(2) _ _ strip text'] assms show ?thesis by blast
  qed
qed

text \<open>And all lines.\<close>

lemma scan_refines:
  assumes "scanning ts n m st" and "logging os app host cluster rank w"
    and "\<forall>t \<in> set ts. num_headers t \<le> MAX_HEADERS \<and> 0 < num_headers t"
    and "run_fits (result_ok app host cluster rank) n re keys ts m lines"
  shows "\<exists>st' w'. foldC (scan_line re os keys) lines st w = Ret st' w' \<and>
           delivers os app host cluster rank (spec_results re keys ts m lines) w w'"
  using assms(1,2,4)
proof (induction lines arbitrary: m st w)
  case Nil
  then show ?case by (simp add: delivers_refl)
next
  case (Cons line lines)
  let ?next = "scan_spec re keys ts m line"
  obtain st1 u where step: "scan_line re os keys line st w = Ret st1 u"
    and st1: "scanning ts n (fst ?next) st1"
    and u: "delivers os app host cluster rank (snd ?next) w u"
    using scan_line_refines [OF Cons.prems(1,2) assms(3), of re keys line] Cons.prems(3) by auto
  have "logging os app host cluster rank u" using u by (simp add: delivers_def)
  moreover have "run_fits (result_ok app host cluster rank) n re keys ts (fst ?next) lines"
    using Cons.prems(3) by simp
  ultimately obtain st' w' where "foldC (scan_line re os keys) lines st1 u = Ret st' w'"
    and "delivers os app host cluster rank (spec_results re keys ts (fst ?next) lines) u w'"
    using Cons.IH [OF st1] by blast
  with step delivers_trans [OF u] show ?case by (auto simp: split_beta)
qed

section \<open>The whole program\<close>

text \<open>Reading the key template leaves the session alone.\<close>

lemma key_template_keeps:
  "preserves init_data (parseKeyTemplate re os fs array path)"
  "preserves daapInit_called (parseKeyTemplate re os fs array path)"
  "preserves (\<lambda>w. delivered (trace w)) (parseKeyTemplate re os fs array path)"
proof -
  have quiet: "preserves (\<lambda>w. delivered (trace w)) (ERROR_OUTPUT os u m as)" for u m as
    unfolding output_defs by (intro quiet) (simp_all add: delivered_by_def)
  have "preserves (\<lambda>w. delivered (trace w)) (emit e)" if "delivered_by e = []" for e
    by (rule quiet_events) (simp add: that)
  from this [of EvFclose] this [of EvCompile] this [of "EvFopen path"] quiet show "preserves (\<lambda>w. delivered (trace w)) (parseKeyTemplate re os fs array path)"
    unfolding parseKeyTemplate_def key_line_def chomp_def
    by (auto intro!: same.rules preserves_foldC simp: delivered_by_def
        split: option.split sum.split prod.split)
  show "preserves init_data (parseKeyTemplate re os fs array path)"
    "preserves daapInit_called (parseKeyTemplate re os fs array path)"
    unfolding parseKeyTemplate_def key_line_def chomp_def
    by (auto intro!: frame split: option.split sum.split prod.split)
qed

definition compiled :: "'re pcre \<Rightarrow> string list \<Rightarrow> 're list" where
  "compiled re ls = concat (map (\<lambda>l. case pcre_compile re l of Inl e \<Rightarrow> [] | Inr r \<Rightarrow> [r]) ls)"

lemma key_template_run:
  assumes "fs path = Some (unlines ls)" and "\<forall>l \<in> set ls. template_text l"
    and "length ls \<le> MAX_KEY_REGEXES" and "logging os app host cluster rank w"
  obtains w' where "parseKeyTemplate re os fs True path w = Ret (0, compiled re ls) w'"
    and "delivered (trace w') = delivered (trace w)" and "logging os app host cluster rank w'"
proof -
  have "Print_mutex U_parser \<notin> held w" using assms(4) by (simp add: logging_def)
  then obtain w' where run: "parseKeyTemplate re os fs True path w = Ret (0, compiled re ls) w'"
    and held: "held w' = held w"
    using key_lines [of ls "[]" "w\<lparr>trace := trace w @ [EvFopen path]\<rparr>" re os] assms(1-3)
    by (auto simp: parseKeyTemplate_def fgets_template wp_iff compiled_def)
  note same = preservesD [OF key_template_keeps(1) run] preservesD [OF key_template_keeps(2) run]
    preservesD [OF key_template_keeps(3) run]
  with held assms(4) have "logging os app host cluster rank w'"
    by (simp add: logging_def session_ready_def)
  with run same that show ?thesis by simp
qed

text \<open>The start of the scan with the tables of a template.\<close>

lemma length_described [simp]: "length (described_all off bs) = length bs"
  by (induction off bs rule: described_all.induct) simp_all

lemma described_headers:
  "\<forall>b \<in> set bs. spec_ok b \<and> spec_headers b \<noteq> [] \<Longrightarrow>
     \<forall>t \<in> set (described_all off bs). num_headers t \<le> MAX_HEADERS \<and> 0 < num_headers t"
  by (induction off bs rule: described_all.induct) (auto simp: described_def spec_ok_def)

lemma unseen_partial:
  "\<forall>b \<in> set bs. spec_ok b \<and> spec_headers b \<noteq> [] \<Longrightarrow>
     partial (described_all off bs) (replicate (length bs) 0)"
  using described_headers [of bs off] by (auto simp: partial_def all_set_conv_all_nth)

lemma unseen_tabs: "tabs_of (described_all off bs) (replicate (length bs) 0) = map Some (described_all off bs)"
proof -
  have "t\<lparr>headers_found := 0\<rparr> = t" if "t \<in> set (described_all off bs)" for t
    using described_unseen [OF that] by (cases t) simp
  then show ?thesis by (intro nth_equalityI) auto
qed

lemma parse_results_run:
  assumes "fs resf = Some content" and "fs tabf = Some (unlines (render_tables bs))"
    and "fs keyf = Some (unlines ls)"
    and "\<forall>b \<in> set bs. spec_ok b \<and> spec_headers b \<noteq> []" "length bs \<le> MAX_TABLES"
    and "\<forall>l \<in> set ls. template_text l" "length ls \<le> MAX_KEY_REGEXES"
    and "logging os app host cluster rank w"
    and "\<And>h. os_indet os h = int n" "n \<le> LINE_LEN" "length garbage = LINE_LEN"
      "\<not> is_eol (garbage ! (n - 1))"
    and "run_fits (result_ok app host cluster rank) n re (compiled re ls)
           (described_all 0 bs) (unseen bs) (fgets_all LINE_LEN content)"
  shows "\<exists>w' lines. parseResults re os fs garbage keyf tabf resf w = Ret 0 w' \<and>
           delivered (trace w') = delivered (trace w) @ lines \<and>
           list_all2 (reads_result app host cluster rank)
             (spec_results re (compiled re ls) (described_all 0 bs) (unseen bs)
                (fgets_all LINE_LEN content)) lines \<and>
           session_ready app host cluster w'"
proof -
  let ?ts = "described_all 0 bs"
  have alloc: "os_alloc os h" for h using assms(8) by (simp add: logging_def)
  define u0 where "u0 = w\<lparr>trace := trace w @ [EvFopen resf, EvAlloc (8 * MAX_TABLES) True,
      EvAlloc (8 * MAX_KEY_REGEXES) True]\<rparr>"
  define u where "u = u0\<lparr>trace := trace u0 @ [EvFopen tabf] @
      replicate (length bs) (EvAlloc 16400 True) @ [EvFclose]\<rparr>"
  have ok: "\<forall>b \<in> set bs. spec_ok b" using assms(4) by blast
  have tables: "parseTableTemplate os fs True tabf u0 = Ret (0, map Some ?ts) u"
    using table_template_run [of fs tabf bs os u0, OF assms(2) ok assms(5) alloc]
    by (simp add: u_def u0_def)
  have quiet: "delivered (replicate k (EvAlloc m True)) = []" for k m
    by (induction k) (simp_all add: delivered_by_def)
  have "logging os app host cluster rank u"
    "delivered (trace u) = delivered (trace w)"
    using assms(8) by (simp_all add: u_def u0_def logging_trace delivered_by_def quiet)
  then obtain v where keys: "parseKeyTemplate re os fs True keyf u = Ret (0, compiled re ls) v"
    and v: "delivered (trace v) = delivered (trace w)" "logging os app host cluster rank v"
    using key_template_run [of fs keyf ls os app host cluster rank u re, OF assms(3,6,7)] by metis
  have "scanning ?ts n (unseen bs) (scan0 garbage (int n) (map Some ?ts))"
    using assms(4,10-12) by (simp add: scanning_def scan0_def unseen_def unseen_partial unseen_tabs)
  then obtain st x where scan: "foldC (scan_line re os (compiled re ls)) (fgets_all LINE_LEN content)
      (scan0 garbage (int n) (map Some ?ts)) v = Ret st x"
    and x: "delivers os app host cluster rank
      (spec_results re (compiled re ls) ?ts (unseen bs) (fgets_all LINE_LEN content)) v x"
    using scan_refines [OF _ v(2) described_headers [OF assms(4)] assms(13)] by blast
  have "parseResults re os fs garbage keyf tabf resf w =
      Ret 0 (x\<lparr>trace := trace x @ clean_events (compiled re ls) (tabs st) True True\<rparr>)"
    using tables keys scan alloc
    by (simp add: parseResults_def assms(1,9) u0_def clean_up_run)
  with x v(1) show ?thesis
    by (auto simp: delivers_def delivered_by_def logging_def session_ready_def)
qed


text \<open>
  A small run over two tables: a header, one row, the line that ends the table and holds a key,
  the header of the second table, and a row whose value has lost its name.
\<close>

definition sample_lines :: "string list" where
  "sample_lines = [''Operation'', ''grid  | 1 2  |'', ''ec'', ''Field'', ''3,4:5'']"

definition sample_files :: files where
  "sample_files p =
     (if p = ''out'' then Some (unlines sample_lines)
      else if p = ''tables'' then Some (unlines (render_tables [sample_block, sample_block2]))
      else Some (unlines [''ec'']))"

definition sample_table2 :: table_t where
  "sample_table2 = described 3 sample_block2"

abbreviation two_tables :: "table_t list" where
  "two_tables \<equiv> [sample_table, sample_table2]"

lemmas sample_defs =
  sample_table_def sample_table2_def sample_block_def sample_block2_def described_def
  stored_names_def MAX_VALS_def value_ok_stored value_ok_def newline_def carriage_return_def nul_def

lemma sample_parts:
  "cstr (sep sample_table) = ''|''" "cstr (val_sep sample_table) = '' ''"
  "header_at sample_table 0 = ''Operation''" "num_headers sample_table = Suc 0"
  "cstr (val_names sample_table ! 0) = ''op_skip''"
  "cstr (val_names sample_table ! Suc 0) = ''pct''"
  "cstr (val_names sample_table ! Suc (Suc 0)) = ''time''"
  by (simp_all add: sample_defs header_at_def)

lemma sample_parts2:
  "cstr (sep sample_table2) = '':''" "cstr (val_sep sample_table2) = '',''"
  "header_at sample_table2 0 = ''Field''" "num_headers sample_table2 = Suc 0"
  "cols sample_table2 = 1" "cstr (val_names sample_table2 ! 0) = []"
  by (simp_all add: sample_defs header_at_def numeral_3_eq_3)

lemma sample_row_line:
  "row_columns sample_table (''grid  | 1 2  |'' @ [newline]) = [''grid '', '' 1 2 '', []]"
  "row_values sample_table (''grid  | 1 2  |'' @ [newline]) = [''grid'', ''1'', ''2'']"
  "row_results sample_table (''grid  | 1 2  |'' @ [newline]) = [(''pct'', ''1''), (''time'', ''2'')]"
proof -
  show c: "row_columns sample_table (''grid  | 1 2  |'' @ [newline]) = [''grid '', '' 1 2 '', []]"
    by (simp add: row_columns_def sample_parts newline_def)
  show v: "row_values sample_table (''grid  | 1 2  |'' @ [newline]) = [''grid'', ''1'', ''2'']"
    unfolding row_values_def c sample_row(1)
    by (simp add: sample_parts column_values_def has_def numeral_2_eq_2)
  show "row_results sample_table (''grid  | 1 2  |'' @ [newline]) = [(''pct'', ''1''), (''time'', ''2'')]"
    unfolding row_results_def v by (simp add: sample_parts has_def)
qed

lemma sample_row_line2:
  "row_columns sample_table2 (''3,4:5'' @ [newline]) = [''3,'', ''5'']"
  "row_values sample_table2 (''3,4:5'' @ [newline]) = [''3'']"
  "row_results sample_table2 (''3,4:5'' @ [newline]) = [([], ''3'')]"
proof -
  show c: "row_columns sample_table2 (''3,4:5'' @ [newline]) = [''3,'', ''5'']"
    by (simp add: row_columns_def sample_parts2 newline_def)
  show v: "row_values sample_table2 (''3,4:5'' @ [newline]) = [''3'']"
    unfolding row_values_def c sample_parts2(5)
    by (simp add: sample_parts2 column_values_def has_def)
  show "row_results sample_table2 (''3,4:5'' @ [newline]) = [([], ''3'')]"
    unfolding row_results_def v by (simp add: sample_parts2 has_def)
qed

lemma sample_keys:
  "key_results re_words [''ec''] (''ec'' @ [newline]) = [(''e'', ''c'')]"
  "pcre_sound re_words [''ec''] (''ec'' @ [newline])"
  "pcre_sound re_words [''ec''] (''Operation'' @ [newline])"
  "pcre_sound re_words [''ec''] (''grid  | 1 2  |'' @ [newline])"
  "pcre_sound re_words [''ec''] (''Field'' @ [newline])"
  "pcre_sound re_words [''ec''] (''3,4:5'' @ [newline])"
  by (simp_all add: key_results_def pcre_sound_def re_words_def has_def match_results_def
      group_text_def group_in_def newline_def numeral_3_eq_3)

lemma sample_headers:
  "next_header (''Operation'' @ [newline]) two_tables [0, 0] = Some 0"
  "next_header (''Field'' @ [newline]) two_tables [0, 0] = Some 1"
  by (simp_all add: next_header_def sample_parts sample_parts2 upt_rec [of 0] upt_rec [of "Suc 0"]
      has_def newline_def)

lemma sample_modes:
  "scan_spec re_words [''ec''] two_tables (Outside [0, 0]) (''Operation'' @ [newline]) =
     (Inside 0 [1, 0], [])"
  "scan_spec re_words [''ec''] two_tables (Inside 0 [1, 0]) (''grid  | 1 2  |'' @ [newline]) =
     (Inside 0 [1, 0], [(''pct'', ''1''), (''time'', ''2'')])"
  "scan_spec re_words [''ec''] two_tables (Inside 0 [1, 0]) (''ec'' @ [newline]) =
     (Outside [0, 0], [(''e'', ''c'')])"
  "scan_spec re_words [''ec''] two_tables (Outside [0, 0]) (''Field'' @ [newline]) =
     (Inside 1 [0, 1], [])"
  "scan_spec re_words [''ec''] two_tables (Inside 1 [0, 1]) (''3,4:5'' @ [newline]) =
     (Inside 1 [0, 1], [([], ''3'')])"
proof -
  have seps: "has (''grid  | 1 2  |'' @ [newline]) ''|''" "\<not> has (''ec'' @ [newline]) ''|''"
    "has (''3,4:5'' @ [newline]) '':''"
    by (simp_all add: has_def newline_def)
  show "scan_spec re_words [''ec''] two_tables (Outside [0, 0]) (''Operation'' @ [newline]) =
     (Inside 0 [1, 0], [])"
    "scan_spec re_words [''ec''] two_tables (Outside [0, 0]) (''Field'' @ [newline]) =
     (Inside 1 [0, 1], [])"
    unfolding scan_spec.simps sample_headers by (simp_all add: sample_parts sample_parts2)
  show "scan_spec re_words [''ec''] two_tables (Inside 0 [1, 0]) (''grid  | 1 2  |'' @ [newline]) =
     (Inside 0 [1, 0], [(''pct'', ''1''), (''time'', ''2'')])"
    "scan_spec re_words [''ec''] two_tables (Inside 0 [1, 0]) (''ec'' @ [newline]) =
     (Outside [0, 0], [(''e'', ''c'')])"
    "scan_spec re_words [''ec''] two_tables (Inside 1 [0, 1]) (''3,4:5'' @ [newline]) =
     (Inside 1 [0, 1], [([], ''3'')])"
    unfolding scan_spec.simps nth_Cons_0 One_nat_def nth_Cons_Suc sample_parts sample_parts2
      sample_row_line sample_row_line2 sample_keys
    using seps by (simp_all only: if_True if_False list_update.simps nat.case)
qed

lemma sample_fits:
  "row_of two_tables (Outside ks) line = None"
  "row_of two_tables (Inside 0 [1, 0]) (''grid  | 1 2  |'' @ [newline]) = Some sample_table"
  "row_of two_tables (Inside 0 [1, 0]) (''ec'' @ [newline]) = None"
  "row_of two_tables (Inside 1 [0, 1]) (''3,4:5'' @ [newline]) = Some sample_table2"
  "row_fits sample_table (''grid  | 1 2  |'' @ [newline])"
  "row_fits sample_table2 (''3,4:5'' @ [newline])"
proof -
  show "row_fits sample_table (''grid  | 1 2  |'' @ [newline])"
    "row_fits sample_table2 (''3,4:5'' @ [newline])"
    unfolding row_fits_def sample_row_line sample_row_line2 sample_row(1) sample_parts2
    by (simp_all add: MAX_COLS_def MAX_VALS_def)
qed (simp_all add: sample_parts sample_parts2 has_def newline_def)

text \<open>The sample over the facts that both end-to-end properties ask for.\<close>

lemma sample_setup:
  "described_all 0 [sample_block, sample_block2] = two_tables"
  "unseen [sample_block, sample_block2] = Outside [0, 0]"
  "compiled re_words [''ec''] = [''ec'']"
  "sample_files ''out'' = Some (unlines sample_lines)"
  "sample_files ''tables'' = Some (unlines (render_tables [sample_block, sample_block2]))"
  "sample_files ''keys'' = Some (unlines [''ec''])"
  "\<forall>b \<in> set [sample_block, sample_block2]. spec_ok b \<and> spec_headers b \<noteq> []"
  "length [sample_block, sample_block2] \<le> MAX_TABLES"
  "\<forall>l \<in> set [''ec'']. template_text l" "length [''ec''] \<le> MAX_KEY_REGEXES"
  "77 \<le> LINE_LEN" "length (replicate LINE_LEN nul) = LINE_LEN"
  "\<not> is_eol (replicate LINE_LEN nul ! (77 - 1))"
proof -
  show "described_all 0 [sample_block, sample_block2] = two_tables"
    by (simp add: sample_table_def sample_table2_def)
      (simp add: sample_block_def MAX_VALS_def numeral_3_eq_3)
  show "\<forall>b \<in> set [sample_block, sample_block2]. spec_ok b \<and> spec_headers b \<noteq> []"
    using sample_blocks_ok by (simp add: sample_block_def sample_block2_def)
qed (simp_all add: unseen_def compiled_def re_words_def sample_files_def template_text_def
    newline_def carriage_return_def nul_def is_eol_def LINE_LEN_def MAX_TABLES_def
    MAX_KEY_REGEXES_def)

definition sample_pairs :: "(string \<times> string) list" where
  "sample_pairs = [(''pct'', ''1''), (''time'', ''2''), (''e'', ''c''), ([], ''3'')]"

lemma sample_results_of:
  "spec_results re_words [''ec''] two_tables (Outside [0, 0])
     (fgets_all LINE_LEN (unlines sample_lines)) = sample_pairs"
  "\<forall>kv \<in> set sample_pairs. ok kv \<Longrightarrow>
     run_fits ok 77 re_words [''ec''] two_tables (Outside [0, 0])
       (fgets_all LINE_LEN (unlines sample_lines))"
proof -
  have lines: "fgets_all LINE_LEN (unlines sample_lines) = map (\<lambda>l. l @ [newline]) sample_lines"
    by (rule fgets_template)
      (simp add: sample_lines_def template_text_def is_eol_def newline_def carriage_return_def nul_def)
  show "spec_results re_words [''ec''] two_tables (Outside [0, 0])
     (fgets_all LINE_LEN (unlines sample_lines)) = sample_pairs"
    unfolding lines
    unfolding sample_lines_def list.map spec_results.simps sample_modes prod.case sample_pairs_def
    by simp
  show "\<forall>kv \<in> set sample_pairs. ok kv \<Longrightarrow>
     run_fits ok 77 re_words [''ec''] two_tables (Outside [0, 0])
       (fgets_all LINE_LEN (unlines sample_lines))"
    unfolding lines
    unfolding sample_lines_def list.map run_fits.simps sample_modes fst_conv snd_conv sample_fits
      option.case
    using sample_keys sample_fits(5,6)
    by (simp add: is_cstr_def newline_def nul_def sample_pairs_def)
qed

lemma sample_pairs_ok:
  assumes "length app + length host + length cluster < 200"
  shows "\<forall>kv \<in> set sample_pairs. result_ok app host cluster 7 kv"
  using assms
  by (simp add: sample_pairs_def result_ok_def plain_def field_safe_def dquote_def fits_def
      influx_head_def dec_int_def dec.simps max_size_def)


section \<open>From the command line to the end\<close>

text \<open>
  What the parser leaves alone: every part of the state that the diagnostics and the log
  writer leave alone.
\<close>

lemma find_header_pure: "find_header line js ts c w = Ret r w' \<Longrightarrow> w' = w"
  by (induction line js ts c rule: find_header.induct)
    (auto simp: Let_def split: option.splits if_splits)

lemma copy_columns_pure: "copy_columns toks i cs w = Ret r w' \<Longrightarrow> w' = w"
  by (induction toks i cs rule: copy_columns.induct) (auto split: if_splits)

lemma parser_pieces_keep:
  "preserves f (find_header line js ts c)" "preserves f (copy_columns toks i cs)"
  by (auto intro!: preservesI dest: find_header_pure copy_columns_pure)

lemmas parser_frame = same.rules preserves_foldC frame_trace frame_free frame_deref parser_pieces_keep

lemma parseResults_keeps:
  assumes "\<And>w t. f (w\<lparr>trace := t\<rparr>) = f w" and "\<And>m as. preserves f (daapLogWrite os m as)"
    and "\<And>u m as. preserves f (ERROR_OUTPUT os u m as)"
  shows "preserves f (parseResults re os fs garbage keyf tabf resf)"
proof -
  have send: "preserves f (sendResult os k v)" for k v
    unfolding sendResult_def by (intro parser_frame assms)
  have scan: "preserves f (scan_line re os keys raw st)" for keys raw st
    unfolding scan_line_def table_row_def send_column_def send_value_def match_key_def
      send_pair_def copy_group_def
    by (intro parser_frame send assms)
  have tables: "preserves f (parseTableTemplate os fs array path)" for array path
    unfolding parseTableTemplate_def table_line_def chomp_def block_line_def number_line_def
    by (intro parser_frame assms)
  have keys: "preserves f (parseKeyTemplate re os fs array path)" for array path
    unfolding parseKeyTemplate_def key_line_def chomp_def
    by (auto intro!: parser_frame assms split: option.split sum.split prod.split)
  show ?thesis
    unfolding parseResults_def clean_up_def free_block_def
    by (intro parser_frame scan tables keys assms)
qed

text \<open>The fields that the end of the session reads.\<close>

lemma parseResults_session:
  assumes "parseResults re os fs garbage keyf tabf resf w = Ret r w'"
  shows "held w' = held w" "daapRank_zero w' = daapRank_zero w" "init_data w' = init_data w"
proof -
  have "preserves held (parseResults re os fs garbage keyf tabf resf)"
    by (rule parseResults_keeps [OF _ writers_held(1) output_held(1)]) simp
  then show "held w' = held w" using assms by (rule preservesD)
  have "preserves daapRank_zero (parseResults re os fs garbage keyf tabf resf)"
    by (rule parseResults_keeps [OF _ writers_frame(1) output_frame(1)]) simp_all
  then show "daapRank_zero w' = daapRank_zero w" using assms by (rule preservesD)
  have "preserves init_data (parseResults re os fs garbage keyf tabf resf)"
    by (rule parseResults_keeps [OF _ writers_frame(1) output_frame(1)]) simp_all
  then show "init_data w' = init_data w" using assms by (rule preservesD)
qed

text \<open>With its four options, \<open>main\<close> initialises the library, parses, and finalises.\<close>

lemma main_phases:
  assumes "opt = Opt_t \<and> tt = TCP \<or> opt = Opt_s \<and> tt = SYSLOG"
    and "keyf \<noteq> []" "resf \<noteq> []"
    and "length keyf < PATH_MAX" "length tabf < PATH_MAX" "length resf < PATH_MAX"
    and "daapInit os ''daap_stdout_parser'' LOG_NOTICE DAAP_AGG_OFF tt w = Ret DAAP_SUCCESS u"
    and "parseResults re os fs garbage keyf tabf resf u = Ret 0 v" and "daapFinalize os v = Ret r x"
  shows "stdout_parser_main re os fs garbage [opt, Opt_m keyf, Opt_d tabf, Opt_f resf] w = Ret 0 x"
proof -
  have "snprintf_str PATH_MAX keyf = keyf" "snprintf_str PATH_MAX tabf = tabf"
    "snprintf_str PATH_MAX resf = resf"
    using assms(4-6) by (simp_all add: snprintf_str_fits)
  then show ?thesis
    using assms(1-3,7-9) by (auto simp: stdout_parser_main_def read_option_def DAAP_SUCCESS_def)
qed



end
