(* ===== verification/ParserResources.thy ===== *)
theory ParserResources
  imports Scan
begin

text \<open>
  Memory and streams of the results parser (\<open>src/stdout_parser.c\<close>): a calculus for the net
  change of one resource along a command, its specifications for the library's writer and for
  the parts of the parser, and the balance of \<open>parseResults\<close> as a whole, on its normal and on
  its early returns, in every environment.
\<close>

section \<open>The net change of a resource\<close>

text \<open>
  \<open>spends k P m\<close>: whenever \<open>m\<close> returns, its result and the change of the balance of \<open>k\<close>
  satisfy \<open>P\<close>.
\<close>

definition spends :: "resource \<Rightarrow> ('a \<Rightarrow> int \<Rightarrow> bool) \<Rightarrow> (world, 'a) cmd \<Rightarrow> bool" where
  "spends k P m \<longleftrightarrow>
     (\<forall>w r w'. m w = Ret r w' \<longrightarrow> P r (balance k (trace w') - balance k (trace w)))"

abbreviation neutral :: "resource \<Rightarrow> (world, 'a) cmd \<Rightarrow> bool" where
  "neutral k \<equiv> spends k (\<lambda>_ d. d = 0)"

lemma spendsI:
  "(\<And>w r w'. m w = Ret r w' \<Longrightarrow> P r (balance k (trace w') - balance k (trace w))) \<Longrightarrow> spends k P m"
  by (simp add: spends_def)

lemma spendsD:
  "spends k P m \<Longrightarrow> m w = Ret r w' \<Longrightarrow> P r (balance k (trace w') - balance k (trace w))"
  by (simp add: spends_def)

lemma spends_weaken: "spends k G m \<Longrightarrow> (\<And>r d. G r d \<Longrightarrow> P r d) \<Longrightarrow> spends k P m"
  by (auto simp: spends_def)

lemma spends_bind:
  assumes "spends k G m" and "\<And>x n. G x n \<Longrightarrow> spends k (\<lambda>r d. P r (n + d)) (h x)"
  shows "spends k P (bindC m h)"
proof (rule spendsI)
  fix w r w'
  assume "bindC m h w = Ret r w'"
  then obtain x v where "m w = Ret x v" and later: "h x v = Ret r w'"
    by (auto simp: bindC_def split: outcome.splits)
  with assms have "spends k (\<lambda>r d. P r (balance k (trace v) - balance k (trace w) + d)) (h x)"
    by (auto dest: spendsD)
  from spendsD [OF this later] show "P r (balance k (trace w') - balance k (trace w))" by simp
qed

lemma spends_ret: "P r 0 \<Longrightarrow> spends k P (ret r)"
  by (simp add: spends_def)

lemma spends_fault: "spends k P (faultC e)"
  by (simp add: spends_def)

lemma spends_emit: "P () (effect k e) \<Longrightarrow> spends k P (emit e)"
  by (simp add: spends_def)

lemma spends_if: "(b \<Longrightarrow> spends k P m) \<Longrightarrow> (\<not> b \<Longrightarrow> spends k P n) \<Longrightarrow> spends k P (if b then m else n)"
  by simp

lemma neutral_preserves: "neutral k m \<longleftrightarrow> preserves (\<lambda>w. balance k (trace w)) m"
  by (auto simp: spends_def keeps_def same_on_def)

lemma neutral_bind: "neutral k m \<Longrightarrow> (\<And>x. spends k P (h x)) \<Longrightarrow> spends k P (bindC m h)"
  by (rule spends_bind [where G = "\<lambda>_ d. d = 0"]) simp_all

lemma neutral_seq: "neutral k m \<Longrightarrow> spends k P n \<Longrightarrow> spends k P (seqC m n)"
  unfolding seqC_def by (rule neutral_bind)

lemma emit_seq: "spends k (\<lambda>r d. P r (effect k e + d)) m \<Longrightarrow> spends k P (seqC (emit e) m)"
  unfolding seqC_def by (rule spends_bind [OF spends_emit [of "\<lambda>_ d. d = effect k e"]]) simp_all

lemma alloc_bind:
  assumes "\<And>ok. \<exists>h. os_alloc os h = ok \<Longrightarrow>
     spends k (\<lambda>r d. P r (of_bool (k = Memory \<and> ok) + d)) (h ok)"
  shows "spends k P (bindC (alloc os n) h)"
proof (rule spends_bind)
  show "spends k (\<lambda>ok d. (\<exists>h. os_alloc os h = ok) \<and> d = of_bool (k = Memory \<and> ok)) (alloc os n)"
    by (auto simp: spends_def)
qed (use assms in auto)

text \<open>A fold whose steps change the balance by the change of a potential of the state.\<close>

lemma spends_fold:
  assumes "\<And>x a. I a \<Longrightarrow> spends k (\<lambda>a' d. I a' \<and> d = pot a' - pot a) (f x a)" and "I a"
  shows "spends k (\<lambda>a' d. I a' \<and> d = pot a' - pot a) (foldC f xs a)"
  using assms(2)
proof (induction xs arbitrary: a)
  case Nil
  then show ?case unfolding foldC.simps by (intro spends_ret) simp
next
  case (Cons x xs)
  show ?case
    unfolding foldC.simps
    by (rule spends_bind [OF assms(1) [OF Cons.prems]]) (auto intro: spends_weaken [OF Cons.IH])
qed

lemma neutral_fold: "(\<And>x a. neutral k (f x a)) \<Longrightarrow> neutral k (foldC f xs a)"
  using spends_fold [of "\<lambda>_. True" k "\<lambda>_. 0" f a xs] by simp

lemma neutral_for: "(\<And>x. neutral k (f x)) \<Longrightarrow> neutral k (forC xs f)"
proof (induction xs)
  case Nil
  show ?case unfolding forC.simps by (rule spends_ret) simp
next
  case (Cons x xs)
  then show ?case unfolding forC.simps by (intro neutral_seq) simp_all
qed

lemma asks_bind: "(\<And>x. spends k P (h x)) \<Longrightarrow> spends k P (bindC (asks g) h)"
  by (rule neutral_bind) (simp_all add: spends_def)

lemma deref_bind: "(\<And>s. p = SPtr s \<Longrightarrow> spends k P (h s)) \<Longrightarrow> spends k P (bindC (deref p) h)"
  by (cases p) (auto simp: spends_def bindC_def)

lemma spends_option:
  "(y = None \<Longrightarrow> spends k P m) \<Longrightarrow> (\<And>x. y = Some x \<Longrightarrow> spends k P (g x)) \<Longrightarrow>
     spends k P (case y of None \<Rightarrow> m | Some x \<Rightarrow> g x)"
  by (cases y) simp_all

lemma spends_prod:
  "(\<And>a b. y = (a, b) \<Longrightarrow> spends k P (g a b)) \<Longrightarrow> spends k P (case y of (a, b) \<Rightarrow> g a b)"
  by (cases y) simp

lemma spends_let: "(\<And>x. x = e \<Longrightarrow> spends k P (g x)) \<Longrightarrow> spends k P (let x = e in g x)"
  by simp

lemmas spends_rules =
  spends_fault spends_if spends_option spends_prod emit_seq alloc_bind asks_bind deref_bind

section \<open>The writer\<close>

text \<open>In what follows \<open>k\<close> is memory or a stream.\<close>

definition tracked :: "resource \<Rightarrow> bool" where
  "tracked k \<longleftrightarrow> k = Memory \<or> k = Stream"

lemma trackedD: "tracked k \<Longrightarrow> k \<noteq> Descriptor \<and> k \<noteq> Tls \<and> k \<noteq> Context"
  by (auto simp: tracked_def)

lemma output_neutral: "neutral k (ERROR_OUTPUT os u s as)" "neutral k (DEBUG_OUTPUT os u s as)"
  unfolding output_defs neutral_preserves by (intro quiet; simp)+

lemma loop_neutral: "neutral k (run_loop (ssl_write_loop os buf n count tot))"
proof (rule spendsI)
  fix w c w'
  assume "run_loop (ssl_write_loop os buf n count tot) w = Ret c w'"
  then have "ssl_write_loop os buf n count tot w = Some (Ret c w')"
    by (simp add: run_loop_def split: option.splits)
  then have "\<forall>c' v. Ret c w' = Ret c' v \<longrightarrow> balance k (trace v) = balance k (trace w)"
    by (rule ssl_write_loop_rule
        [where P = "\<lambda>_ _ w r. \<forall>c' v. r = Ret c' v \<longrightarrow> balance k (trace v) = balance k (trace w)"])
      (auto simp: ssl_write_pass_def Let_def split: if_splits)
  then show "balance k (trace w') - balance k (trace w) = 0" by simp
qed

lemma transmit_neutral:
  assumes "tracked k"
  shows "neutral k (transmit os s)"
proof -
  have conn: "neutral k (daapTCPConnect os)"
    unfolding neutral_preserves daapTCPConnect_def daapShutdownSSL_def
    by (intro quiet same_onI) (use trackedD [OF assms] in simp_all)
  show ?thesis
    unfolding transmit_def daapTCPLogWrite_def neutral_preserves
    by (intro quiet same_onI conn [unfolded neutral_preserves]
        loop_neutral [unfolded neutral_preserves] output_neutral [unfolded neutral_preserves])
      (use trackedD [OF assms] in simp_all)
qed

lemma build_spends:
  "spends k (\<lambda>p d. (\<exists>s. p = SPtr s) \<and> d = of_bool (k = Memory)) (daapBuildInflux os ts m)"
  unfolding daapBuildInflux_def Let_def
  by (intro spends_rules spends_ret) auto

lemma format_message_neutral: "neutral k (format_message os m as)"
proof -
  have null: "neutral k (null_device_length os m as)"
    unfolding null_device_length_def
    by (rule spendsI) (auto simp: bindC_def seqC_def faultC_def split: if_splits option.splits)
  show ?thesis
    unfolding format_message_def Let_def
    by (intro neutral_bind [OF null] neutral_bind spends_rules neutral_seq output_neutral spends_ret)
      simp_all
qed

lemma write_neutral:
  assumes "tracked k"
  shows "neutral k (daapLogWrite os m as)"
proof -
  have clock: "neutral k (getmillisectime os)"
    unfolding getmillisectime_def neutral_preserves by (intro quiet) simp_all
  have "neutral k (bindC (daapBuildInflux os ts full) (\<lambda>influx_str.
       if influx_str = SNull then ret DAAP_SUCCESS
       else
         bindC (deref influx_str) (\<lambda>line.
         seqC (DEBUG_OUTPUT os U_log ''Complete influx string: %s'' [StrArg line])
        (seqC (transmit os line)
        (seqC (free_str influx_str)
        (ret DAAP_SUCCESS))))))" for ts full
    by (rule spends_bind [OF build_spends])
      (use assms in \<open>auto simp: bindC_ret
         intro!: neutral_seq output_neutral transmit_neutral emit_seq spends_ret\<close>)
  then show ?thesis
    unfolding daapLogWrite_def log_write_via_def set_errno_def
    by (intro asks_bind spends_if neutral_bind [OF format_message_neutral] neutral_bind [OF clock])
      (auto simp: spends_def)
qed

lemma send_neutral:
  assumes "tracked k"
  shows "neutral k (sendResult os key val)"
  unfolding sendResult_def Let_def seqC_def [of "if _ then _ else _"]
  by (intro spends_rules neutral_bind [OF write_neutral [OF assms]] spends_ret
      neutral_bind [of k "if _ then emit _ else ret ()"] spends_emit) auto

section \<open>The templates\<close>

text \<open>The tables that hold memory.\<close>

definition filled :: "table_t option list \<Rightarrow> int" where
  "filled ts = int (length (filter (\<lambda>t. t \<noteq> None) ts))"

lemma filled_simps [simp]:
  "filled [] = 0" "filled (ts @ us) = filled ts + filled us"
  "filled (t # ts) = of_bool (t \<noteq> None) + filled ts"
  by (simp_all add: filled_def)

lemma filled_update: "ts ! i = Some t \<Longrightarrow> filled (ts[i := Some t']) = filled ts"
proof (induction ts arbitrary: i)
  case (Cons t ts)
  then show ?case by (cases i) auto
qed simp

lemma filled_butlast: "ts \<noteq> [] \<Longrightarrow> filled (butlast ts) = filled ts - of_bool (last ts \<noteq> None)"
  by (cases ts rule: rev_cases) simp_all

lemma chomp_neutral: "neutral k (chomp s)"
  unfolding chomp_def Let_def by (intro spends_rules spends_ret) simp

lemma block_line_neutral: "neutral k (block_line line tv)"
proof -
  have "neutral k (number_line key line store t)" for key store t
    unfolding number_line_def by (intro spends_rules spends_ret) simp_all
  then show ?thesis
    unfolding block_line_def by (intro spends_rules neutral_bind spends_ret) simp_all
qed

lemma table_line_spends:
  assumes "in_table st \<longrightarrow> tables st \<noteq> []"
  shows "spends k (\<lambda>st' d. (in_table st' \<longrightarrow> tables st' \<noteq> []) \<and>
           d = of_bool (k = Memory) * filled (tables st') - of_bool (k = Memory) * filled (tables st))
           (table_line os array raw st)"
proof -
  have cur: "spends k (\<lambda>(t, vf) d. (t \<noteq> None \<longleftrightarrow> last (tables st) \<noteq> None) \<and> d = 0)
      (case last (tables st) of
         None \<Rightarrow>
           if touches line (vals_found st) then faultC NullDeref
           else ret (None, vals_found st)
       | Some t \<Rightarrow> bindC (block_line line (t, vals_found st)) (\<lambda>(t', vf). ret (Some t', vf)))" for line
    by (intro spends_rules neutral_bind [OF block_line_neutral] spends_ret) simp_all
  show ?thesis
    unfolding table_line_def
    by (intro neutral_bind [OF chomp_neutral] spends_rules spends_bind [OF cur] spends_ret)
      (use assms in \<open>auto simp: filled_butlast\<close>)
qed

lemma table_template_spends:
  "spends k (\<lambda>(r, ts) d. if r < 0 then d = 0
      else d = of_bool (k = Memory) * filled ts) (parseTableTemplate os fs array path)"
proof -
  have fold: "spends k (\<lambda>st d. (in_table st \<longrightarrow> tables st \<noteq> []) \<and>
      d = of_bool (k = Memory) * filled (tables st) -
        of_bool (k = Memory) * filled (tables \<lparr>tables = [], in_table = False, vals_found = 0\<rparr>))
      (foldC (table_line os array) raws \<lparr>tables = [], in_table = False, vals_found = 0\<rparr>)" for raws
    by (rule spends_fold [where pot = "\<lambda>st. of_bool (k = Memory) * filled (tables st)"])
      (simp_all add: table_line_spends)
  show ?thesis
    unfolding parseTableTemplate_def
    by (intro spends_rules neutral_seq output_neutral spends_bind [OF fold] spends_ret) auto
qed

lemma key_template_spends:
  "spends k (\<lambda>(r, keys) d. if r < 0 then d = 0
      else d = of_bool (k = Memory) * int (length keys)) (parseKeyTemplate re os fs array path)"
proof -
  have line: "spends k (\<lambda>keys' d. True \<and>
      d = of_bool (k = Memory) * int (length keys') - of_bool (k = Memory) * int (length keys))
      (key_line re os array raw keys)" for raw keys
    unfolding key_line_def
    by (cases "pcre_compile re (rev (dropWhile is_eol (rev (cstr raw))))")
      (auto simp: chomp_def Let_def bindC_ret bindC_fault split: prod.split
        intro!: spends_rules neutral_seq output_neutral spends_ret)
  have fold: "spends k (\<lambda>keys d. True \<and>
      d = of_bool (k = Memory) * int (length keys) - of_bool (k = Memory) * int (length ([] :: 'a list)))
      (foldC (key_line re os array) raws [])" for raws
    by (rule spends_fold [where pot = "\<lambda>keys. of_bool (k = Memory) * int (length keys)"])
      (simp_all add: line [simplified])
  show ?thesis
    unfolding parseKeyTemplate_def
    by (intro spends_rules neutral_seq output_neutral spends_bind [OF fold] spends_ret) auto
qed

section \<open>The scan\<close>

lemma find_header_spends:
  "spends k (\<lambda>(ts', c') d. d = 0 \<and> filled ts' = filled ts) (find_header line js ts c)"
proof (induction js arbitrary: c)
  case (Cons i js)
  show ?case
    unfolding find_header.simps
    by (intro spends_rules Cons.IH spends_ret) (simp add: filled_update)
qed (simp only: find_header.simps, rule spends_ret, simp)

lemma copy_columns_neutral: "neutral k (copy_columns toks i cs)"
  by (rule spendsI) (auto dest: copy_columns_pure)

lemma table_row_neutral:
  assumes "tracked k"
  shows "neutral k (table_row os t line cs)"
proof -
  have val: "neutral k (send_value os t tok n)" for tok n
    unfolding send_value_def Let_def
    by (intro spends_rules neutral_bind [OF send_neutral [OF assms]] spends_ret) simp_all
  have vals: "neutral k (foldC (send_value os t) toks n)" for toks n
    by (rule neutral_fold [OF val])
  have col: "neutral k (send_column os t i cv)" for i cv
    unfolding send_column_def Let_def
    by (intro spends_rules neutral_bind [OF vals] spends_ret) simp_all
  have "neutral k (foldC (send_column os t) js cv)" for js cv
    by (rule neutral_fold [OF col])
  then show ?thesis
    unfolding table_row_def
    by (intro neutral_bind copy_columns_neutral spends_rules spends_ret) simp_all
qed

lemma match_key_neutral:
  assumes "tracked k"
  shows "neutral k (match_key re os buf r)"
proof -
  have group: "spends k (\<lambda>_ d. d = of_bool (k = Memory)) (copy_group os buf se)" for se
    unfolding copy_group_def by (intro spends_rules spends_ret) simp_all
  have "neutral k (send_pair os buf kv)" for kv
    unfolding send_pair_def
    by (intro spends_bind [OF group] neutral_bind [OF send_neutral [OF assms]] emit_seq spends_emit)
      simp
  then have "neutral k (forC kvs (send_pair os buf))" for kvs
    by (rule neutral_for)
  then show ?thesis
    unfolding match_key_def
    by (intro spends_rules neutral_seq output_neutral spends_ret) simp_all
qed

lemma scan_line_spends:
  assumes "tracked k"
  shows "spends k (\<lambda>st' d. d = 0 \<and> filled (tabs st') = filled (tabs st)) (scan_line re os keys raw st)"
proof -
  have all_keys: "neutral k (forC ks (match_key re os buf))" for ks buf
    by (rule neutral_for [OF match_key_neutral [OF assms]])
  have header: "spends k (\<lambda>(ts', c') d. d = 0 \<and> filled ts' = filled (tabs st))
      (if in_tab st \<and> cur st \<noteq> None then ret (tabs st, cur st) else find_header line js (tabs st) (cur st))"
    for line js
    by (intro spends_if spends_ret find_header_spends) simp
  show ?thesis
    unfolding scan_line_def Let_def
    by (intro spends_rules spends_bind [OF header] neutral_seq all_keys
        neutral_bind [OF table_row_neutral [OF assms]] spends_ret)
      (auto simp: filled_update table_at_def split: option.splits)
qed

section \<open>The whole run\<close>

lemma clean_up_seq:
  assumes "spends k (\<lambda>r d. P r (- of_bool (k = Memory) * (int (length keys) + filled ts +
     of_bool table_array + of_bool key_array) - of_bool (k = Stream) + d)) m"
  shows "spends k P (seqC (clean_up keys ts table_array key_array) m)"
  unfolding seqC_def
proof (rule spends_bind)
  have frees: "balance k (replicate n EvFreeBlock) = - of_bool (k = Memory) * int n" for n
    by (induction n) (auto simp: algebra_simps)
  show "spends k (\<lambda>_ d. d = - of_bool (k = Memory) * (int (length keys) + filled ts +
      of_bool table_array + of_bool key_array) - of_bool (k = Stream))
      (clean_up keys ts table_array key_array)"
    by (rule spendsI) (auto simp: clean_up_run clean_events_def frees filled_def)
qed (use assms in simp)

text \<open>The net change over a run, by its result: \<open>early\<close> is what an early return leaves behind.\<close>

definition early :: "resource \<Rightarrow> os \<Rightarrow> int" where
  "early k os = of_bool (k = Stream) + (if k = Memory \<and> (\<forall>h. os_alloc os h) then 2 else 0)"

lemma parse_results_spends:
  assumes "tracked k"
  shows "spends k (\<lambda>r d. if r = 0 \<or> fs resf = None then d = 0
           else early k os \<le> d \<and> (k = Stream \<longrightarrow> d = 1))
           (parseResults re os fs garbage keyf tabf resf)"
proof -
  have nonneg: "0 \<le> filled ts" for ts by (simp add: filled_def)
  have scan: "spends k (\<lambda>st' d. filled (tabs st') = filled ts \<and> d = 0)
      (foldC (scan_line re os keys) raws (scan0 garbage n ts))" for keys raws n ts
  proof (rule spends_weaken [OF spends_fold
        [where I = "\<lambda>st. filled (tabs st) = filled ts" and pot = "\<lambda>_. 0"]])
    fix raw and st :: scan_state
    assume "filled (tabs st) = filled ts"
    then show "spends k (\<lambda>st' d. filled (tabs st') = filled ts \<and> d = 0 - 0) (scan_line re os keys raw st)"
      by (intro spends_weaken [OF scan_line_spends [OF assms]]) simp
  qed (simp_all add: scan0_def)
  show ?thesis
    unfolding parseResults_def
    by (intro spends_rules clean_up_seq neutral_seq output_neutral spends_ret
        spends_bind [OF table_template_spends] spends_bind [OF key_template_spends] spends_bind [OF scan])
      (use nonneg in \<open>auto simp: early_def\<close>)
qed

text \<open>
  C38: In every environment, a run of \<open>parseResults\<close> that succeeds gives back what it took: the
  arrays, the tables of the template, the compiled patterns, every string built on the way
  (those of the library included) and all three files. A run that fails because a template
  cannot be opened gives nothing back: the results file stays open and, with an allocator
  that works, at least both arrays are lost.
\<close>
theorem parse_results_resources:
  "wlp (parseResults re os fs garbage keyf tabf resf)
     (\<lambda>r w'. if r = 0 \<or> fs resf = None
        then balance Memory (trace w') = balance Memory (trace w) \<and>
             balance Stream (trace w') = balance Stream (trace w)
        else balance Stream (trace w') = balance Stream (trace w) + 1 \<and>
             balance Memory (trace w) + early Memory os \<le> balance Memory (trace w')) w"
proof -
  have "tracked Memory" "tracked Stream" by (simp_all add: tracked_def)
  note both = spendsD [OF parse_results_spends [OF this(1)]] spendsD [OF parse_results_spends [OF this(2)]]
  show ?thesis
    unfolding wlp_iff using both [of re os fs garbage keyf tabf resf w] by (fastforce split: if_splits)
qed

theorem parse_results_resources_witness:
  "wp (parseResults re_words os_good (\<lambda>p. if p = [] then None else Some ''ec 1'') (replicate 512 nul)
          ''keys'' [] ''out'')
     (\<lambda>r w'. r = -1 \<and> balance Stream (trace w') = 1 \<and> 2 \<le> balance Memory (trace w'))
     (world_ready SYSLOG)"
proof -
  let ?run = "parseResults re_words os_good (\<lambda>p. if p = [] then None else Some ''ec 1'')
      (replicate 512 nul) ''keys'' [] ''out''"
  have "wp ?run (\<lambda>r w'. r = -1 \<and> held w' = held (world_ready SYSLOG) \<and>
      delivered (trace w') = delivered (trace (world_ready SYSLOG))) (world_ready SYSLOG)"
    by (rule results_without_tables [of _ _ "''ec 1''"]) simp_all
  moreover have "early Memory os_good = 2" by (simp add: early_def os_good_def)
  ultimately show ?thesis
    using parse_results_resources [of re_words os_good "\<lambda>p. if p = [] then None else Some ''ec 1''"
        "replicate 512 nul" "''keys''" "[]" "''out''" "world_ready SYSLOG"]
    by (auto simp: wp_iff wlp_iff)
qed

end
