(* ===== verification/DebugBuild.thy ===== *)
theory DebugBuild
  imports Lifecycle
begin

text \<open>
  The writers in a debug build, where \<open>DEBUG_OUTPUT\<close> prints (\<open>src/daap_log_internal.h\<close>). The
  lemmas hold for both kinds of build: \<open>release\<close> forgets the kind, and the environment is
  asked only for what a release build needs. A debug build delivers the same lines, with one
  exception: both writers hand the formatted message to \<open>DEBUG_OUTPUT\<close> as its format string,
  so that a message whose text has a conversion reads arguments that were never passed.
\<close>

definition release :: "os \<Rightarrow> os" where
  "release os = os\<lparr>os_debug := False\<rparr>"

lemma release_simps [simp]:
  "os_alloc (release os) = os_alloc os" "os_fopen_null (release os) = os_fopen_null os"
  "os_gettimeofday (release os) = os_gettimeofday os" "clock_ns (release os) h = clock_ns os h"
  by (simp_all add: release_def clock_ns_def)

lemma debug_events_neutral [simp]:
  "delivered (debug_events os w s) = []" "wire (debug_events os w s) = []"
  by (simp_all add: debug_events_def delivered_by_def accepted_def)

section \<open>The lines of a build with or without diagnostics\<close>

lemma format_message_shown:
  assumes "os_fopen_null os (trace w)" and "format message args = Some out"
    and "length out \<le> DAAP_MAX_MSG_LEN" and "format out [] = Some shown"
    and "Print_mutex U_log \<notin> held w"
  obtains es where
    "format_message os message args w = Ret out (w\<lparr>trace := trace w @ es\<rparr>)"
    and "delivered es = []"
proof
  let ?h = "[EvFopenNull True, EvFclose]"
  let ?es = "?h @ debug_events os (w\<lparr>trace := trace w @ ?h\<rparr>) shown"
  show "format_message os message args w = Ret out (w\<lparr>trace := trace w @ ?es\<rparr>)"
    using assms
    by (simp add: format_message_def null_device_length_def snprintf_str_def c_consts Let_def
        DEBUG_OUTPUT_run)
  show "delivered ?es = []" by (simp add: delivered_by_def)
qed

lemma format_message_reads_arguments:
  assumes "os_fopen_null os (trace w)" and "format message args = Some out"
    and "length out \<le> DAAP_MAX_MSG_LEN" and "format out [] = None" and "os_debug os"
    and "Print_mutex U_log \<notin> held w"
  shows "format_message os message args w = Faults BadFormat"
  using assms
  by (simp add: format_message_def null_device_length_def snprintf_str_def c_consts Let_def
      output_defs deformat_def)

lemma shown_line:
  assumes "Print_mutex U_log \<notin> held w"
  obtains es where
    "DEBUG_OUTPUT os U_log ''Complete influx string: %s'' [StrArg line] w =
       Ret () (w\<lparr>trace := trace w @ es\<rparr>)"
    and "delivered es = []"
proof
  let ?s = "''Complete influx string: '' @ line"
  have "format ''Complete influx string: %s'' [StrArg line] = Some ?s"
    by (simp add: format.simps directive_def strip_prefix_def)
  then show "DEBUG_OUTPUT os U_log ''Complete influx string: %s'' [StrArg line] w =
       Ret () (w\<lparr>trace := trace w @ debug_events os w ?s\<rparr>)"
    using assms by (intro DEBUG_OUTPUT_run)
qed simp

context reliable_transport
begin

lemma send_and_free:
  assumes "m w = seqC (send line) (seqC (emit (EvFree line)) (ret r)) v"
    and "ready v" and "line \<noteq> []" and "int (length line) \<le> INT_MAX"
  shows "wp m (\<lambda>r' w'. r' = r \<and> init_data w' = init_data v \<and> held w' = held v \<and>
           delivered (trace w') = delivered (trace v) @ [line]) w"
proof -
  obtain v' where "send line v = Ret () v'" and "delivered (trace v') = delivered (trace v) @ [line]"
    and "init_data v' = init_data v" "held v' = held v"
    by (rule send_effect [OF assms(2-)])
  then show ?thesis using assms(1) by (simp add: wp_def delivered_by_def)
qed

lemma any_build_writes:
  assumes "env_ok (release os)" and "session_ready app host cluster w" and "ready w"
    and "format message args = Some out" and "length out \<le> DAAP_MAX_MSG_LEN"
    and "format out [] = Some shown" and "Print_mutex U_log \<notin> held w"
  shows "wp (log_write_via send os message args)
           (\<lambda>r w'. r = DAAP_SUCCESS \<and> init_data w' = init_data w \<and> held w' = held w \<and>
              (\<exists>h. delivered (trace w') = delivered (trace w) @
                 [snprintf_str max_size
                    (influx_line app host cluster (mpi_rank (init_data w)) out (clock_ns os h))])) w"
proof -
  have env: "os_fopen_null os h" "os_alloc os h" for h
    using env_okD(1,2) [OF assms(1)] by simp_all
  obtain es where fmt: "format_message os message args w = Ret out (w\<lparr>trace := trace w @ es\<rparr>)"
    and es: "delivered es = []"
    by (rule format_message_shown [OF env(1) assms(4-7)])
  let ?tv = "os_gettimeofday os (trace w @ es)"
  let ?line = "snprintf_str max_size
      (influx_line app host cluster (mpi_rank (init_data w)) out (clock_ns os (trace w @ es)))"
  let ?w1 = "w\<lparr>trace := trace w @ es @ [EvGettimeofday ?tv]\<rparr>"
  let ?w2 = "w\<lparr>trace := trace w @ es @ [EvGettimeofday ?tv, EvAlloc max_size True]\<rparr>"
  have build: "daapBuildInflux os (sint (millisec ?tv)) out ?w1 = Ret (SPtr ?line) ?w2"
    using daapBuildInflux_run [of os ?w1 app host cluster "sint (millisec ?tv)" out] assms(2) env(2)
      clock_ns_range [OF assms(1), of "trace w @ es"]
    by (simp add: session_ready_def clock_ns_def)
  obtain ds where dbg: "DEBUG_OUTPUT os U_log ''Complete influx string: %s'' [StrArg ?line] ?w2 =
      Ret () (?w2\<lparr>trace := trace ?w2 @ ds\<rparr>)" and ds: "delivered ds = []"
    by (rule shown_line [of ?w2]) (use assms(7) in simp_all)
  let ?w3 = "?w2\<lparr>trace := trace ?w2 @ ds\<rparr>"
  have run: "log_write_via send os message args w =
      seqC (send ?line) (seqC (emit (EvFree ?line)) (ret DAAP_SUCCESS)) ?w3"
    using assms(2) fmt dbg
    by (simp add: log_write_via_def session_ready_def getmillisectime_run build)
  have "delivered (trace ?w3) = delivered (trace w)"
    using es ds by (simp add: delivered_by_def)
  moreover have "?line \<noteq> []" "int (length ?line) \<le> INT_MAX"
    by (simp_all add: influx_line_def snprintf_str_def max_size_def c_consts influx_head_def)
  moreover have "ready ?w3" by (rule ready_stable [OF assms(3)]) simp_all
  ultimately show ?thesis
    by (intro wp_mono [OF send_and_free
          [where m = "log_write_via send os message args" and w = w, OF run]]) auto
qed

lemma any_build_writes_raw:
  assumes "env_ok (release os)" and "daapInit_called w" and "ready w"
    and "format message args = Some out" and "length out \<le> DAAP_MAX_MSG_LEN"
    and "format out [] = Some shown" and "Print_mutex U_log \<notin> held w"
  shows "wp (log_raw_via send os message args)
           (\<lambda>r w'. r = 0 \<and> delivered (trace w') = delivered (trace w) @
              [snprintf_str max_size (''daap,'' @ out)]) w"
proof -
  have env: "os_fopen_null os h" "os_alloc os h" for h
    using env_okD(1,2) [OF assms(1)] by simp_all
  obtain es where fmt: "format_message os message args w = Ret out (w\<lparr>trace := trace w @ es\<rparr>)"
    and es: "delivered es = []"
    by (rule format_message_shown [OF env(1) assms(4-7)])
  let ?line = "snprintf_str max_size (''daap,'' @ out)"
  let ?w2 = "w\<lparr>trace := trace w @ es @ [EvAlloc max_size True]\<rparr>"
  obtain ds where dbg: "DEBUG_OUTPUT os U_log ''Complete influx string: %s'' [StrArg ?line] ?w2 =
      Ret () (?w2\<lparr>trace := trace ?w2 @ ds\<rparr>)" and ds: "delivered ds = []"
    by (rule shown_line [of ?w2]) (use assms(7) in simp_all)
  let ?w3 = "?w2\<lparr>trace := trace ?w2 @ ds\<rparr>"
  have run: "log_raw_via send os message args w =
      seqC (send ?line) (seqC (emit (EvFree ?line)) (ret 0)) ?w3"
    using assms(2) fmt dbg env(2)
    by (simp add: log_raw_via_def daapBuildRawInflux_run)
  have "delivered (trace ?w3) = delivered (trace w)"
    using es ds by (simp add: delivered_by_def)
  moreover have "?line \<noteq> []" "int (length ?line) \<le> INT_MAX"
    by (simp_all add: snprintf_str_def max_size_def c_consts)
  moreover have "ready ?w3" by (rule ready_stable [OF assms(3)]) simp_all
  ultimately show ?thesis
    by (intro wp_mono [OF send_and_free
          [where m = "log_raw_via send os message args" and w = w, OF run]]) auto
qed

end

text \<open>Both transports keep their promise in a debug build while the print mutex is free.\<close>

lemma transmit_tcp_shown:
  assumes "transport_type (init_data w) = TCP" and "tls_up os" and "writes_whole os"
    and "Write_mutex \<notin> held w" and "Print_mutex U_log \<notin> held w"
    and "s \<noteq> []" and "int (length s) \<le> INT_MAX"
  shows "wp (transmit os s) (\<lambda>_ w'. delivered (trace w') = delivered (trace w) @ [s]) w"
proof -
  obtain v where tcp: "daapTCPLogWrite os s (int (length s)) w = Ret (int (length s)) v"
    and v: "delivered (trace v) = delivered (trace w) @ [s]" "held v = held w"
    using tcp_write_effect [OF assms(2-4,6,7)] by (auto simp: wp_iff)
  have "\<exists>out. format ''Writing message: %s, written: %d''
      [StrArg s, IntArg (word_of_int (int (length s)))] = Some out"
    by (simp add: format.simps directive_def strip_prefix_def)
  then obtain out where "format ''Writing message: %s, written: %d''
      [StrArg s, IntArg (word_of_int (int (length s)))] = Some out" ..
  then have "DEBUG_OUTPUT os U_log ''Writing message: %s, written: %d''
      [StrArg s, IntArg (word_of_int (int (length s)))] v =
      Ret () (v\<lparr>trace := trace v @ debug_events os v out\<rparr>)"
    using assms(5) v(2) by (intro DEBUG_OUTPUT_run) simp_all
  then show ?thesis
    using assms(1) tcp v(1) by (simp add: transmit_def wp_def)
qed

interpretation any_build: reliable_transport
  "transmit os"
  "\<lambda>w. transport_works (release os) (transport_type (init_data w)) \<and> Write_mutex \<notin> held w \<and>
     Print_mutex U_log \<notin> held w" for os
proof unfold_locales
  fix w :: world and s :: string
  assume "transport_works (release os) (transport_type (init_data w)) \<and> Write_mutex \<notin> held w \<and>
      Print_mutex U_log \<notin> held w"
    and "s \<noteq> []" and "int (length s) \<le> INT_MAX"
  moreover have "tls_up (release os) = tls_up os" "writes_whole (release os) = writes_whole os"
    by (simp_all add: release_def tls_up_def writes_whole_def)
  ultimately show "wp (transmit os s) (\<lambda>_ w'. delivered (trace w') = delivered (trace w) @ [s]) w"
    using syslog.send_delivers [of w s os] transmit_tcp_shown [of w os s]
    by (auto simp: transport_works_def)
qed (simp_all add: frame transmit_held)

section \<open>What the kind of build changes\<close>

lemma release_build: "\<not> os_debug os \<Longrightarrow> release os = os"
  by (simp add: release_def)

lemma writers_read_arguments:
  assumes "env_ok (release os)" and "daapInit_called w" and "Print_mutex U_log \<notin> held w"
    and "format message args = Some out" and "length out \<le> DAAP_MAX_MSG_LEN"
    and "os_debug os" and "format out [] = None"
  shows "daapLogWrite os message args w = Faults BadFormat"
    and "daapLogRawWrite os message args w = Faults BadFormat"
proof -
  have "format_message os message args w = Faults BadFormat"
    using assms env_okD(2) [OF assms(1)] by (intro format_message_reads_arguments) simp_all
  with assms(2) show "daapLogWrite os message args w = Faults BadFormat"
    and "daapLogRawWrite os message args w = Faults BadFormat"
    by (simp_all add: log_defs log_write_via_def log_raw_via_def)
qed

lemma writers_deliver_any_build:
  assumes "env_ok (release os)" and "session_ready app host cluster w"
    and "transport_works (release os) (transport_type (init_data w))"
    and "Write_mutex \<notin> held w" and "Print_mutex U_log \<notin> held w"
    and "format message args = Some out" and "length out \<le> DAAP_MAX_MSG_LEN"
    and "\<not> (os_debug os \<and> format out [] = None)"
  shows "wp (daapLogWrite os message args)
           (\<lambda>r w'. r = DAAP_SUCCESS \<and> (\<exists>h. delivered (trace w') = delivered (trace w) @
              [snprintf_str max_size
                 (influx_line app host cluster (mpi_rank (init_data w)) out (clock_ns os h))])) w"
    and "wp (daapLogRawWrite os message args)
           (\<lambda>r w'. r = 0 \<and> delivered (trace w') = delivered (trace w) @
              [snprintf_str max_size (''daap,'' @ out)]) w"
proof -
  have called: "daapInit_called w" using assms(2) by (simp add: session_ready_def)
  have "wp (log_write_via (transmit os) os message args)
           (\<lambda>r w'. r = DAAP_SUCCESS \<and> (\<exists>h. delivered (trace w') = delivered (trace w) @
              [snprintf_str max_size
                 (influx_line app host cluster (mpi_rank (init_data w)) out (clock_ns os h))])) w \<and>
        wp (log_raw_via (transmit os) os message args)
           (\<lambda>r w'. r = 0 \<and> delivered (trace w') = delivered (trace w) @
              [snprintf_str max_size (''daap,'' @ out)]) w"
  proof (cases "os_debug os")
    case False
    then have rel: "release os = os" by (rule release_build)
    show ?thesis
      using assms(1,3) unfolding rel
      by (intro conjI wp_mono [OF job.write_delivers [OF _ assms(2) _ assms(6,7)]]
          wp_mono [OF job.raw_delivers [OF _ called _ assms(6,7)]]) (use assms(4) in auto)
  next
    case True
    with assms(8) obtain shown where shown: "format out [] = Some shown" by auto
    show ?thesis
      by (intro conjI any_build.any_build_writes_raw [OF assms(1) called _ assms(6,7) shown assms(5)]
          wp_mono [OF any_build.any_build_writes [OF assms(1,2) _ assms(6,7) shown assms(5)]])
        (use assms(3-5) in auto)
  qed
  then show "wp (daapLogWrite os message args)
           (\<lambda>r w'. r = DAAP_SUCCESS \<and> (\<exists>h. delivered (trace w') = delivered (trace w) @
              [snprintf_str max_size
                 (influx_line app host cluster (mpi_rank (init_data w)) out (clock_ns os h))])) w"
    and "wp (daapLogRawWrite os message args)
           (\<lambda>r w'. r = 0 \<and> delivered (trace w') = delivered (trace w) @
              [snprintf_str max_size (''daap,'' @ out)]) w"
    by (simp_all add: log_defs)
qed

text \<open>
  C39: What the kind of build changes for the wire, in an initialised process with a transport that
  works, memory, null device, a 64-bit clock, tag-safe names, \<open>write_mutex\<close> and the print mutex of the log free, and for
  a call whose format matches its arguments and whose formatted text has no quote or backslash
  and fits the 2048-byte line. A release build delivers, from either writer, exactly one line
  that carries the formatted text. In a debug build the formatted text becomes the format of
  \<open>DEBUG_OUTPUT\<close>: when it is itself a complete format without arguments (no percent sign, or \<open>%%\<close>
  only), the same line is delivered; otherwise (another conversion, or a lone percent sign) both
  writers read arguments that were never passed.
\<close>
theorem debug_build_writes:
  assumes "env_ok (release os)" and "tag_safe app" "tag_safe host" "tag_safe cluster"
    and "session_ready app host cluster w"
    and "transport_works (release os) (transport_type (init_data w))"
    and "Write_mutex \<notin> held w" and "Print_mutex U_log \<notin> held w"
    and "format message args = Some out" and "field_safe out"
    and "fits app host cluster (mpi_rank (init_data w)) out"
  shows "if os_debug os \<and> format out [] = None
         then daapLogWrite os message args w = Faults BadFormat \<and>
              daapLogRawWrite os message args w = Faults BadFormat
         else wp (daapLogWrite os message args)
                (\<lambda>r w'. r = DAAP_SUCCESS \<and>
                   (\<exists>line. delivered (trace w') = delivered (trace w) @ [line] \<and>
                      reads_as app host cluster (mpi_rank (init_data w)) out line)) w \<and>
              wp (daapLogRawWrite os message args)
                (\<lambda>r w'. r = 0 \<and> delivered (trace w') =
                   delivered (trace w) @ [snprintf_str max_size (''daap,'' @ out)]) w"
proof -
  have len: "length out \<le> DAAP_MAX_MSG_LEN"
    using assms(11) by (simp add: fits_def c_consts max_size_def)
  have called: "daapInit_called w" using assms(5) by (simp add: session_ready_def)
  have reads: "reads_as app host cluster (mpi_rank (init_data w)) out
      (snprintf_str max_size (influx_line app host cluster (mpi_rank (init_data w)) out (clock_ns os h)))"
    for h
    using short_line_reads [OF assms(1-4,10,11), of h] by simp
  show ?thesis
  proof (cases "os_debug os \<and> format out [] = None")
    case True
    with writers_read_arguments [OF assms(1) called assms(8,9) len] show ?thesis by simp
  next
    case False
    note both = writers_deliver_any_build [OF assms(1,5-9) len False]
    from both(2) reads False show ?thesis by (auto intro: wp_mono [OF both(1)])
  qed
qed

theorem debug_build_writes_witness:
  "wp (daapLogWrite (os_good\<lparr>os_debug := True\<rparr>) ''%s'' [StrArg ''step 1''])
     (\<lambda>r w'. r = 0 \<and> (\<exists>line. delivered (trace w') = [line] \<and>
        reads_as ''vpic'' ''nid00042'' ''trinity'' 7 ''step 1'' line)) (world_ready TCP) \<and>
   daapLogWrite (os_good\<lparr>os_debug := True\<rparr>) ''%s'' [StrArg ''at %s''] (world_ready TCP) =
     Faults BadFormat"
proof -
  have "release (os_good\<lparr>os_debug := True\<rparr>) = os_good"
    by (simp add: release_def os_good_def)
  moreover have "field_safe ''at %s''" "fits ''vpic'' ''nid00042'' ''trinity'' 7 ''at %s''"
    by (simp_all add: field_safe_def fits_def dquote_def influx_head_def dec_int_def dec.simps max_size_def)
  ultimately show ?thesis
    using debug_build_writes [of "os_good\<lparr>os_debug := True\<rparr>" "''vpic''" "''nid00042''" "''trinity''"
        "world_ready TCP" "''%s''" "[StrArg ''step 1'']" "''step 1''"]
      debug_build_writes [of "os_good\<lparr>os_debug := True\<rparr>" "''vpic''" "''nid00042''" "''trinity''"
        "world_ready TCP" "''%s''" "[StrArg ''at %s'']" "''at %s''"]
    by (simp add: transport_works_def format.simps directive_def strip_prefix_def c_consts)
qed

end
