(* ===== verification/Spec2Isabelle.thy ===== *)
theory Spec2Isabelle
  imports Resources Connections Types InitThreads Threads Clients ParserResources DebugBuild
begin

text \<open>
  A verification development for \<open>daap_log\<close>, a C library with which processes of a parallel
  job send log lines to a collector, and for \<open>stdout_parser\<close>, a client that turns the output
  of a job into such lines. All paths are under \<open>src/src/\<close>.

  The program. A process calls \<open>daapInit\<close> (\<open>daap_init.c\<close>), which fills the global \<open>init_data\<close>
  with names and rank and opens a transport; then \<open>daapLogWrite\<close> and its variants
  (\<open>daap_log.c\<close>), which format a message, build a line of the influx line protocol around it
  and hand it to syslog or to \<open>daapTCPLogWrite\<close> (\<open>daap_tcp.c\<close>), which opens a TLS connection
  to the local collector for every line; at the end \<open>daapFinalize\<close>. The clock is
  \<open>daap_timestr.c\<close>, the diagnostics are macros of \<open>daap_log_internal.h\<close>.

  The model. \<open>Prelude\<close> has the outcomes of running C code (a value, a process exit, one of
  seven kinds of undefined behaviour, a deadlock, divergence), commands over an explicit
  state with their sequencing, the transformers \<open>wp\<close> (the command returns and the
  postcondition holds) and \<open>wlp\<close> (if it returns), and \<open>yields\<close>, a judgement for commands that
  keep an invariant, return a value of a type and may end the process. \<open>CString\<close> and \<open>Printf\<close> are the part of the
  C library that the code uses: \<open>strstr\<close>, \<open>strtok\<close>, \<open>strncpy\<close>, \<open>fgets\<close>, \<open>atoi\<close>, the format
  directives. \<open>World\<close> has the types of \<open>daap_log.h\<close>, the process state (globals, file-static
  variables, mutexes held, \<open>errno\<close>) and the history of calls to the environment. Kernel,
  allocator, clock, environment variables and OpenSSL are the parameter \<open>os\<close>: functions from
  the history to the result of a call, so a call may answer differently each time. A variable
  that the code reads before it writes it has the arbitrary value \<open>os_indet\<close>; whether the
  build defines \<open>DEBUG\<close>, so that \<open>DEBUG_OUTPUT\<close> prints, is \<open>os_debug\<close>.

  Code and theories. \<open>TimeStr\<close>: \<open>daap_timestr.c\<close>. \<open>Influx\<close>: \<open>daapBuildInflux\<close> and
  \<open>daapBuildRawInflux\<close>, with a reader of the line protocol as the specification. \<open>Tcp\<close>:
  \<open>daap_tcp.c\<close>. \<open>LogWrite\<close>: the writers, job messages and Fortran entry points. \<open>Init\<close>:
  \<open>daap_init.c\<close>. \<open>Templates\<close> and \<open>Results\<close>: \<open>stdout_parser.c\<close>. A C function \<open>f\<close> is the
  definition \<open>f\<close> (\<open>f_\<close> of the Fortran interface is \<open>f_F\<close>); where a body is long, its
  paragraphs are definitions of their own that it composes.

  The interface between the writers and the transports is the locale \<open>reliable_transport\<close> in
  \<open>Delivery\<close>: a \<open>send\<close> that delivers the line it is given and keeps the session. Inside it, a
  sequence of writes is shown to deliver one line per message, in order, that reads back as
  the message; syslog, TLS and their union interpret it. The orders that commands keep
  (a field unchanged, the history growing, mutexes released, an invariant) interpret the
  locale \<open>step_order\<close> of \<open>Prelude\<close>.

  What is shown. \<open>Lifecycle\<close>: a whole job delivers its messages framed by start and end
  messages; results of \<open>daapInit\<close>; what \<open>daapFinalize\<close> releases and leaves dangling. \<open>Resources\<close>:
  what such a job acquires and gives back, kind by kind, with the TLS objects that it loses.
  \<open>Session\<close>: the calls that a client makes (\<open>daapInit\<close>, the writers, the job messages, \<open>daapLogRead\<close>,
  \<open>daapSetRank\<close>, \<open>daapFinalize\<close> and the Fortran entry points) as a transition system, with
  invariants for every client and every environment (no mutex left locked, no deadlock, exit
  status, priority, silence before initialisation, history only extended). A session goes on only
  after a call that returned: a call that faults or never returns has no successor state, so the
  session properties are partial correctness, and the calls that do fault are properties of
  their own. \<open>Connections\<close>: in every session the history is a sequence of complete connections, each
  opened, written to and closed before the next one, and so it is for threads; the answers of
  OpenSSL count as the code tests them, and where this is laxer than what OpenSSL documents,
  the properties say so. \<open>Types\<close>: a typing judgement, and that the well typed calls that return keep
  the \<open>int\<close>s and arrays of the C program. \<open>Tcp\<close>: delivery when \<open>SSL_write\<close> takes whole buffers, and
  the failure paths. The mode of a TLS connection is not modelled; the source leaves it at the
  default, in which writes are whole (\<open>writes_whole\<close>). \<open>Templates\<close>: a template
  file of any number of blocks parses to the tables that it describes, up to ten, and is out of
  bounds beyond; what compiled key patterns and blank lines do. \<open>Results\<close>: the lines sent for
  table rows and pattern matches, and the out-of-range and uninitialised reads. \<open>Scan\<close>: an
  abstract parser, a machine over lines that knows no arrays, and the refinement of it by
  \<open>parseResults\<close> and the whole of \<open>stdout_parser\<close> for up to ten tables. The refinement assumes that
  the index \<open>line_len\<close>, which the source never assigns, happens to point behind all lines of the
  file, and the abstract parser uses the value names as the template parser leaves them (after
  the first table they are shifted). \<open>ParserResources\<close>: the
  memory and the files that a run of the parser takes and gives back, in every environment.
  \<open>DebugBuild\<close>: the lines of a debug build are those of a release build, except that the
  writers use the formatted message as a format. The invariants of \<open>Session\<close>, \<open>Connections\<close>
  and \<open>Types\<close> hold in both kinds of build; the delivery theorems of the other theories are
  about release builds (\<open>env_ok\<close>).

  Conditions that the delivery theorems share. \<open>env_ok\<close>: a release build, memory and the null device
  are available, the clock fits 64 bits of nanoseconds. \<open>init_env\<close>: a Slurm node name is set and
  the certificate directory is not 4080 bytes long. \<open>transport_works\<close>: syslog, or TCP with
  \<open>tls_up\<close> (every socket, connection and handshake succeeds) and \<open>writes_whole\<close>. \<open>session_ready\<close>: the
  library is initialised and its names are valid strings. \<open>tag_safe\<close>, \<open>field_safe\<close>, \<open>plain\<close>, \<open>fits\<close>:
  the names are not empty and have no separator, the message has no quote or backslash, no percent
  sign, and fits the line of 2048 bytes with its head and time stamp. Each text says which it
  uses, and other properties say what happens without them. "Reads back" means by \<open>parse_influx\<close>
  of \<open>Influx\<close>, which takes the line it is given as one point; a line break inside a message,
  which a collector would take for the end of the point, is not excluded.

  Bounds and loops. The \<open>SSL_write\<close> loop is a partial function into \<open>option\<close>, whose \<open>None\<close> is
  the outcome \<open>Diverges\<close>; the host name loop has its eight tries as an argument; all other
  loops run over lists. No fuel is used.

  Threads. \<open>Threads\<close> cuts \<open>daapLogWrite\<close> and \<open>daapLogRawWrite\<close> into steps (\<open>advance\<close>) and lets
  any number of threads take them in any order (\<open>sys_step\<close>). A thread alone computes the
  sequential code of its writer (\<open>perform\<close>); the locale
  \<open>mutex_client\<close>, interpreted on these steps, gives mutual exclusion in every environment;
  over a working connection lines never mix, each thread's messages arrive in its order,
  nothing gets stuck and every run ends after at most twelve steps per call. \<open>InitThreads\<close>
  does the same for \<open>daapInit\<close> (\<open>init_step\<close>): one call initialises, whatever the interleaving.
  The races that the mutexes do not exclude, with \<open>daapFinalize\<close> and between two \<open>daapInit\<close>, are
  properties too. A step is the code between two accesses to shared state,
  taken at once; diagnostics inside a step are not interleaved.

  \<open>Clients\<close>: the placeholders of \<open>daap_metric.c\<close>, the empty library of \<open>daap_log_empty.c\<close> and
  \<open>daap_init_empty.c\<close> (\<open>f\<close> is \<open>empty_f\<close>), and \<open>test_logger.c\<close> over either library.

  Not modelled. Calls that a client could make to the functions behind the interface that
  \<open>daap_log.h\<close> also declares (\<open>daapTCPConnect\<close>, \<open>daapTCPLogWrite\<close>, the line builders, the metrics) are
  not steps of a session, although the functions are modelled; the macOS branches; the time stamp and file name that a diagnostic line
  carries; the message that \<open>getopt\<close> itself prints for an unknown option; a signal or a
  cancelled thread in the middle of a call. Comments, includes, prototypes of internal
  functions, unused macros and preprocessor guards are the lines that no definition has.
\<close>

end
